(* ===== verification/Prelude.thy ===== *)
theory Prelude
  imports Main "HOL-Library.Word"
begin

text \<open>
  Shared ground of the development: machine-integer names, the outcome type of the C
  functions (\<open>Inr\<close> the value, \<open>Inl\<close> the reason it was not produced), C arrays and
  strings, and the lemma collections the component theories add to.

  A C function that returns \<open>false\<close> is an \<open>Inl Reject\<close>. Two more faults stand for undefined
  behaviour the C text could run into: a \<open>NULL\<close> dereference and an access outside an array.
  They are values of the model so that their absence is something to prove.
\<close>

section \<open>Names\<close>

type_synonym u8 = "8 word"
type_synonym u16 = "16 word"
type_synonym u32 = "32 word"
type_synonym u64 = "64 word"
type_synonym byte = u8

datatype fault = Reject | Null_deref | Out_of_bounds

type_synonym 'a result = "fault + 'a"

named_theorems enum_simps \<open>decoding of the C enumerations\<close>
named_theorems zero_defs \<open>zero-initialised structs\<close>
named_theorems outcome_simps \<open>sequencing of results\<close>

section \<open>Outcomes\<close>

definition rbind :: "'a result \<Rightarrow> ('a \<Rightarrow> 'b result) \<Rightarrow> 'b result" where
  "rbind m f = (case m of Inl e \<Rightarrow> Inl e | Inr a \<Rightarrow> f a)"

definition of_opt :: "'a option \<Rightarrow> 'a result" where
  "of_opt m = (case m of None \<Rightarrow> Inl Reject | Some a \<Rightarrow> Inr a)"

definition check :: "bool \<Rightarrow> 'a \<Rightarrow> 'a result" where
  "check b a = (if b then Inr a else Inl Reject)"

text \<open>The outcomes that are not undefined behaviour.\<close>

definition no_ub :: "'a result \<Rightarrow> bool" where
  "no_ub m \<longleftrightarrow> (\<forall>e. m = Inl e \<longrightarrow> e = Reject)"

definition accepted :: "'a result \<Rightarrow> bool" where
  "accepted m = (case m of Inl _ \<Rightarrow> False | Inr _ \<Rightarrow> True)"

lemma rbind_simps [simp, outcome_simps]:
  "rbind (Inl e) f = Inl e" "rbind (Inr a) f = f a"
  by (simp_all add: rbind_def)

lemma rbind_Inr_conv [outcome_simps]: "rbind m f = Inr b \<longleftrightarrow> (\<exists>a. m = Inr a \<and> f a = Inr b)"
  by (cases m) auto

lemma rbind_Inl_conv [outcome_simps]:
  "rbind m f = Inl e \<longleftrightarrow> m = Inl e \<or> (\<exists>a. m = Inr a \<and> f a = Inl e)"
  by (cases m) auto

lemma of_opt_simps [simp, outcome_simps]:
  "of_opt None = Inl Reject" "of_opt (Some a) = Inr a"
  "of_opt m = Inr a \<longleftrightarrow> m = Some a"
  "of_opt m = Inl e \<longleftrightarrow> m = None \<and> e = Reject"
  by (auto simp: of_opt_def split: option.splits)

lemma check_simps [simp, outcome_simps]:
  "check True a = Inr a" "check False a = Inl Reject"
  "check b a = Inr a' \<longleftrightarrow> b \<and> a' = a"
  "check b a = Inl e \<longleftrightarrow> \<not> b \<and> e = Reject"
  by (auto simp: check_def)

lemma no_ub_simps [simp]:
  "no_ub (Inr a)" "no_ub (Inl e) \<longleftrightarrow> e = Reject" "no_ub (of_opt m)" "no_ub (check b a)"
  by (auto simp: no_ub_def)

lemma no_ub_rbind: "no_ub m \<Longrightarrow> (\<And>a. m = Inr a \<Longrightarrow> no_ub (f a)) \<Longrightarrow> no_ub (rbind m f)"
  by (cases m) auto

lemma accepted_simps [simp]: "accepted (Inr a)" "\<not> accepted (Inl e)"
  by (simp_all add: accepted_def)

lemma accepted_conv: "accepted m \<longleftrightarrow> (\<exists>a. m = Inr a)"
  by (cases m) auto

lemma outcome_case:
  assumes "no_ub m" "\<And>x. m = Inr x \<Longrightarrow> Q x"
  shows "case m of Inl e \<Rightarrow> e = Reject | Inr x \<Rightarrow> Q x"
  using assms by (cases m) simp_all

section \<open>Arrays and memory blocks\<close>

text \<open>A store into a fixed-size array, with the index checked by the model.\<close>

definition arr_get :: "'a list \<Rightarrow> nat \<Rightarrow> 'a result" where
  "arr_get xs i = (if i < length xs then Inr (xs ! i) else Inl Out_of_bounds)"

definition arr_set :: "'a list \<Rightarrow> nat \<Rightarrow> 'a \<Rightarrow> 'a list result" where
  "arr_set xs i v = (if i < length xs then Inr (xs[i := v]) else Inl Out_of_bounds)"

lemma arr_simps [simp]:
  "i < length xs \<Longrightarrow> arr_get xs i = Inr (xs ! i)"
  "i < length xs \<Longrightarrow> arr_set xs i v = Inr (xs[i := v])"
  by (simp_all add: arr_get_def arr_set_def)

lemma arr_set_Inr: "arr_set xs i v = Inr ys \<longleftrightarrow> i < length xs \<and> ys = xs[i := v]"
  by (auto simp: arr_set_def)

lemma nth_in_take: "i < n \<Longrightarrow> n \<le> length xs \<Longrightarrow> xs ! i \<in> set (take n xs)"
  by (metis length_take min.absorb2 nth_mem nth_take)

lemma take_list_update_same:
  "n < length xs \<Longrightarrow> take (Suc n) (xs[n := v]) = take n xs @ [v]"
  by (simp add: take_Suc_conv_app_nth)

text \<open>
  An array filled from the front: the first \<open>n\<close> slots satisfy \<open>P\<close>, the free ones \<open>Q\<close>.
\<close>

definition filled :: "('a \<Rightarrow> bool) \<Rightarrow> ('a \<Rightarrow> bool) \<Rightarrow> nat \<Rightarrow> 'a list \<Rightarrow> bool" where
  "filled P Q n xs \<longleftrightarrow> list_all P (take n xs) \<and> list_all Q (drop n xs)"

lemma filled_free: "filled P Q n xs \<Longrightarrow> n < length xs \<Longrightarrow> Q (xs ! n)"
  by (simp add: filled_def flip: Cons_nth_drop_Suc)

lemma filled_push: "filled P Q n xs \<Longrightarrow> n < length xs \<Longrightarrow> P v \<Longrightarrow> filled P Q (Suc n) (xs[n := v])"
  by (simp add: filled_def take_list_update_same flip: Cons_nth_drop_Suc)

lemma filled_replicate: "Q v \<Longrightarrow> filled P Q 0 (replicate n v)"
  by (simp add: filled_def list_all_iff)

text \<open>\<open>memcpy (out, in, n)\<close> of the first \<open>n\<close> bytes of a buffer.\<close>

definition read_bytes :: "nat \<Rightarrow> 'a list \<Rightarrow> 'a list result" where
  "read_bytes n bs = (if n \<le> length bs then Inr (take n bs) else Inl Out_of_bounds)"

lemma read_bytes_exact [simp]: "length bs = n \<Longrightarrow> read_bytes n bs = Inr bs"
  by (simp add: read_bytes_def)

lemma read_bytes_length: "read_bytes n bs = Inr a \<Longrightarrow> length a = n"
  by (auto simp: read_bytes_def split: if_splits)

text \<open>\<open>memcpy (&dst[off], src, length src)\<close>.\<close>

definition memcpy_at :: "'a list \<Rightarrow> nat \<Rightarrow> 'a list \<Rightarrow> 'a list" where
  "memcpy_at dst off src = take off dst @ src @ drop (off + length src) dst"

lemma length_memcpy_at [simp]:
  "off + length src \<le> length dst \<Longrightarrow> length (memcpy_at dst off src) = length dst"
  by (simp add: memcpy_at_def)

lemma take_memcpy_at [simp]:
  "off \<le> length dst \<Longrightarrow> take (off + length src) (memcpy_at dst off src) = take off dst @ src"
  by (simp add: memcpy_at_def)

section \<open>C strings\<close>

text \<open>
  A \<open>char\<close> array that holds a C string is modelled by the characters before its terminator. The
  string fits an array of \<open>n\<close> bytes when it has at most \<open>n - 1\<close> characters and no inner
  terminator.
\<close>

definition cstr_fits :: "nat \<Rightarrow> string \<Rightarrow> bool" where
  "cstr_fits n s \<longleftrightarrow> length s < n \<and> CHR 0x00 \<notin> set s"

definition byte_of_char :: "char \<Rightarrow> byte" where
  "byte_of_char c = word_of_nat (of_char c)"

definition char_of_byte :: "byte \<Rightarrow> char" where
  "char_of_byte b = char_of (unat b)"

definition bytes_of :: "string \<Rightarrow> byte list" where
  "bytes_of s = map byte_of_char s"

lemma char_of_byte_of_char [simp]: "char_of_byte (byte_of_char c) = c"
proof -
  have "(of_char c :: nat) mod 256 = of_char c"
    by (rule of_char_mod_256)
  then have "unat (word_of_nat (of_char c) :: byte) = of_char c"
    by (simp add: unat_of_nat take_bit_eq_mod)
  then show ?thesis
    by (simp add: char_of_byte_def byte_of_char_def)
qed

lemma byte_of_char_inject [simp]: "byte_of_char a = byte_of_char b \<longleftrightarrow> a = b"
  by (metis char_of_byte_of_char)

lemma length_bytes_of [simp]: "length (bytes_of s) = length s"
  by (simp add: bytes_of_def)

lemma bytes_of_inject [simp]: "bytes_of s = bytes_of t \<longleftrightarrow> s = t"
proof
  assume "bytes_of s = bytes_of t"
  then have "map char_of_byte (bytes_of s) = map char_of_byte (bytes_of t)" by simp
  then show "s = t" by (simp add: bytes_of_def comp_def)
qed simp

section \<open>Enumerations\<close>

text \<open>
  A \<open>switch\<close> over a received byte that accepts the listed enumerators and casts the byte to the
  enumeration: the enumerator with that code, if it is one of them.
\<close>

definition enum_of :: "('e \<Rightarrow> u8) \<Rightarrow> 'e list \<Rightarrow> u8 \<Rightarrow> 'e option" where
  "enum_of code es b = find (\<lambda>e. code e = b) es"

lemma enum_of_Some: "enum_of code es b = Some e \<Longrightarrow> code e = b \<and> e \<in> set es"
  by (auto simp: enum_of_def find_Some_iff)

lemma enum_of_code: "inj code \<Longrightarrow> e \<in> set es \<Longrightarrow> enum_of code es (code e) = Some e"
  by (induction es) (auto simp: enum_of_def inj_eq)

section \<open>Hexadecimal rendering\<close>

definition hex_digit :: "u8 \<Rightarrow> char" where
  "hex_digit n = ''0123456789abcdef'' ! unat (take_bit 4 n)"

fun hex_of_bytes :: "byte list \<Rightarrow> string" where
  "hex_of_bytes [] = []"
| "hex_of_bytes (b # bs) = hex_digit (drop_bit 4 b) # hex_digit b # hex_of_bytes bs"

text \<open>
  \<open>bytes_to_lowercase_hex (out, outl, value, len)\<close>: the status and the string left in \<open>out\<close>.
\<close>

definition bytes_to_lowercase_hex :: "nat \<Rightarrow> byte list \<Rightarrow> int \<times> string" where
  "bytes_to_lowercase_hex outl bs =
     (if outl < 2 * length bs + 1 then (-1, []) else (0, hex_of_bytes bs))"

lemma length_hex_of_bytes [simp]: "length (hex_of_bytes bs) = 2 * length bs"
  by (induction bs) simp_all

lemma hex_table_distinct: "distinct ''0123456789abcdef''"
  by simp

lemma nibble_less: "unat (take_bit 4 (n :: u8)) < 16"
  using take_bit_nat_less_exp [of 4 "unat n"] by (simp add: unsigned_take_bit_eq)

lemma hex_digit_inject: "hex_digit a = hex_digit b \<longleftrightarrow> take_bit 4 a = take_bit 4 b"
proof
  assume "hex_digit a = hex_digit b"
  then have "unat (take_bit 4 a) = unat (take_bit 4 b)"
    using nibble_less [of a] nibble_less [of b] nth_eq_iff_index_eq [OF hex_table_distinct]
    by (simp add: hex_digit_def)
  then show "take_bit 4 a = take_bit 4 b" by (rule word_unat_eq_iff [THEN iffD2])
qed (simp add: hex_digit_def)

lemma byte_nibbles: "(b :: u8) = push_bit 4 (take_bit 4 (drop_bit 4 b)) + take_bit 4 b"
proof -
  have "take_bit 4 (drop_bit 4 b) = drop_bit 4 b"
    by (rule bit_word_eqI) (auto simp: bit_simps dest: bit_imp_le_length)
  then show ?thesis
    using bits_ident [of 4 b] by simp
qed

lemma hex_of_bytes_inject: "hex_of_bytes as = hex_of_bytes bs \<longleftrightarrow> as = bs"
proof
  show "hex_of_bytes as = hex_of_bytes bs \<Longrightarrow> as = bs"
  proof (induction as arbitrary: bs)
    case Nil
    then show ?case by (cases bs) auto
  next
    case (Cons a as)
    then obtain b bs' where bs: "bs = b # bs'" by (cases bs) auto
    with Cons show ?case
      using byte_nibbles [of a] byte_nibbles [of b] by (auto simp: hex_digit_inject)
  qed
qed simp

lemma hex_digit_not_NUL: "hex_digit n \<noteq> CHR 0x00"
proof -
  have "hex_digit n \<in> set ''0123456789abcdef''"
    unfolding hex_digit_def using nibble_less [of n] by (intro nth_mem) simp
  then show ?thesis by auto
qed

lemma hex_of_bytes_not_NUL: "CHR 0x00 \<notin> set (hex_of_bytes bs)"
  by (induction bs) (simp_all add: hex_digit_not_NUL [symmetric])

end
