(* ===== verification/Metadata_Types.thy ===== *)
theory Metadata_Types
  imports Prelude
begin

text \<open>
  The sizes of \<open>constants.h\<close> and the metadata struct of \<open>action_metadata.h\<close>. The metadata is read by
  every other component (through \<open>ctx_get_action_metadata\<close>), so its types come first; its parser is
  in \<open>Action_Metadata\<close>.
\<close>

section \<open>Sizes\<close>

definition ADDRESS_LENGTH :: nat where [simp]: "ADDRESS_LENGTH = 20"
definition ASSET_TICKER_LENGTH :: nat where [simp]: "ASSET_TICKER_LENGTH = 48"
definition NUMERIC_STRING_LENGTH :: nat where [simp]: "NUMERIC_STRING_LENGTH = 21"
definition BULK_MAX_SIZE :: nat where [simp]: "BULK_MAX_SIZE = 5"
definition MARGIN_DECIMALS :: nat where [simp]: "MARGIN_DECIMALS = 6"
definition COUNTERVALUE_TICKER :: string where [simp]: "COUNTERVALUE_TICKER = ''USDC''"
definition SHORT_LONG_STRING_LENGTH :: nat where [simp]: "SHORT_LONG_STRING_LENGTH = 5"
definition LIMIT_MARKET_STRING_LENGTH :: nat where [simp]: "LIMIT_MARKET_STRING_LENGTH = 6"
definition UINT32_STRING_LENGTH :: nat where [simp]: "UINT32_STRING_LENGTH = 10"
definition CLOID_BIT_LENGTH :: nat where [simp]: "CLOID_BIT_LENGTH = 128"
definition PRICE_STRING_LENGTH :: nat where [simp]:
  "PRICE_STRING_LENGTH = NUMERIC_STRING_LENGTH + 1 + ASSET_TICKER_LENGTH"
definition SIZE_STRING_LENGTH :: nat where [simp]: "SIZE_STRING_LENGTH = PRICE_STRING_LENGTH"
definition MARGIN_STRING_LENGTH :: nat where [simp]: "MARGIN_STRING_LENGTH = PRICE_STRING_LENGTH"
definition LEVERAGE_STRING_LENGTH :: nat where [simp]:
  "LEVERAGE_STRING_LENGTH = UINT32_STRING_LENGTH + 1"
definition CLOID_HEX_STRING_LENGTH :: nat where [simp]:
  "CLOID_HEX_STRING_LENGTH = 2 + (CLOID_BIT_LENGTH div 8 * 2) + 1"

section \<open>Metadata\<close>

datatype e_operation_type =
    OP_TYPE_ORDER | OP_TYPE_MODIFY | OP_TYPE_CANCEL | OP_TYPE_UPDATE_LEVERAGE | OP_TYPE_CLOSE
  | OP_TYPE_UPDATE_MARGIN | OP_TYPE_CANCEL_SL | OP_TYPE_CANCEL_TP | OP_TYPE_CANCEL_TP_SL

primrec op_type_code :: "e_operation_type \<Rightarrow> u8" where
  "op_type_code OP_TYPE_ORDER = 0x00"
| "op_type_code OP_TYPE_MODIFY = 0x01"
| "op_type_code OP_TYPE_CANCEL = 0x02"
| "op_type_code OP_TYPE_UPDATE_LEVERAGE = 0x03"
| "op_type_code OP_TYPE_CLOSE = 0x04"
| "op_type_code OP_TYPE_UPDATE_MARGIN = 0x05"
| "op_type_code OP_TYPE_CANCEL_SL = 0x06"
| "op_type_code OP_TYPE_CANCEL_TP = 0x07"
| "op_type_code OP_TYPE_CANCEL_TP_SL = 0x08"

datatype e_network = NETWORK_MAINNET | NETWORK_TESTNET

primrec network_code :: "e_network \<Rightarrow> u8" where
  "network_code NETWORK_MAINNET = 0"
| "network_code NETWORK_TESTNET = 1"

record s_action_metadata =
  md_op_type :: e_operation_type
  md_asset_id :: u32
  md_asset_ticker :: string
  md_network :: e_network
  md_has_builder_addr :: bool
  md_builder_addr :: "byte list"
  md_has_margin :: bool
  md_margin :: u64
  md_has_leverage :: bool
  md_leverage :: u32

definition s_action_metadata_0 :: s_action_metadata where [zero_defs]:
  "s_action_metadata_0 = \<lparr>md_op_type = OP_TYPE_ORDER, md_asset_id = 0, md_asset_ticker = [],
     md_network = NETWORK_MAINNET, md_has_builder_addr = False,
     md_builder_addr = replicate ADDRESS_LENGTH 0, md_has_margin = False, md_margin = 0,
     md_has_leverage = False, md_leverage = 0\<rparr>"

text \<open>What a finished metadata parse guarantees of the struct.\<close>

definition metadata_wf :: "s_action_metadata \<Rightarrow> bool" where
  "metadata_wf m \<longleftrightarrow> md_op_type m \<noteq> OP_TYPE_UPDATE_LEVERAGE \<and>
     1 \<le> length (md_asset_ticker m) \<and> cstr_fits (ASSET_TICKER_LENGTH + 1) (md_asset_ticker m) \<and>
     length (md_builder_addr m) = ADDRESS_LENGTH"

lemma inj_op_type_code: "inj op_type_code"
proof (rule injI)
  fix a b assume "op_type_code a = op_type_code b"
  then show "a = b" by (cases a; cases b) simp_all
qed

lemma inj_network_code: "inj network_code"
proof (rule injI)
  fix a b assume "network_code a = network_code b"
  then show "a = b" by (cases a; cases b) simp_all
qed

text \<open>The bound shared by every numeric string of the protocol.\<close>

definition num_str :: "string \<Rightarrow> bool" where
  "num_str s \<longleftrightarrow> 1 \<le> length s \<and> cstr_fits (NUMERIC_STRING_LENGTH + 1) s"

lemma num_str_length: "num_str s \<Longrightarrow> 1 \<le> length s \<and> length s \<le> 21"
  by (simp add: num_str_def cstr_fits_def)

end
