(* ===== verification/Tlv.thy ===== *)
theory Tlv
  imports Metadata_Types
begin

text \<open>
  The interface of the SDK's TLV library, as the parsers of the application use it. Every struct
  parser under \<open>src/src\<close> is a table of tags (\<open>X(tag, name, handler, unicity)\<close>) that
  \<open>DEFINE_TLV_PARSER\<close> turns into a function, plus a call of \<open>TLV_CHECK_RECEIVED_TAGS\<close>.

  The library is not part of the repository and stays a parameter, the record \<open>tlv_lib\<close>: which
  items it delivers from a payload and whether it finds the payload well formed (\<open>tlv_items\<close>), and
  what its value readers return (\<open>get_\<dots>_from_tlv_data\<close>). What the parsers rely on is stated in
  \<open>tlv_lib_ok\<close>. What is modelled is the run of the application's handlers over the delivered items:
  the first handler that returns \<open>false\<close> stops the parse.
\<close>

section \<open>Items and the library parameter\<close>

record tlv_data =
  td_tag :: nat
  td_value :: "byte list"
  td_raw :: "byte list"

datatype unicity = ENFORCE_UNIQUE_TAG | ALLOW_MULTIPLE_TAG

record tlv_lib =
  tlv_items :: "(nat \<times> unicity) list \<Rightarrow> byte list \<Rightarrow> tlv_data list \<times> bool"
  get_uint8 :: "tlv_data \<Rightarrow> u8 option"
  get_uint32 :: "tlv_data \<Rightarrow> u32 option"
  get_uint64 :: "tlv_data \<Rightarrow> u64 option"
  get_bool :: "tlv_data \<Rightarrow> bool option"
  get_string :: "tlv_data \<Rightarrow> nat \<Rightarrow> nat \<Rightarrow> string option"
  get_buffer :: "tlv_data \<Rightarrow> nat \<Rightarrow> nat \<Rightarrow> byte list option"

text \<open>
  What the library documents: it hands over only tags of the table, a tag declared unique at most
  once, strings between the two lengths and terminated inside the destination, buffers between the
  two lengths.
\<close>

definition tlv_known :: "tlv_lib \<Rightarrow> bool" where
  "tlv_known L \<longleftrightarrow> (\<forall>T p. \<forall>d \<in> set (fst (tlv_items L T p)). td_tag d \<in> fst ` set T)"

definition tlv_unique :: "tlv_lib \<Rightarrow> bool" where
  "tlv_unique L \<longleftrightarrow> (\<forall>T p t. (t, ENFORCE_UNIQUE_TAG) \<in> set T \<longrightarrow>
     count_list (map td_tag (fst (tlv_items L T p))) t \<le> 1)"

definition tlv_reads_ok :: "tlv_lib \<Rightarrow> bool" where
  "tlv_reads_ok L \<longleftrightarrow>
     (\<forall>d mn sz s. get_string L d mn sz = Some s \<longrightarrow> mn \<le> length s \<and> cstr_fits sz s) \<and>
     (\<forall>d mn mx b. get_buffer L d mn mx = Some b \<longrightarrow> mn \<le> length b \<and> length b \<le> mx)"

definition tlv_lib_ok :: "tlv_lib \<Rightarrow> bool" where
  "tlv_lib_ok L \<longleftrightarrow> tlv_known L \<and> tlv_unique L \<and> tlv_reads_ok L"

lemma get_string_ok:
  "tlv_lib_ok L \<Longrightarrow> get_string L d mn sz = Some s \<Longrightarrow> mn \<le> length s \<and> cstr_fits sz s"
  by (simp add: tlv_lib_ok_def tlv_reads_ok_def)

lemma get_buffer_ok:
  "tlv_lib_ok L \<Longrightarrow> get_buffer L d n n = Some b \<Longrightarrow> length b = n"
  by (simp add: tlv_lib_ok_def tlv_reads_ok_def) (meson le_antisym)

text \<open>A string reader is the only source of a bounded string.\<close>

lemma get_num_str:
  "tlv_lib_ok L \<Longrightarrow> get_string L d (Suc 0) 22 = Some s \<Longrightarrow> num_str s"
  using get_string_ok [of L d "Suc 0" 22 s] by (simp add: num_str_def)

lemma get_buffer_read:
  "tlv_lib_ok L \<Longrightarrow> get_buffer L d n n = Some b \<Longrightarrow> no_ub (read_bytes n b)"
  by (simp add: get_buffer_ok)

section \<open>Parse contexts, tables, and the run of the handlers\<close>

text \<open>Every parse context of the application starts with the set of received tags.\<close>

record tlv_ctx =
  received_tags :: "nat list"

type_synonym 'c handler = "tlv_data \<Rightarrow> 'c \<Rightarrow> 'c result"
type_synonym 'c tag_table = "(nat \<times> 'c handler \<times> unicity) list"

fun find_handler :: "'c tag_table \<Rightarrow> nat \<Rightarrow> 'c handler option" where
  "find_handler [] t = None"
| "find_handler ((t', h, u) # T) t = (if t = t' then Some h else find_handler T t)"

definition tag_names :: "'c tag_table \<Rightarrow> (nat \<times> unicity) list" where
  "tag_names T = map (\<lambda>(t, h, u). (t, u)) T"

definition unique_tag :: "'c tag_table \<Rightarrow> nat \<Rightarrow> bool" where
  "unique_tag T t \<longleftrightarrow> (t, ENFORCE_UNIQUE_TAG) \<in> set (tag_names T)"

definition mark_received :: "nat \<Rightarrow> 'a tlv_ctx_scheme \<Rightarrow> 'a tlv_ctx_scheme" where
  "mark_received t c = c\<lparr>received_tags := t # received_tags c\<rparr>"

definition no_common :: "'c handler" where
  "no_common d c = Inr c"

fun tlv_dispatch ::
  "'a tlv_ctx_scheme tag_table \<Rightarrow> 'a tlv_ctx_scheme handler \<Rightarrow> tlv_data list \<Rightarrow>
   'a tlv_ctx_scheme \<Rightarrow> 'a tlv_ctx_scheme result" where
  "tlv_dispatch T common [] c = Inr c"
| "tlv_dispatch T common (d # ds) c =
     (case find_handler T (td_tag d) of
        None \<Rightarrow> Inl Reject
      | Some h \<Rightarrow> rbind (common d c) (\<lambda>c1. rbind (h d c1) (\<lambda>c2.
          tlv_dispatch T common ds (mark_received (td_tag d) c2))))"

definition tlv_parser ::
  "tlv_lib \<Rightarrow> 'a tlv_ctx_scheme tag_table \<Rightarrow> 'a tlv_ctx_scheme handler \<Rightarrow> byte list \<Rightarrow>
   'a tlv_ctx_scheme \<Rightarrow> 'a tlv_ctx_scheme result" where
  "tlv_parser L T common p c =
     (let (ds, wellformed) = tlv_items L (tag_names T) p
      in rbind (tlv_dispatch T common ds c) (check wellformed))"

definition tlv_check_received :: "nat list \<Rightarrow> 'a tlv_ctx_scheme \<Rightarrow> bool" where
  "tlv_check_received tags c \<longleftrightarrow> list_all (\<lambda>t. t \<in> set (received_tags c)) tags"

lemma received_mark [simp]: "received_tags (mark_received t c) = t # received_tags c"
  by (simp add: mark_received_def)

lemma no_common_simp [simp]: "no_common d c = Inr c"
  by (simp add: no_common_def)

lemma tlv_check_received_simps [simp]:
  "tlv_check_received [] c"
  "tlv_check_received (t # ts) c \<longleftrightarrow> t \<in> set (received_tags c) \<and> tlv_check_received ts c"
  by (simp_all add: tlv_check_received_def)

lemma unique_tag_simps [simp]:
  "\<not> unique_tag [] t"
  "unique_tag ((t', h, u) # T) t \<longleftrightarrow> (t = t' \<and> u = ENFORCE_UNIQUE_TAG) \<or> unique_tag T t"
  by (auto simp: unique_tag_def tag_names_def)

lemma tag_names_simps [simp]:
  "tag_names [] = []" "tag_names ((t, h, u) # T) = (t, u) # tag_names T"
  by (simp_all add: tag_names_def)

lemma tlv_lib_okD: "tlv_lib_ok L \<Longrightarrow> tlv_unique L"
  by (simp add: tlv_lib_ok_def)

lemma find_handler_in: "find_handler T t = Some h \<Longrightarrow> \<exists>u. (t, h, u) \<in> set T"
  by (induction T t rule: find_handler.induct) (auto split: if_splits)

lemma tlv_dispatch_append:
  "tlv_dispatch T ch (xs @ ys) c = rbind (tlv_dispatch T ch xs c) (tlv_dispatch T ch ys)"
proof (induction xs arbitrary: c)
  case (Cons d ds)
  show ?case
  proof (cases "find_handler T (td_tag d)")
    case (Some h)
    then show ?thesis using Cons by (simp add: rbind_def split: sum.splits)
  qed simp
qed simp

text \<open>
  The whole run of a parser for given items: what a concrete payload does once the library's
  decoding of it is known.
\<close>

lemma tlv_parser_items:
  "tlv_items L (tag_names T) p = (ds, True) \<Longrightarrow>
   tlv_parser L T ch p c = tlv_dispatch T ch ds c"
  by (cases "tlv_dispatch T ch ds c") (simp_all add: tlv_parser_def)

text \<open>
  An invariant over the items handled so far, in order, holds of all of them at the end.
\<close>

lemma tlv_dispatch_trace:
  assumes step: "\<And>xs d c h c1 c2. P xs c \<Longrightarrow> find_handler T (td_tag d) = Some h \<Longrightarrow> common d c = Inr c1 \<Longrightarrow>
      h d c1 = Inr c2 \<Longrightarrow> P (xs @ [d]) (mark_received (td_tag d) c2)"
  shows "P xs c \<Longrightarrow> tlv_dispatch T common ds c = Inr c' \<Longrightarrow> P (xs @ ds) c'"
proof (induction ds arbitrary: xs c)
  case (Cons d ds)
  from Cons.prems(2) obtain h c1 c2 where h: "find_handler T (td_tag d) = Some h"
    "common d c = Inr c1" "h d c1 = Inr c2"
    and rest: "tlv_dispatch T common ds (mark_received (td_tag d) c2) = Inr c'"
    by (auto simp: rbind_Inr_conv split: option.splits)
  from Cons.IH [OF step [OF Cons.prems(1) h] rest] show ?case by simp
qed simp

lemma tlv_parser_trace:
  assumes "tlv_parser L T common p c = Inr c'" "P [] c"
    and "\<And>xs d c h c1 c2. P xs c \<Longrightarrow> find_handler T (td_tag d) = Some h \<Longrightarrow> common d c = Inr c1 \<Longrightarrow>
      h d c1 = Inr c2 \<Longrightarrow> P (xs @ [d]) (mark_received (td_tag d) c2)"
  obtains ds where "tlv_items L (tag_names T) p = (ds, True)" "P ds c'"
proof -
  from assms(1) obtain ds where items: "tlv_items L (tag_names T) p = (ds, True)"
    and run: "tlv_dispatch T common ds c = Inr c'"
    by (auto simp: tlv_parser_def rbind_Inr_conv split: prod.splits)
  from tlv_dispatch_trace [of P T common "[]" c ds c', OF assms(3) assms(2) run] items that
  show thesis by simp
qed

section \<open>The contract of a struct parser\<close>

text \<open>
  The law every table of the application obeys, for a condition \<open>G\<close> on the parameters: handlers
  leave the received tags alone, keep an invariant that ties the received tags to the fields they
  filled, and never run into undefined behaviour. A tag declared unique can be assumed not to have
  been received yet. From it follows what a finished parse guarantees.
\<close>

locale tlv_struct =
  fixes T :: "'a tlv_ctx_scheme tag_table"
    and common :: "'a tlv_ctx_scheme handler"
    and I :: "'a tlv_ctx_scheme \<Rightarrow> bool"
    and G :: bool
  assumes frame:
      "find_handler T (td_tag d) = Some h \<Longrightarrow> common d c = Inr c1 \<Longrightarrow> h d c1 = Inr c2 \<Longrightarrow>
       received_tags c2 = received_tags c"
    and step:
      "G \<Longrightarrow> I c \<Longrightarrow> find_handler T (td_tag d) = Some h \<Longrightarrow>
       (unique_tag T (td_tag d) \<Longrightarrow> td_tag d \<notin> set (received_tags c)) \<Longrightarrow>
       common d c = Inr c1 \<Longrightarrow> h d c1 = Inr c2 \<Longrightarrow> I (mark_received (td_tag d) c2)"
    and safe:
      "G \<Longrightarrow> I c \<Longrightarrow> find_handler T (td_tag d) = Some h \<Longrightarrow>
       (unique_tag T (td_tag d) \<Longrightarrow> td_tag d \<notin> set (received_tags c)) \<Longrightarrow>
       no_ub (rbind (common d c) (h d))"
begin

lemma dispatch_received:
  "tlv_dispatch T common ds c = Inr c' \<Longrightarrow>
   received_tags c' = rev (map td_tag ds) @ received_tags c"
proof (induction ds arbitrary: c)
  case (Cons d ds)
  from Cons.prems obtain h c1 c2 where h: "find_handler T (td_tag d) = Some h"
    "common d c = Inr c1" "h d c1 = Inr c2"
    "tlv_dispatch T common ds (mark_received (td_tag d) c2) = Inr c'"
    by (auto simp: rbind_Inr_conv split: option.splits)
  then show ?case using Cons.IH [OF h(4)] frame [OF h(1-3)] by simp
qed simp

lemma dispatch_spec:
  assumes "G" "I c"
    and "\<forall>d \<in> set ds. unique_tag T (td_tag d) \<longrightarrow>
           count_list (rev (map td_tag ds) @ received_tags c) (td_tag d) \<le> 1"
  shows "no_ub (tlv_dispatch T common ds c) \<and>
         (\<forall>c'. tlv_dispatch T common ds c = Inr c' \<longrightarrow> I c')"
  using assms(2,3)
proof (induction ds arbitrary: c)
  case (Cons d ds)
  show ?case
  proof (cases "find_handler T (td_tag d)")
    case (Some h)
    have "count_list (rev (map td_tag ds) @ [td_tag d] @ received_tags c) (td_tag d) \<le> 1"
      if "unique_tag T (td_tag d)"
      using Cons.prems(2) that by simp
    then have fresh: "td_tag d \<notin> set (received_tags c)" if "unique_tag T (td_tag d)"
      using that by (simp add: count_list_append count_list_0_iff)
    have ub: "no_ub (rbind (common d c) (h d))"
      using safe [OF assms(1) Cons.prems(1) Some fresh] .
    show ?thesis
    proof (cases "rbind (common d c) (h d)")
      case (Inl e)
      with ub Some show ?thesis
        by (auto simp: rbind_def no_ub_def split: sum.splits)
    next
      case (Inr c2)
      then obtain c1 where c1: "common d c = Inr c1" "h d c1 = Inr c2"
        by (auto simp: rbind_Inr_conv)
      have inv: "I (mark_received (td_tag d) c2)"
        using step [OF assms(1) Cons.prems(1) Some fresh c1] .
      have "received_tags (mark_received (td_tag d) c2) = td_tag d # received_tags c"
        using frame [OF Some c1] by simp
      then have "no_ub (tlv_dispatch T common ds (mark_received (td_tag d) c2)) \<and>
        (\<forall>c'. tlv_dispatch T common ds (mark_received (td_tag d) c2) = Inr c' \<longrightarrow> I c')"
        using Cons.prems(2) by (intro Cons.IH [OF inv]) (auto simp: count_list_append)
      then show ?thesis using Some c1 by simp
    qed
  qed simp
qed (simp add: assms)

lemma parser_spec:
  assumes "G" "tlv_unique L" "I c" "received_tags c = []"
  shows "no_ub (tlv_parser L T common p c)"
    and "tlv_parser L T common p c = Inr c' \<Longrightarrow> I c'"
proof -
  obtain ds ok where items: "tlv_items L (tag_names T) p = (ds, ok)" by fastforce
  have "count_list (map td_tag ds) t \<le> 1" if "unique_tag T t" for t
  proof -
    have "count_list (map td_tag (fst (tlv_items L (tag_names T) p))) t \<le> 1"
      using assms(2) that unfolding tlv_unique_def unique_tag_def by blast
    then show ?thesis by (simp add: items)
  qed
  then have "\<forall>d \<in> set ds. unique_tag T (td_tag d) \<longrightarrow>
          count_list (rev (map td_tag ds) @ received_tags c) (td_tag d) \<le> 1"
    using assms(4) by simp
  note spec = dispatch_spec [OF assms(1,3) this]
  from spec show "no_ub (tlv_parser L T common p c)"
    by (simp add: tlv_parser_def items no_ub_rbind)
  from spec show "I c'" if "tlv_parser L T common p c = Inr c'"
    using that by (auto simp: tlv_parser_def items rbind_Inr_conv)
qed

text \<open>Checked tags were delivered by the library, whatever else the payload holds.\<close>

lemma parser_received:
  assumes "tlv_parser L T common p c = Inr c'" "received_tags c = []" "t \<in> set (received_tags c')"
  shows "t \<in> td_tag ` set (fst (tlv_items L (tag_names T) p))"
  using assms
  by (auto simp: tlv_parser_def rbind_Inr_conv dest!: dispatch_received split: prod.splits)

end

end
