(* ===== verification/Sdk.thy ===== *)
theory Sdk
  imports Prelude
begin

text \<open>
  The SDK services the application calls for integers and cryptography, as parameters. None of them
  is part of the repository. What the application relies on is stated in \<open>bytes_ok\<close>, \<open>cx_hashes\<close> and
  \<open>cx_sizes\<close>.
\<close>

section \<open>Integers as bytes and as text\<close>

text \<open>
  \<open>read_u16_be (ptr, 0)\<close>, \<open>write_u64_be (ptr, 0, n)\<close> (the bytes written), and the strings that
  \<open>format_u64 (out, size, n)\<close> and \<open>format_fpu64_trimmed (out, size, n, decimals)\<close> leave in \<open>out\<close>.
\<close>

record byte_lib =
  read_u16_be :: "byte list \<Rightarrow> u16"
  write_u64_be :: "u64 \<Rightarrow> byte list"
  format_u64 :: "nat \<Rightarrow> u64 \<Rightarrow> string"
  format_fpu64_trimmed :: "nat \<Rightarrow> u64 \<Rightarrow> nat \<Rightarrow> string"

text \<open>The big-endian representation of a number on \<open>k\<close> bytes.\<close>

fun be_bytes :: "nat \<Rightarrow> nat \<Rightarrow> byte list" where
  "be_bytes 0 n = []"
| "be_bytes (Suc k) n = be_bytes k (n div 256) @ [word_of_nat (n mod 256)]"

text \<open>
  A text that stands for the number and fits: decimal text of a 64-bit number has at most 20
  digits, and the fixed-point text of one with at most 6 decimals at most 21 characters. Different
  numbers have different texts.
\<close>

definition bytes_ok :: "byte_lib \<Rightarrow> bool" where
  "bytes_ok B \<longleftrightarrow>
     (\<forall>bs. 2 \<le> length bs \<longrightarrow> be_bytes 2 (unat (read_u16_be B bs)) = take 2 bs) \<and>
     (\<forall>n. write_u64_be B n = be_bytes 8 (unat n)) \<and>
     (\<forall>sz n. 20 < sz \<longrightarrow> length (format_u64 B sz n) \<le> 20) \<and>
     (\<forall>sz m n. 20 < sz \<longrightarrow> format_u64 B sz m = format_u64 B sz n \<longrightarrow> m = n) \<and>
     (\<forall>sz n. 27 < sz \<longrightarrow> length (format_fpu64_trimmed B sz n 6) \<le> 21) \<and>
     (\<forall>sz m n. 27 < sz \<longrightarrow> format_fpu64_trimmed B sz m 6 = format_fpu64_trimmed B sz n 6 \<longrightarrow> m = n)"

lemma bytes_okD:
  assumes "bytes_ok B"
  shows "2 \<le> length bs \<Longrightarrow> be_bytes 2 (unat (read_u16_be B bs)) = take 2 bs"
    and "write_u64_be B n = be_bytes 8 (unat n)"
    and "20 < sz \<Longrightarrow> length (format_u64 B sz n) \<le> 20"
    and "20 < sz \<Longrightarrow> format_u64 B sz m = format_u64 B sz n \<longleftrightarrow> m = n"
    and "27 < sz \<Longrightarrow> length (format_fpu64_trimmed B sz n 6) \<le> 21"
    and "27 < sz \<Longrightarrow> format_fpu64_trimmed B sz m 6 = format_fpu64_trimmed B sz n 6 \<longleftrightarrow> m = n"
  using assms by (auto simp: bytes_ok_def)

lemma length_be_bytes [simp]: "length (be_bytes k n) = k"
  by (induction k arbitrary: n) simp_all

lemma be_bytes_0 [simp]: "be_bytes k 0 = replicate k 0"
  by (induction k) (simp_all add: replicate_append_same)

lemma be_bytes_pad: "n < 256 ^ k \<Longrightarrow> be_bytes (j + k) n = replicate j 0 @ be_bytes k n"
proof (induction k arbitrary: n)
  case (Suc k)
  have "n div 256 < 256 ^ k"
    using Suc.prems by (simp add: less_mult_imp_div_less mult.commute)
  with Suc.IH show ?case by simp
qed simp

lemma be_bytes_inject: "m < 256 ^ k \<Longrightarrow> n < 256 ^ k \<Longrightarrow> be_bytes k m = be_bytes k n \<longleftrightarrow> m = n"
proof (induction k arbitrary: m n)
  case (Suc k)
  have small: "m div 256 < 256 ^ k" "n div 256 < 256 ^ k"
    using Suc.prems by (simp_all add: less_mult_imp_div_less mult.commute)
  have "(word_of_nat (m mod 256) :: byte) = word_of_nat (n mod 256) \<longleftrightarrow> m mod 256 = n mod 256"
    by (simp add: word_of_nat_eq_iff take_bit_eq_mod)
  moreover have "m = n \<longleftrightarrow> m div 256 = n div 256 \<and> m mod 256 = n mod 256"
    by (metis div_mod_decomp)
  ultimately show ?case using Suc.IH [OF small] by simp
qed simp

lemma u64_be_pad: "be_bytes 32 (unat (n :: u64)) = replicate 24 0 @ be_bytes 8 (unat n)"
proof -
  have "unat n < 256 ^ 8" using unsigned_less [of n] by simp
  then show ?thesis using be_bytes_pad [of "unat n" 8 24] by simp
qed

lemma u64_be_inject: "be_bytes 8 (unat (m :: u64)) = be_bytes 8 (unat n) \<longleftrightarrow> m = n"
  using unsigned_less [of m] unsigned_less [of n]
  by (subst be_bytes_inject) (simp_all add: word_unat_eq_iff)

section \<open>Cryptography\<close>

text \<open>
  Hash contexts are values of a type \<open>'h\<close>; \<open>None\<close> stands for a return code other than \<open>CX_OK\<close>.
  The public key of a path is the 65-byte raw key; a signature comes with its \<open>info\<close> word.
\<close>

record 'h cx_lib =
  cx_keccak_init :: "'h option"
  cx_sha256_init :: "'h option"
  cx_hash_update :: "'h \<Rightarrow> byte list \<Rightarrow> 'h option"
  cx_hash_final :: "'h \<Rightarrow> byte list option"
  cx_keccak_256_hash :: "byte list \<Rightarrow> byte list option"
  bip32_derive_pubkey :: "u32 list \<Rightarrow> byte list option"
  bip32_ecdsa_sign :: "u32 list \<Rightarrow> byte list \<Rightarrow> (byte list \<times> byte list \<times> u32) option"
  cx_parity_odd :: u32
  cx_xGTn :: u32
  check_signature_with_pki :: "byte list \<Rightarrow> u8 \<Rightarrow> byte list \<Rightarrow> bool"

text \<open>
  \<open>cx_hashes X K S\<close>: what the hash functions deliver, when they deliver, is the Keccak-256 \<open>K\<close> or the
  SHA-256 \<open>S\<close> of everything fed to the context since its initialisation.
\<close>

datatype hash_kind = Keccak | Sha256

definition absorbs :: "'h cx_lib \<Rightarrow> (byte list \<Rightarrow> byte list) \<Rightarrow> (byte list \<Rightarrow> byte list) \<Rightarrow>
    ('h \<Rightarrow> hash_kind \<times> byte list) \<Rightarrow> bool" where
  "absorbs X K S absorbed \<longleftrightarrow>
     (\<forall>h. cx_keccak_init X = Some h \<longrightarrow> absorbed h = (Keccak, [])) \<and>
     (\<forall>h. cx_sha256_init X = Some h \<longrightarrow> absorbed h = (Sha256, [])) \<and>
     (\<forall>h d h'. cx_hash_update X h d = Some h' \<longrightarrow>
        absorbed h' = (fst (absorbed h), snd (absorbed h) @ d)) \<and>
     (\<forall>h out. cx_hash_final X h = Some out \<longrightarrow>
        out = (case absorbed h of (Keccak, d) \<Rightarrow> K d | (Sha256, d) \<Rightarrow> S d)) \<and>
     (\<forall>d out. cx_keccak_256_hash X d = Some out \<longrightarrow> out = K d)"

definition cx_hashes ::
  "'h cx_lib \<Rightarrow> (byte list \<Rightarrow> byte list) \<Rightarrow> (byte list \<Rightarrow> byte list) \<Rightarrow> bool" where
  "cx_hashes X K S \<longleftrightarrow> (\<exists>absorbed. absorbs X K S absorbed)"

text \<open>The sizes of what the functions write into their fixed output buffers.\<close>

definition cx_sizes :: "'h cx_lib \<Rightarrow> bool" where
  "cx_sizes X \<longleftrightarrow>
     (\<forall>h out. cx_hash_final X h = Some out \<longrightarrow> length out = 32) \<and>
     (\<forall>d out. cx_keccak_256_hash X d = Some out \<longrightarrow> length out = 32) \<and>
     (\<forall>p pk. bip32_derive_pubkey X p = Some pk \<longrightarrow> length pk = 65) \<and>
     (\<forall>p m r s i. bip32_ecdsa_sign X p m = Some (r, s, i) \<longrightarrow> length r = 32 \<and> length s = 32)"

end
