(* ===== verification/Tlv_Encoding.thy ===== *)
theory Tlv_Encoding
  imports Tlv Sdk
begin

text \<open>
  The encoding of TLV payloads, as the client side of the repository has it
  (\<open>unit-tests/tlv_helpers.h\<close>), and a decoder for that encoding that meets the contract \<open>tlv_lib_ok\<close>. The
  decoder stands in for the SDK's library where a concrete one is needed; it reads back what the
  helpers write.

  A function of the helpers that writes to \<open>buf\<close> at \<open>*offset\<close> is modelled by the bytes it writes; the
  number of bytes is their count.
\<close>

section \<open>The helpers\<close>

definition der_encode :: "u32 \<Rightarrow> byte list" where
  "der_encode value =
     (if value < 0x80 then [ucast value]
      else if value \<le> 0xFF then [0x81, ucast value]
      else if value \<le> 0xFFFF then [0x82, ucast (drop_bit 8 value), ucast value]
      else [0x83, ucast (drop_bit 16 value), ucast (drop_bit 8 value), ucast value])"

text \<open>The loop that skips leading zero bytes, down to the last byte.\<close>

fun skip_zeros :: "byte list \<Rightarrow> byte list" where
  "skip_zeros (b # c # bs) = (if b = 0 then skip_zeros (c # bs) else b # c # bs)"
| "skip_zeros bs = bs"

definition int64_bytes :: "u64 \<Rightarrow> byte list" where
  "int64_bytes v = map (\<lambda>k. ucast (drop_bit k v)) [56, 48, 40, 32, 24, 16, 8, 0]"

definition encode_int_be :: "u64 \<Rightarrow> byte list" where
  "encode_int_be value = skip_zeros (int64_bytes value)"

definition tlv_append_field :: "byte list \<Rightarrow> u32 \<Rightarrow> byte list \<Rightarrow> byte list" where
  "tlv_append_field buf tag value = buf @ der_encode tag @ der_encode (word_of_nat (length value)) @ value"

definition tlv_append_uint :: "byte list \<Rightarrow> u32 \<Rightarrow> u64 \<Rightarrow> byte list" where
  "tlv_append_uint buf tag value = tlv_append_field buf tag (encode_int_be value)"

definition tlv_append_bool :: "byte list \<Rightarrow> u32 \<Rightarrow> bool \<Rightarrow> byte list" where
  "tlv_append_bool buf tag value = tlv_append_field buf tag [if value then 1 else 0]"

definition tlv_append_str :: "byte list \<Rightarrow> u32 \<Rightarrow> string \<Rightarrow> byte list" where
  "tlv_append_str buf tag str = tlv_append_field buf tag (bytes_of str)"

definition tlv_append_bytes :: "byte list \<Rightarrow> u32 \<Rightarrow> byte list \<Rightarrow> byte list" where
  "tlv_append_bytes buf tag bs = tlv_append_field buf tag bs"

definition tlv_append_int64_be :: "byte list \<Rightarrow> u32 \<Rightarrow> u64 \<Rightarrow> byte list" where
  "tlv_append_int64_be buf tag value = tlv_append_field buf tag (int64_bytes value)"

section \<open>A decoder\<close>

definition be_value :: "byte list \<Rightarrow> nat" where
  "be_value bs = foldl (\<lambda>n b. n * 256 + unat b) 0 bs"

fun der_decode :: "byte list \<Rightarrow> (nat \<times> byte list) option" where
  "der_decode [] = None"
| "der_decode (b # bs) =
     (if unat b < 128 then Some (unat b, bs)
      else let k = unat b - 128 in
           if k = 0 \<or> 4 < k \<or> length bs < k then None else Some (be_value (take k bs), drop k bs))"

fun tlv_split :: "nat \<Rightarrow> byte list \<Rightarrow> tlv_data list \<times> bool" where
  "tlv_split n [] = ([], True)"
| "tlv_split 0 (b # bs) = ([], False)"
| "tlv_split (Suc n) (b # bs) =
     (case der_decode (b # bs) of
        None \<Rightarrow> ([], False)
      | Some (tag, p1) \<Rightarrow>
          (case der_decode p1 of
             None \<Rightarrow> ([], False)
           | Some (len, p2) \<Rightarrow>
               if length p2 < len then ([], False)
               else case tlv_split n (drop len p2) of
                      (ds, ok) \<Rightarrow>
                        (\<lparr>td_tag = tag, td_value = take len p2,
                          td_raw = take (length (b # bs) - length (drop len p2)) (b # bs)\<rparr> # ds, ok)))"

text \<open>An unknown tag and a second occurrence of a unique tag end the parse.\<close>

fun tlv_admit :: "(nat \<times> unicity) list \<Rightarrow> nat list \<Rightarrow> tlv_data list \<Rightarrow> tlv_data list \<times> bool" where
  "tlv_admit T seen [] = ([], True)"
| "tlv_admit T seen (d # ds) =
     (if td_tag d \<notin> fst ` set T \<or> ((td_tag d, ENFORCE_UNIQUE_TAG) \<in> set T \<and> td_tag d \<in> set seen) then ([], False)
      else case tlv_admit T (td_tag d # seen) ds of (es, ok) \<Rightarrow> (d # es, ok))"

definition der_items :: "(nat \<times> unicity) list \<Rightarrow> byte list \<Rightarrow> tlv_data list \<times> bool" where
  "der_items T p = (case tlv_split (length p) p of
     (ds, ok) \<Rightarrow> (case tlv_admit T [] ds of (es, ok') \<Rightarrow> (es, ok \<and> ok')))"

definition read_uint :: "nat \<Rightarrow> byte list \<Rightarrow> nat option" where
  "read_uint n v = (if v = [] \<or> n < length v then None else Some (be_value v))"

definition der_tlv :: tlv_lib where
  "der_tlv = \<lparr>tlv_items = der_items,
     get_uint8 = (\<lambda>d. map_option word_of_nat (read_uint 1 (td_value d))),
     get_uint32 = (\<lambda>d. map_option word_of_nat (read_uint 4 (td_value d))),
     get_uint64 = (\<lambda>d. map_option word_of_nat (read_uint 8 (td_value d))),
     get_bool = (\<lambda>d. if td_value d = [0] then Some False else if td_value d = [1] then Some True else None),
     get_string = (\<lambda>d mn sz. let s = map char_of_byte (td_value d) in
        if mn \<le> length s \<and> length s < sz \<and> CHR 0x00 \<notin> set s then Some s else None),
     get_buffer = (\<lambda>d mn mx. if mn \<le> length (td_value d) \<and> length (td_value d) \<le> mx then Some (td_value d) else None)\<rparr>"

section \<open>The decoder meets the contract\<close>

lemma tlv_admit_known: "d \<in> set (fst (tlv_admit T seen ds)) \<Longrightarrow> td_tag d \<in> fst ` set T"
  by (induction T seen ds rule: tlv_admit.induct) (auto split: prod.splits if_splits)

lemma tlv_admit_unique:
  "(t, ENFORCE_UNIQUE_TAG) \<in> set T \<Longrightarrow>
   count_list (map td_tag (fst (tlv_admit T seen ds))) t \<le> (if t \<in> set seen then 0 else 1)"
proof (induction T seen ds rule: tlv_admit.induct)
  case (2 T seen d ds)
  then show ?case by (auto split: prod.splits if_splits) force+
qed simp

lemma tlv_items_der:
  "fst (tlv_items der_tlv T p) = fst (tlv_admit T [] (fst (tlv_split (length p) p)))"
  by (simp add: der_tlv_def der_items_def split: prod.splits)

lemma der_tlv_ok: "tlv_lib_ok der_tlv"
proof -
  have "tlv_known der_tlv"
    unfolding tlv_known_def tlv_items_der by (intro allI ballI) (rule tlv_admit_known)
  moreover have "tlv_unique der_tlv"
    unfolding tlv_unique_def tlv_items_der
  proof (intro allI impI)
    fix T :: "(nat \<times> unicity) list" and p t assume t: "(t, ENFORCE_UNIQUE_TAG) \<in> set T"
    show "count_list (map td_tag (fst (tlv_admit T [] (fst (tlv_split (length p) p))))) t \<le> 1"
      using tlv_admit_unique [OF t, of "[]" "fst (tlv_split (length p) p)"] by simp
  qed
  moreover have "tlv_reads_ok der_tlv"
    by (auto simp: tlv_reads_ok_def der_tlv_def cstr_fits_def Let_def split: if_splits)
  ultimately show ?thesis by (simp add: tlv_lib_ok_def)
qed

section \<open>The decoder reads back what the helpers write\<close>

lemma unat_byte_at: "unat (ucast (drop_bit k (w :: 'a::len word)) :: byte) = unat w div 2 ^ k mod 256"
proof -
  have "unat (drop_bit k w) = unat w div 2 ^ k"
    by (simp only: unat_drop_bit_eq drop_bit_eq_div [where 'a = nat])
  then show ?thesis by (simp add: unsigned_ucast_eq take_bit_eq_mod)
qed

lemma unat_byte: "unat (ucast (w :: 'a::len word) :: byte) = unat w mod 256"
  using unat_byte_at [of 0 w] by simp

lemma be_step: "(n :: nat) div (256 * k) * 256 + n div k mod 256 = n div k"
  by (metis div_mult2_eq div_mult_mod_eq mult.commute)

lemma be_value_int64: "be_value (int64_bytes v) = unat v"
proof -
  have top: "unat v div 72057594037927936 mod 256 = unat v div 72057594037927936"
    using unsigned_less [of v, where 'a = nat] by simp
  show ?thesis
    unfolding be_value_def int64_bytes_def
    using be_step [of "unat v" 281474976710656] be_step [of "unat v" 1099511627776]
      be_step [of "unat v" 4294967296] be_step [of "unat v" 16777216]
      be_step [of "unat v" 65536] be_step [of "unat v" 256] be_step [of "unat v" 1]
    by (simp add: unat_byte_at unat_byte [of v] top)
qed

lemma be_value_skip: "be_value (skip_zeros bs) = be_value bs"
  by (induction bs rule: skip_zeros.induct) (auto simp: be_value_def)

lemma skip_zeros_length: "length (skip_zeros bs) \<le> length bs" "skip_zeros bs = [] \<longleftrightarrow> bs = []"
  by (induction bs rule: skip_zeros.induct) auto

lemma skip_zeros_minimal: "skip_zeros bs = b # c # cs \<Longrightarrow> b \<noteq> 0"
  by (induction bs rule: skip_zeros.induct) (auto split: if_splits)

lemma encode_int_be_length: "length (encode_int_be v) \<le> 8" "encode_int_be v \<noteq> []"
  using skip_zeros_length [of "int64_bytes v"] by (simp_all add: encode_int_be_def int64_bytes_def)

lemma get_uint64_encode:
  "td_value d = encode_int_be v \<Longrightarrow> get_uint64 der_tlv d = Some v"
  using encode_int_be_length [of v]
  by (simp add: der_tlv_def read_uint_def)
    (simp add: encode_int_be_def be_value_skip be_value_int64)

lemma der_decode_encode:
  assumes "unat v < 2 ^ 24"
  shows "der_decode (der_encode v @ rest) = Some (unat v, rest)"
proof -
  have n: "unat v < 16777216" using assms by simp
  have lt: "v < 0x80 \<longleftrightarrow> unat v < 128" "v \<le> 0xFF \<longleftrightarrow> unat v < 256" "v \<le> 0xFFFF \<longleftrightarrow> unat v < 65536"
    by (auto simp: word_less_nat_alt word_le_nat_alt)
  consider "unat v < 128" | "128 \<le> unat v" "unat v < 256" | "256 \<le> unat v" "unat v < 65536"
    | "65536 \<le> unat v" by linarith
  then show ?thesis
  proof cases
    case 3
    then show ?thesis
      using be_step [of "unat v" 1]
      by (simp add: der_encode_def lt be_value_def unat_byte_at unat_byte [of v] Let_def)
  next
    case 4
    then show ?thesis
      using n be_step [of "unat v" 256] be_step [of "unat v" 1]
      by (simp add: der_encode_def lt be_value_def unat_byte_at unat_byte [of v] Let_def)
  qed (simp_all add: der_encode_def lt be_value_def unat_byte Let_def)
qed

text \<open>A payload: its fields appended one after the other.\<close>

definition tlv_fields :: "(u32 \<times> byte list) list \<Rightarrow> byte list" where
  "tlv_fields fs = foldl (\<lambda>buf (t, v). tlv_append_field buf t v) [] fs"

definition field_bytes :: "u32 \<times> byte list \<Rightarrow> byte list" where
  "field_bytes f = tlv_append_field [] (fst f) (snd f)"

definition field_ok :: "u32 \<times> byte list \<Rightarrow> bool" where
  "field_ok f \<longleftrightarrow> unat (fst f) < 2 ^ 24 \<and> length (snd f) < 2 ^ 24"

definition field_item :: "u32 \<times> byte list \<Rightarrow> tlv_data" where
  "field_item f = \<lparr>td_tag = unat (fst f), td_value = snd f, td_raw = field_bytes f\<rparr>"

lemma tlv_fields_concat: "tlv_fields fs = concat (map field_bytes fs)"
proof -
  have "foldl (\<lambda>buf (t, v). tlv_append_field buf t v) buf fs = buf @ concat (map field_bytes fs)" for buf
    by (induction fs arbitrary: buf) (auto simp: field_bytes_def tlv_append_field_def)
  then show ?thesis by (simp add: tlv_fields_def)
qed

lemma der_encode_not_Nil [simp]: "der_encode v \<noteq> []"
  by (simp add: der_encode_def)

lemma tlv_split_field:
  assumes "field_ok f" "0 < n"
  shows "tlv_split n (field_bytes f @ rest) =
    (case tlv_split (n - 1) rest of (ds, ok) \<Rightarrow> (field_item f # ds, ok))"
proof -
  obtain t v where f: "f = (t, v)" by (cases f)
  have len: "unat (word_of_nat (length v) :: u32) = length v"
    using assms by (simp add: field_ok_def f unat_of_nat take_bit_eq_mod)
  let ?L = "der_encode (word_of_nat (length v) :: u32)"
  have all: "field_bytes f @ rest = der_encode t @ ?L @ v @ rest"
    by (simp add: field_bytes_def tlv_append_field_def f)
  obtain b bs where b: "field_bytes f @ rest = b # bs"
    by (cases "field_bytes f @ rest") (simp_all add: all)
  have d1: "der_decode (b # bs) = Some (unat t, ?L @ v @ rest)"
    using der_decode_encode [of t "?L @ v @ rest"] assms unfolding b [symmetric] all
    by (simp add: field_ok_def f)
  have d2: "der_decode (?L @ v @ rest) = Some (length v, v @ rest)"
    using der_decode_encode [of "word_of_nat (length v)" "v @ rest"] assms by (simp add: field_ok_def f len)
  obtain m where m: "n = Suc m" using assms by (cases n) auto
  have raw: "take (length (b # bs) - length rest) (b # bs) = field_bytes f"
    by (simp flip: b)
  show ?thesis
    unfolding b m tlv_split.simps d1 option.case prod.case d2
    using raw by (simp add: field_item_def f)
qed

lemma field_bytes_length: "0 < length (field_bytes f)"
  by (simp add: field_bytes_def tlv_append_field_def)

lemma tlv_split_fields:
  "list_all field_ok fs \<Longrightarrow> length fs \<le> n \<Longrightarrow> tlv_split n (concat (map field_bytes fs)) = (map field_item fs, True)"
proof (induction fs arbitrary: n)
  case (Cons f fs)
  then show ?case by (simp add: tlv_split_field)
qed simp

lemma fields_length: "length fs \<le> length (concat (map field_bytes fs))"
proof (induction fs)
  case (Cons f fs)
  then show ?case using field_bytes_length [of f] by (simp del: length_greater_0_conv)
qed simp

text \<open>Fields a table admits: known tags, and a tag declared unique at most once.\<close>

definition fields_ok :: "(nat \<times> unicity) list \<Rightarrow> (u32 \<times> byte list) list \<Rightarrow> bool" where
  "fields_ok T fs \<longleftrightarrow> list_all field_ok fs \<and> list_all (\<lambda>f. unat (fst f) \<in> fst ` set T) fs \<and>
     list_all (\<lambda>(t, u). u = ENFORCE_UNIQUE_TAG \<longrightarrow> count_list (map (\<lambda>f. unat (fst f)) fs) t \<le> 1) T"

lemma tlv_admit_all:
  assumes "\<forall>d \<in> set ds. td_tag d \<in> fst ` set T"
    "\<forall>t. (t, ENFORCE_UNIQUE_TAG) \<in> set T \<longrightarrow> count_list (seen @ map td_tag ds) t \<le> 1"
  shows "tlv_admit T seen ds = (ds, True)"
  using assms
proof (induction T seen ds rule: tlv_admit.induct)
  case (2 T seen d ds)
  have fresh: "td_tag d \<notin> set seen" if "(td_tag d, ENFORCE_UNIQUE_TAG) \<in> set T"
  proof -
    have "count_list (seen @ map td_tag (d # ds)) (td_tag d) \<le> 1" using 2(3) that by blast
    then show ?thesis by (simp add: count_list_append count_list_0_iff)
  qed
  have "\<forall>t. (t, ENFORCE_UNIQUE_TAG) \<in> set T \<longrightarrow> count_list ((td_tag d # seen) @ map td_tag ds) t \<le> 1"
    using 2(3) by (auto simp: count_list_append)
  with 2(1) 2(2) fresh have "tlv_admit T (td_tag d # seen) ds = (ds, True)" by auto
  with 2(2) fresh show ?case by auto
qed simp

lemma der_items_fields:
  assumes "fields_ok T fs"
  shows "tlv_items der_tlv T (tlv_fields fs) = (map field_item fs, True)"
proof -
  have tags: "map td_tag (map field_item fs) = map (\<lambda>f. unat (fst f)) fs" by (simp add: field_item_def comp_def)
  have "tlv_admit T [] (map field_item fs) = (map field_item fs, True)"
  proof (rule tlv_admit_all)
    show "\<forall>d \<in> set (map field_item fs). td_tag d \<in> fst ` set T"
      using assms by (auto simp: fields_ok_def list_all_iff field_item_def)
    show "\<forall>t. (t, ENFORCE_UNIQUE_TAG) \<in> set T \<longrightarrow> count_list ([] @ map td_tag (map field_item fs)) t \<le> 1"
      using assms unfolding tags fields_ok_def list_all_iff by auto
  qed
  then show ?thesis
    using tlv_split_fields [OF _ fields_length, of fs] assms
    by (simp add: der_tlv_def der_items_def tlv_fields_concat fields_ok_def)
qed

text \<open>So a parser of the application sees exactly the fields, in order.\<close>

lemma tlv_parser_fields:
  "fields_ok (tag_names T) fs \<Longrightarrow> tlv_parser der_tlv T ch (tlv_fields fs) c = tlv_dispatch T ch (map field_item fs) c"
  using tlv_parser_items [OF der_items_fields] by blast

lemma field_bytes_bound: "length (field_bytes f) \<le> 8 + length (snd f)"
  by (simp add: field_bytes_def tlv_append_field_def der_encode_def)

lemma tlv_fields_bound: "length (tlv_fields fs) \<le> sum_list (map (\<lambda>f. 8 + length (snd f)) fs)"
  unfolding tlv_fields_concat length_concat
  by (simp add: comp_def) (intro sum_list_mono field_bytes_bound)

lemma be_value_foldl: "foldl (\<lambda>n b. n * 256 + unat (b :: byte)) m bs = m * 256 ^ length bs + be_value bs"
proof (induction bs arbitrary: m)
  case (Cons b bs)
  from Cons [of "m * 256 + unat b"] Cons [of "unat b"] show ?case
    by (simp add: be_value_def add_mult_distrib mult.assoc)
qed (simp add: be_value_def)

lemma be_value_Cons: "be_value (b # bs) = unat b * 256 ^ length bs + be_value bs"
  using be_value_foldl [of "unat b" bs] by (simp add: be_value_def)

text \<open>A minimal encoding is as short as its value allows.\<close>

lemma encode_int_be_short:
  assumes "unat v < 256 ^ k" "0 < k"
  shows "length (encode_int_be v) \<le> k"
proof (cases "encode_int_be v" rule: skip_zeros.cases)
  case (1 b c bs)
  then have nz: "b \<noteq> 0" using skip_zeros_minimal by (simp add: encode_int_be_def)
  have "unat v = be_value (b # c # bs)"
    using 1 by (metis encode_int_be_def be_value_skip be_value_int64)
  then have "256 ^ length (c # bs) \<le> unat v"
    using nz unfolding be_value_Cons [of b] by (metis One_nat_def Suc_leI mult_1 mult_le_mono1 trans_le_add1 unat_gt_0)
  then have "(256 :: nat) ^ length (c # bs) < 256 ^ k" using assms(1) by (rule le_less_trans)
  then have "length (c # bs) < k" by (rule power_less_imp_less_exp [rotated]) simp
  then show ?thesis using 1 by simp
qed (use assms in auto)

text \<open>The readers on the values of the typed helpers.\<close>

lemma get_bool_append:
  "td_value d = [if b then 1 else 0] \<Longrightarrow> get_bool der_tlv d = Some b"
  by (simp add: der_tlv_def)

lemma get_string_append:
  assumes "td_value d = bytes_of s" "mn \<le> length s" "cstr_fits sz s"
  shows "get_string der_tlv d mn sz = Some s"
  using assms by (simp add: der_tlv_def Let_def bytes_of_def comp_def cstr_fits_def del: set_map)

lemma get_buffer_append:
  "td_value d = b \<Longrightarrow> mn \<le> length b \<Longrightarrow> length b \<le> mx \<Longrightarrow> get_buffer der_tlv d mn mx = Some b"
  by (simp add: der_tlv_def)

lemma read_uint_encode:
  assumes "unat v < 256 ^ k" "0 < k"
  shows "read_uint k (encode_int_be v) = Some (unat v)"
  using encode_int_be_short [OF assms] encode_int_be_length(2) [of v]
  by (simp add: read_uint_def) (simp add: encode_int_be_def be_value_skip be_value_int64)

lemma get_uint32_encode:
  assumes "td_value d = encode_int_be (ucast (a :: u32))"
  shows "get_uint32 der_tlv d = Some a"
proof -
  have "unat (ucast a :: u64) = unat a"
    using unsigned_less [of a, where 'a = nat] by (simp add: unsigned_ucast_eq take_bit_eq_mod)
  moreover have "unat a < 256 ^ 4" using unsigned_less [of a, where 'a = nat] by simp
  ultimately show ?thesis using assms read_uint_encode [of "ucast a" 4] by (simp add: der_tlv_def)
qed

lemma get_uint8_encode:
  assumes "td_value d = encode_int_be (ucast (b :: u8))"
  shows "get_uint8 der_tlv d = Some b"
proof -
  have "unat (ucast b :: u64) = unat b"
    using unsigned_less [of b, where 'a = nat] by (simp add: unsigned_ucast_eq take_bit_eq_mod)
  moreover have "unat b < 256 ^ 1" using unsigned_less [of b, where 'a = nat] by simp
  ultimately show ?thesis using assms read_uint_encode [of "ucast b" 1] by (simp add: der_tlv_def)
qed

lemma get_uint64_full: "td_value d = int64_bytes v \<Longrightarrow> get_uint64 der_tlv d = Some v"
  by (simp add: der_tlv_def read_uint_def be_value_int64) (simp add: int64_bytes_def)

lemma be_value_less: "be_value bs < 256 ^ length bs"
proof (induction bs rule: rev_induct)
  case (snoc b bs)
  have "unat b < 256" using unsigned_less [of b, where 'a = nat] by simp
  with snoc show ?case by (simp add: be_value_def)
qed (simp add: be_value_def)

text \<open>The encoding of an integer is the shortest one.\<close>

lemma integer_encoding_is_minimal:
  "be_value (encode_int_be v) = unat v \<and> encode_int_be v \<noteq> [] \<and>
   (\<forall>bs. bs \<noteq> [] \<longrightarrow> be_value bs = unat v \<longrightarrow> length (encode_int_be v) \<le> length bs)"
proof -
  have val: "be_value (encode_int_be v) = unat v" by (simp add: encode_int_be_def be_value_skip be_value_int64)
  have "length (encode_int_be v) \<le> length bs" if "bs \<noteq> []" "be_value bs = unat v" for bs
    using encode_int_be_short [of v "length bs"] be_value_less [of bs] that by simp
  with val encode_int_be_length(2) show ?thesis by blast
qed

lemmas helper_readers = get_uint8_encode get_uint32_encode get_uint64_encode get_uint64_full
  get_bool_append get_string_append get_buffer_append

end
