(* ===== verification/Msgpack_Writer.thy ===== *)
theory Msgpack_Writer
  imports Prelude
begin

text \<open>
  Writing MessagePack into the scratch buffer of \<open>compute_connection_id\<close>.

  The encoder (\<open>cmp\<close>, a git submodule) is the parameter \<open>cmp_lib\<close>: for each value, the blocks it
  hands to its write callback, in order; it returns \<open>true\<close> when every callback wrote its whole
  block. The callback itself, \<open>ser_writer\<close>, belongs to the application and is modelled. On top: a
  datatype of MessagePack values, their byte encoding for a given encoder, and the contract
  \<open>serializer\<close> that relates a serializing function of the code to the value it writes.
\<close>

section \<open>The buffer and the write callback\<close>

record buffer_t =
  buf_ptr :: "byte list"
  buf_size :: nat
  buf_offset :: nat

text \<open>\<open>cmp_ctx_t\<close> as far as the application uses it: its \<open>buf\<close> pointer.\<close>

type_synonym cmp_ctx = "buffer_t option"

fun ser_writer :: "cmp_ctx \<Rightarrow> byte list \<Rightarrow> nat \<times> cmp_ctx" where
  "ser_writer None data = (0, None)"
| "ser_writer (Some b) data =
     (if buf_offset b + length data > buf_size b then (0, Some b)
      else (length data,
            Some (b\<lparr>buf_ptr := memcpy_at (buf_ptr b) (buf_offset b) data,
                    buf_offset := buf_offset b + length data\<rparr>)))"

record cmp_lib =
  cmp_str :: "byte list \<Rightarrow> byte list list"
  cmp_bool :: "bool \<Rightarrow> byte list list"
  cmp_uint :: "u64 \<Rightarrow> byte list list"
  cmp_int :: "u64 \<Rightarrow> byte list list"
  cmp_array :: "nat \<Rightarrow> byte list list"
  cmp_map :: "nat \<Rightarrow> byte list list"

fun cmp_emit :: "byte list list \<Rightarrow> cmp_ctx \<Rightarrow> bool \<times> cmp_ctx" where
  "cmp_emit [] c = (True, c)"
| "cmp_emit (x # xs) c =
     (case ser_writer c x of (n, c') \<Rightarrow> if n = length x then cmp_emit xs c' else (False, c'))"

type_synonym ser = "cmp_ctx \<Rightarrow> bool \<times> cmp_ctx"

definition cmp_write_str :: "cmp_lib \<Rightarrow> string \<Rightarrow> nat \<Rightarrow> ser" where
  "cmp_write_str C s n = cmp_emit (cmp_str C (take n (bytes_of s)))"

definition cmp_write_bool :: "cmp_lib \<Rightarrow> bool \<Rightarrow> ser" where
  "cmp_write_bool C b = cmp_emit (cmp_bool C b)"

definition cmp_write_uinteger :: "cmp_lib \<Rightarrow> u64 \<Rightarrow> ser" where
  "cmp_write_uinteger C n = cmp_emit (cmp_uint C n)"

definition cmp_write_integer :: "cmp_lib \<Rightarrow> u64 \<Rightarrow> ser" where
  "cmp_write_integer C n = cmp_emit (cmp_int C n)"

definition cmp_write_array :: "cmp_lib \<Rightarrow> nat \<Rightarrow> ser" where
  "cmp_write_array C n = cmp_emit (cmp_array C n)"

definition cmp_write_map :: "cmp_lib \<Rightarrow> nat \<Rightarrow> ser" where
  "cmp_write_map C n = cmp_emit (cmp_map C n)"

text \<open>The code's \<open>if (!write (\<dots>)) return false;\<close> sequences and its counted loops.\<close>

fun ser_seq :: "ser list \<Rightarrow> ser" where
  "ser_seq [] c = (True, c)"
| "ser_seq (f # fs) c = (case f c of (ok, c') \<Rightarrow> if ok then ser_seq fs c' else (False, c'))"

definition ser_for :: "nat \<Rightarrow> (nat \<Rightarrow> ser) \<Rightarrow> ser" where
  "ser_for n f = ser_seq (map f [0..<n])"

definition ser_skip :: ser where
  "ser_skip c = (True, c)"

section \<open>What a write sequence leaves in the buffer\<close>

definition buf_wf :: "buffer_t \<Rightarrow> bool" where
  "buf_wf b \<longleftrightarrow> buf_offset b \<le> buf_size b \<and> length (buf_ptr b) = buf_size b"

definition put :: "byte list \<Rightarrow> buffer_t \<Rightarrow> buffer_t" where
  "put bs b = b\<lparr>buf_ptr := memcpy_at (buf_ptr b) (buf_offset b) bs,
               buf_offset := buf_offset b + length bs\<rparr>"

definition written :: "buffer_t \<Rightarrow> byte list" where
  "written b = take (buf_offset b) (buf_ptr b)"

definition writes :: "ser \<Rightarrow> byte list \<Rightarrow> bool" where
  "writes f bs \<longleftrightarrow> (\<forall>b. buf_wf b \<longrightarrow>
     (if buf_offset b + length bs \<le> buf_size b then f (Some b) = (True, Some (put bs b))
      else \<not> fst (f (Some b))))"

lemma buf_wf_put: "buf_wf b \<Longrightarrow> buf_offset b + length bs \<le> buf_size b \<Longrightarrow> buf_wf (put bs b)"
  by (simp add: buf_wf_def put_def)

lemma put_fields [simp]:
  "buf_size (put bs b) = buf_size b" "buf_offset (put bs b) = buf_offset b + length bs"
  by (simp_all add: put_def)

lemma written_put:
  "buf_wf b \<Longrightarrow> buf_offset b + length bs \<le> buf_size b \<Longrightarrow> written (put bs b) = written b @ bs"
  by (simp add: written_def put_def buf_wf_def memcpy_at_def)

lemma put_Nil [simp]: "buf_wf b \<Longrightarrow> put [] b = b"
  by (simp add: put_def memcpy_at_def)

lemma put_append:
  "buf_wf b \<Longrightarrow> buf_offset b + length (xs @ ys) \<le> buf_size b \<Longrightarrow> put ys (put xs b) = put (xs @ ys) b"
  by (simp add: put_def memcpy_at_def buf_wf_def ac_simps)

lemma writes_then:
  assumes f: "writes f xs" and g: "writes g ys"
  shows "writes (\<lambda>c. case f c of (ok, c') \<Rightarrow> if ok then g c' else (False, c')) (xs @ ys)"
  unfolding writes_def
proof (intro allI impI)
  fix b assume wf: "buf_wf b"
  show "if buf_offset b + length (xs @ ys) \<le> buf_size b
        then (case f (Some b) of (ok, c') \<Rightarrow> if ok then g c' else (False, c'))
             = (True, Some (put (xs @ ys) b))
        else \<not> fst (case f (Some b) of (ok, c') \<Rightarrow> if ok then g c' else (False, c'))"
  proof (cases "buf_offset b + length xs \<le> buf_size b")
    case True
    then have fb: "f (Some b) = (True, Some (put xs b))"
      using f wf by (simp add: writes_def)
    have "buf_wf (put xs b)" using wf True by (rule buf_wf_put)
    then show ?thesis
      using g wf put_append [OF wf, of xs ys] by (auto simp: fb writes_def add.assoc)
  next
    case False
    then have "\<not> fst (f (Some b))"
      using f wf by (simp add: writes_def)
    then show ?thesis using False by (auto split: prod.splits)
  qed
qed

named_theorems writes_intros \<open>introduction rules for what a serializer writes\<close>

lemma writes_seq_Nil [writes_intros]: "writes (ser_seq []) []"
  by (auto simp: writes_def buf_wf_def)

lemma writes_seq_Cons [writes_intros]:
  "writes f xs \<Longrightarrow> writes (ser_seq fs) ys \<Longrightarrow> writes (ser_seq (f # fs)) (xs @ ys)"
proof -
  assume "writes f xs" "writes (ser_seq fs) ys"
  from writes_then [OF this] show ?thesis by (simp add: writes_def)
qed

lemma writes_skip [writes_intros]: "writes ser_skip []"
  by (auto simp: writes_def ser_skip_def buf_wf_def)

lemma writes_block: "writes (\<lambda>c. case ser_writer c x of (n, c') \<Rightarrow> (n = length x, c')) x"
  by (auto simp: writes_def put_def buf_wf_def)

lemma writes_emit: "writes (cmp_emit xs) (concat xs)"
proof (induction xs)
  case Nil
  then show ?case by (auto simp: writes_def buf_wf_def)
next
  case (Cons x xs)
  from writes_then [OF writes_block Cons.IH, of x] show ?case
    by (simp add: writes_def case_prod_unfold if_distrib cong: if_cong)
qed

lemma writes_for:
  "(\<And>i. i < n \<Longrightarrow> writes (f i) (enc i)) \<Longrightarrow> writes (ser_for n f) (concat (map enc [0..<n]))"
proof -
  have "(\<forall>i \<in> set is. writes (f i) (enc i)) \<Longrightarrow>
        writes (ser_seq (map f is)) (concat (map enc is))" for "is"
    by (induction "is") (auto intro: writes_intros)
  then show "(\<And>i. i < n \<Longrightarrow> writes (f i) (enc i)) \<Longrightarrow> ?thesis"
    by (simp add: ser_for_def)
qed

section \<open>MessagePack values\<close>

datatype tok = TStr string | TBool bool | TInt int | TArr nat | TMap nat

datatype mp = MStr string | MBool bool | MInt int | MArr "mp list" | MMap "(string \<times> mp) list"

fun tok_bytes :: "cmp_lib \<Rightarrow> tok \<Rightarrow> byte list" where
  "tok_bytes C (TStr s) = concat (cmp_str C (bytes_of s))"
| "tok_bytes C (TBool b) = concat (cmp_bool C b)"
| "tok_bytes C (TInt i) = concat (if 0 \<le> i then cmp_uint C (word_of_int i) else cmp_int C (word_of_int i))"
| "tok_bytes C (TArr n) = concat (cmp_array C n)"
| "tok_bytes C (TMap n) = concat (cmp_map C n)"

definition kv_bytes_with :: "cmp_lib \<Rightarrow> string \<times> byte list \<Rightarrow> byte list" where
  "kv_bytes_with C kb = tok_bytes C (TStr (fst kb)) @ snd kb"

primrec mp_bytes :: "cmp_lib \<Rightarrow> mp \<Rightarrow> byte list" where
  "mp_bytes C (MStr s) = tok_bytes C (TStr s)"
| "mp_bytes C (MBool b) = tok_bytes C (TBool b)"
| "mp_bytes C (MInt i) = tok_bytes C (TInt i)"
| "mp_bytes C (MArr xs) = tok_bytes C (TArr (length xs)) @ concat (map (mp_bytes C) xs)"
| "mp_bytes C (MMap kvs) = tok_bytes C (TMap (length kvs)) @
     concat (map (kv_bytes_with C) (map (map_prod id (mp_bytes C)) kvs))"

definition kv_bytes :: "cmp_lib \<Rightarrow> string \<times> mp \<Rightarrow> byte list" where
  "kv_bytes C kv = tok_bytes C (TStr (fst kv)) @ mp_bytes C (snd kv)"

lemma mp_bytes_MMap:
  "mp_bytes C (MMap kvs) = tok_bytes C (TMap (length kvs)) @ concat (map (kv_bytes C) kvs)"
proof -
  have "kv_bytes_with C \<circ> map_prod id (mp_bytes C) = kv_bytes C"
    by (auto simp: kv_bytes_with_def kv_bytes_def)
  then show ?thesis by (simp add: mp_bytes.simps(5))
qed

declare mp_bytes.simps(5) [simp del]

lemmas mp_bytes_simps = mp_bytes.simps(1-4) mp_bytes_MMap kv_bytes_def

lemma writes_str [writes_intros]: "n = length s \<Longrightarrow> writes (cmp_write_str C s n) (mp_bytes C (MStr s))"
  using writes_emit [of "cmp_str C (bytes_of s)"] by (simp add: cmp_write_str_def)

lemma writes_bool [writes_intros]: "writes (cmp_write_bool C b) (mp_bytes C (MBool b))"
  using writes_emit by (simp add: cmp_write_bool_def)

lemma writes_uint [writes_intros]: "writes (cmp_write_uinteger C n) (mp_bytes C (MInt (uint n)))"
  using writes_emit by (simp add: cmp_write_uinteger_def)

lemma uint_ucast_u32 [simp]: "uint (ucast (a :: u32) :: u64) = uint a"
  by (simp add: uint_up_ucast is_up)

lemma writes_uint32 [writes_intros]:
  "writes (cmp_write_uinteger C (ucast (a :: u32))) (mp_bytes C (MInt (uint a)))"
  using writes_uint [of C "ucast a"] by simp

lemma writes_cong: "writes f xs \<Longrightarrow> xs = ys \<Longrightarrow> writes f ys"
  by simp

text \<open>\<open>cmp_write_integer\<close> is documented to write a non-negative value as \<open>cmp_write_uinteger\<close> does.\<close>

definition cmp_int_agrees :: "cmp_lib \<Rightarrow> bool" where
  "cmp_int_agrees C \<longleftrightarrow> (\<forall>n. 0 \<le> sint n \<longrightarrow> cmp_int C n = cmp_uint C n)"

lemma writes_int [writes_intros]: "cmp_int_agrees C \<Longrightarrow> writes (cmp_write_integer C n) (mp_bytes C (MInt (sint n)))"
  using writes_emit [of "cmp_int C n"] by (auto simp: cmp_write_integer_def cmp_int_agrees_def)

lemma writes_array [writes_intros]: "writes (cmp_write_array C n) (tok_bytes C (TArr n))"
  using writes_emit by (simp add: cmp_write_array_def)

lemma writes_map [writes_intros]: "writes (cmp_write_map C n) (tok_bytes C (TMap n))"
  using writes_emit by (simp add: cmp_write_map_def)

section \<open>The contract of a serializing function\<close>

locale serializer =
  fixes ser :: "'a \<Rightarrow> ser"
    and repr :: "'a \<Rightarrow> mp"
    and C :: cmp_lib
    and ok :: "'a \<Rightarrow> bool"
  assumes writes_value: "ok a \<Longrightarrow> writes (ser a) (mp_bytes C (repr a))"
begin

text \<open>It fits, and then the value's encoding is appended; or it does not, and \<open>false\<close> is returned.\<close>

lemma fits:
  assumes "ok a" "buf_wf b" "buf_offset b + length (mp_bytes C (repr a)) \<le> buf_size b"
  shows "\<exists>b'. ser a (Some b) = (True, Some b') \<and> written b' = written b @ mp_bytes C (repr a)
              \<and> buf_wf b' \<and> buf_size b' = buf_size b"
  using writes_value [OF assms(1)] assms(2,3)
  by (auto simp: writes_def written_put buf_wf_put)

lemma overflows:
  assumes "ok a" "buf_wf b" "\<not> buf_offset b + length (mp_bytes C (repr a)) \<le> buf_size b"
  shows "\<not> fst (ser a (Some b))"
  using writes_value [OF assms(1)] assms(2,3) by (auto simp: writes_def)

lemma success_iff:
  assumes "ok a" "buf_wf b"
  shows "fst (ser a (Some b)) \<longleftrightarrow> buf_offset b + length (mp_bytes C (repr a)) \<le> buf_size b"
  using fits [OF assms] overflows [OF assms] by fastforce

lemma success_bytes:
  assumes "ok a" "buf_wf b" "ser a (Some b) = (True, Some b')"
  shows "written b' = written b @ mp_bytes C (repr a)"
  using fits [OF assms(1,2)] success_iff [OF assms(1,2)] assms(3) by auto

text \<open>A counted loop over an array of such objects writes the elements of the array value.\<close>

lemma loop:
  assumes "n \<le> length xs" "list_all ok (take n xs)"
  shows "writes (ser_for n (\<lambda>i. ser (xs ! i))) (concat (map (mp_bytes C) (map repr (take n xs))))"
proof -
  have "writes (ser_for n (\<lambda>i. ser (xs ! i))) (concat (map (\<lambda>i. mp_bytes C (repr (xs ! i))) [0..<n]))"
    using assms by (intro writes_for writes_value) (auto simp: list_all_iff dest: nth_in_take)
  also have "map (\<lambda>i. mp_bytes C (repr (xs ! i))) [0..<n] = map (mp_bytes C) (map repr (take n xs))"
    using assms(1) by (intro nth_equalityI) auto
  finally show ?thesis .
qed

end

end
