(* ===== verification/Order_Request.thy ===== *)
theory Order_Request
  imports Metadata_Types Tlv Msgpack_Writer
begin

text \<open>
  One order (\<open>order_request.h\<close>, \<open>order_request.c\<close>): its structs, the parsers of the limit and trigger
  bodies and of the order itself, the check against the metadata's asset, and its MessagePack form.

  The union of \<open>limit\<close> and \<open>trigger\<close> in \<open>s_order_request\<close> (and of their contexts) is kept as two
  fields. The code writes and reads only the one \<open>order_type\<close> selects.
\<close>

section \<open>Structs\<close>

datatype e_order_type = ORDER_TYPE_LIMIT | ORDER_TYPE_TRIGGER
datatype e_tif = TIF_ALO | TIF_IOC | TIF_GTC
datatype e_trigger_type = TRIGGER_TYPE_TP | TRIGGER_TYPE_SL

primrec order_type_code :: "e_order_type \<Rightarrow> u8" where
  "order_type_code ORDER_TYPE_LIMIT = 0x00"
| "order_type_code ORDER_TYPE_TRIGGER = 0x01"

primrec tif_code :: "e_tif \<Rightarrow> u8" where
  "tif_code TIF_ALO = 0x00"
| "tif_code TIF_IOC = 0x01"
| "tif_code TIF_GTC = 0x02"

primrec trigger_type_code :: "e_trigger_type \<Rightarrow> u8" where
  "trigger_type_code TRIGGER_TYPE_TP = 0x00"
| "trigger_type_code TRIGGER_TYPE_SL = 0x01"

record s_limit =
  tif :: e_tif

record s_limit_ctx = tlv_ctx +
  limit :: s_limit

record s_trigger =
  is_market :: bool
  trigger_px :: string
  tpsl :: e_trigger_type

record s_trigger_ctx = tlv_ctx +
  trigger :: s_trigger

record s_order_request =
  or_asset :: u32
  or_is_buy :: bool
  or_limit_px :: string
  or_sz :: string
  or_reduce_only :: bool
  or_order_type :: e_order_type
  or_limit :: s_limit
  or_trigger :: s_trigger
  or_has_cloid :: bool
  or_cloid :: string

record s_order_request_ctx = tlv_ctx +
  order_request :: s_order_request
  limit_ctx :: s_limit_ctx
  trigger_ctx :: s_trigger_ctx

text \<open>Writes to the fields of a context leave its received tags alone.\<close>

lemma received_order_ctx [simp]:
  "received_tags (c\<lparr>order_request := r\<rparr>) = received_tags c"
  "received_tags (c\<lparr>limit_ctx := l\<rparr>) = received_tags c"
  "received_tags (c\<lparr>trigger_ctx := t\<rparr>) = received_tags c"
  by (cases c; simp)+

lemma order_ctx_mark [simp]:
  "order_request (mark_received t c) = order_request c"
  "limit_ctx (mark_received t c) = limit_ctx c"
  "trigger_ctx (mark_received t c) = trigger_ctx c"
  by (cases c; simp add: mark_received_def)+

lemma limit_ctx_simps [simp]:
  "received_tags (lc\<lparr>limit := l\<rparr>) = received_tags lc" "limit (mark_received t lc) = limit lc"
  by (cases lc; simp add: mark_received_def)+

lemma trigger_ctx_simps [simp]:
  "received_tags (tc\<lparr>trigger := x\<rparr>) = received_tags tc" "trigger (mark_received t tc) = trigger tc"
  by (cases tc; simp add: mark_received_def)+

definition s_limit_0 :: s_limit where [zero_defs]: "s_limit_0 = \<lparr>tif = TIF_ALO\<rparr>"

definition s_trigger_0 :: s_trigger where [zero_defs]:
  "s_trigger_0 = \<lparr>is_market = False, trigger_px = [], tpsl = TRIGGER_TYPE_TP\<rparr>"

definition s_order_request_0 :: s_order_request where [zero_defs]:
  "s_order_request_0 = \<lparr>or_asset = 0, or_is_buy = False, or_limit_px = [], or_sz = [],
     or_reduce_only = False, or_order_type = ORDER_TYPE_LIMIT, or_limit = s_limit_0,
     or_trigger = s_trigger_0, or_has_cloid = False, or_cloid = []\<rparr>"

definition s_limit_ctx_0 :: s_limit_ctx where [zero_defs]:
  "s_limit_ctx_0 = \<lparr>received_tags = [], limit = s_limit_0\<rparr>"

definition s_trigger_ctx_0 :: s_trigger_ctx where [zero_defs]:
  "s_trigger_ctx_0 = \<lparr>received_tags = [], trigger = s_trigger_0\<rparr>"

definition s_order_request_ctx_0 :: s_order_request_ctx where [zero_defs]:
  "s_order_request_ctx_0 = \<lparr>received_tags = [], order_request = s_order_request_0,
     limit_ctx = s_limit_ctx_0, trigger_ctx = s_trigger_ctx_0\<rparr>"

section \<open>Limit body\<close>

definition handle_tif :: "tlv_lib \<Rightarrow> s_limit_ctx handler" where
  "handle_tif L d out = rbind (of_opt (get_uint8 L d)) (\<lambda>b.
     rbind (of_opt (enum_of tif_code [TIF_ALO, TIF_IOC, TIF_GTC] b)) (\<lambda>t.
     Inr (out\<lparr>limit := (limit out)\<lparr>tif := t\<rparr>\<rparr>)))"

definition LIMIT_ORDER_TAGS :: "tlv_lib \<Rightarrow> s_limit_ctx tag_table" where
  "LIMIT_ORDER_TAGS L = [(0xe6, handle_tif L, ENFORCE_UNIQUE_TAG)]"

definition verify_limit_order :: "s_limit_ctx \<Rightarrow> bool" where
  "verify_limit_order out \<longleftrightarrow> tlv_check_received [0xe6] out"

definition parse_limit_order :: "tlv_lib \<Rightarrow> byte list \<Rightarrow> s_limit_ctx \<Rightarrow> s_limit_ctx result" where
  "parse_limit_order L payload out =
     rbind (tlv_parser L (LIMIT_ORDER_TAGS L) no_common payload out) (\<lambda>c.
     check (verify_limit_order c) c)"

definition limit_order_serialize :: "cmp_lib \<Rightarrow> s_limit \<Rightarrow> ser" where
  "limit_order_serialize C l = ser_seq
     [cmp_write_str C ''limit'' 5,
      cmp_write_map C 1,
      cmp_write_str C ''tif'' 3,
      (case tif l of
         TIF_ALO \<Rightarrow> cmp_write_str C ''Alo'' 3
       | TIF_IOC \<Rightarrow> cmp_write_str C ''Ioc'' 3
       | TIF_GTC \<Rightarrow> cmp_write_str C ''Gtc'' 3)]"

section \<open>Trigger body\<close>

definition handle_is_market :: "tlv_lib \<Rightarrow> s_trigger_ctx handler" where
  "handle_is_market L d out = rbind (of_opt (get_bool L d)) (\<lambda>b.
     Inr (out\<lparr>trigger := (trigger out)\<lparr>is_market := b\<rparr>\<rparr>))"

definition handle_trigger_px :: "tlv_lib \<Rightarrow> s_trigger_ctx handler" where
  "handle_trigger_px L d out =
     rbind (of_opt (get_string L d 1 (NUMERIC_STRING_LENGTH + 1))) (\<lambda>s.
     Inr (out\<lparr>trigger := (trigger out)\<lparr>trigger_px := s\<rparr>\<rparr>))"

definition handle_tpsl :: "tlv_lib \<Rightarrow> s_trigger_ctx handler" where
  "handle_tpsl L d out = rbind (of_opt (get_uint8 L d)) (\<lambda>b.
     rbind (of_opt (enum_of trigger_type_code [TRIGGER_TYPE_TP, TRIGGER_TYPE_SL] b)) (\<lambda>t.
     Inr (out\<lparr>trigger := (trigger out)\<lparr>tpsl := t\<rparr>\<rparr>)))"

definition TRIGGER_ORDER_TAGS :: "tlv_lib \<Rightarrow> s_trigger_ctx tag_table" where
  "TRIGGER_ORDER_TAGS L =
     [(0xe7, handle_is_market L, ENFORCE_UNIQUE_TAG),
      (0xe8, handle_trigger_px L, ENFORCE_UNIQUE_TAG),
      (0xe9, handle_tpsl L, ENFORCE_UNIQUE_TAG)]"

definition verify_trigger_order :: "s_trigger_ctx \<Rightarrow> bool" where
  "verify_trigger_order out \<longleftrightarrow> tlv_check_received [0xe7, 0xe8, 0xe9] out"

definition trigger_order_serialize :: "cmp_lib \<Rightarrow> s_trigger \<Rightarrow> ser" where
  "trigger_order_serialize C t = ser_seq
     [cmp_write_str C ''trigger'' 7,
      cmp_write_map C 3,
      cmp_write_str C ''isMarket'' 8,
      cmp_write_bool C (is_market t),
      cmp_write_str C ''triggerPx'' 9,
      cmp_write_str C (trigger_px t) (length (trigger_px t)),
      cmp_write_str C ''tpsl'' 4,
      (case tpsl t of
         TRIGGER_TYPE_TP \<Rightarrow> cmp_write_str C ''tp'' 2
       | TRIGGER_TYPE_SL \<Rightarrow> cmp_write_str C ''sl'' 2)]"

definition parse_trigger_order :: "tlv_lib \<Rightarrow> byte list \<Rightarrow> s_trigger_ctx \<Rightarrow> s_trigger_ctx result" where
  "parse_trigger_order L payload out =
     rbind (tlv_parser L (TRIGGER_ORDER_TAGS L) no_common payload out) (\<lambda>c.
     check (verify_trigger_order c) c)"

section \<open>The order\<close>

definition handle_order_type :: "tlv_lib \<Rightarrow> s_order_request_ctx handler" where
  "handle_order_type L d out = rbind (of_opt (get_uint8 L d)) (\<lambda>b.
     rbind (of_opt (enum_of order_type_code [ORDER_TYPE_LIMIT, ORDER_TYPE_TRIGGER] b)) (\<lambda>t.
     Inr (out\<lparr>order_request := (order_request out)\<lparr>or_order_type := t\<rparr>\<rparr>)))"

definition handle_asset :: "tlv_lib \<Rightarrow> s_order_request_ctx handler" where
  "handle_asset L d out = rbind (of_opt (get_uint32 L d)) (\<lambda>a.
     Inr (out\<lparr>order_request := (order_request out)\<lparr>or_asset := a\<rparr>\<rparr>))"

definition handle_is_buy :: "tlv_lib \<Rightarrow> s_order_request_ctx handler" where
  "handle_is_buy L d out = rbind (of_opt (get_bool L d)) (\<lambda>b.
     Inr (out\<lparr>order_request := (order_request out)\<lparr>or_is_buy := b\<rparr>\<rparr>))"

definition handle_limit_px :: "tlv_lib \<Rightarrow> s_order_request_ctx handler" where
  "handle_limit_px L d out =
     rbind (of_opt (get_string L d 1 (NUMERIC_STRING_LENGTH + 1))) (\<lambda>s.
     Inr (out\<lparr>order_request := (order_request out)\<lparr>or_limit_px := s\<rparr>\<rparr>))"

definition handle_sz :: "tlv_lib \<Rightarrow> s_order_request_ctx handler" where
  "handle_sz L d out =
     rbind (of_opt (get_string L d 1 (NUMERIC_STRING_LENGTH + 1))) (\<lambda>s.
     Inr (out\<lparr>order_request := (order_request out)\<lparr>or_sz := s\<rparr>\<rparr>))"

definition handle_reduce_only :: "tlv_lib \<Rightarrow> s_order_request_ctx handler" where
  "handle_reduce_only L d out = rbind (of_opt (get_bool L d)) (\<lambda>b.
     Inr (out\<lparr>order_request := (order_request out)\<lparr>or_reduce_only := b\<rparr>\<rparr>))"

definition handle_cloid :: "s_order_request_ctx handler" where
  "handle_cloid d out =
     (if length (td_value d) \<noteq> CLOID_BIT_LENGTH div 8 then Inl Reject
      else case bytes_to_lowercase_hex (CLOID_HEX_STRING_LENGTH - 2) (td_value d) of (status, hex) \<Rightarrow>
        if status \<noteq> 0 then Inl Reject
        else Inr (out\<lparr>order_request := (order_request out)
                     \<lparr>or_cloid := ''0x'' @ hex, or_has_cloid := True\<rparr>\<rparr>))"

definition handle_order :: "tlv_lib \<Rightarrow> s_order_request_ctx handler" where
  "handle_order L d out =
     (if \<not> tlv_check_received [0xe0] out then Inl Reject
      else case or_order_type (order_request out) of
        ORDER_TYPE_LIMIT \<Rightarrow>
          rbind (parse_limit_order L (td_value d)
                   ((limit_ctx out)\<lparr>limit := or_limit (order_request out)\<rparr>)) (\<lambda>c.
          Inr (out\<lparr>limit_ctx := c, order_request := (order_request out)\<lparr>or_limit := limit c\<rparr>\<rparr>))
      | ORDER_TYPE_TRIGGER \<Rightarrow>
          rbind (parse_trigger_order L (td_value d)
                   ((trigger_ctx out)\<lparr>trigger := or_trigger (order_request out)\<rparr>)) (\<lambda>c.
          Inr (out\<lparr>trigger_ctx := c, order_request := (order_request out)\<lparr>or_trigger := trigger c\<rparr>\<rparr>)))"

definition ORDER_REQUEST_TAGS :: "tlv_lib \<Rightarrow> s_order_request_ctx tag_table" where
  "ORDER_REQUEST_TAGS L =
     [(0xe0, handle_order_type L, ENFORCE_UNIQUE_TAG),
      (0xd1, handle_asset L, ENFORCE_UNIQUE_TAG),
      (0xe2, handle_is_buy L, ENFORCE_UNIQUE_TAG),
      (0xe3, handle_limit_px L, ENFORCE_UNIQUE_TAG),
      (0xe4, handle_sz L, ENFORCE_UNIQUE_TAG),
      (0xe5, handle_reduce_only L, ENFORCE_UNIQUE_TAG),
      (0xd7, handle_order L, ENFORCE_UNIQUE_TAG),
      (0xee, handle_cloid, ENFORCE_UNIQUE_TAG)]"

text \<open>\<open>md\<close> is what \<open>ctx_get_action_metadata\<close> returns; the code dereferences it unchecked.\<close>

definition verify_order_request ::
  "s_action_metadata option \<Rightarrow> s_order_request_ctx \<Rightarrow> bool result" where
  "verify_order_request md out =
     (if \<not> tlv_check_received [0xe0, 0xd1, 0xe2, 0xe3, 0xe4, 0xe5, 0xd7] out then Inr False
      else case md of
        None \<Rightarrow> Inl Null_deref
      | Some m \<Rightarrow> Inr (md_asset_id m = or_asset (order_request out)))"

definition parse_order_request ::
  "tlv_lib \<Rightarrow> s_action_metadata option \<Rightarrow> byte list \<Rightarrow> s_order_request_ctx \<Rightarrow>
   s_order_request_ctx result" where
  "parse_order_request L md payload out =
     rbind (tlv_parser L (ORDER_REQUEST_TAGS L) no_common payload out) (\<lambda>c.
     rbind (verify_order_request md c) (\<lambda>ok. check ok c))"

definition order_request_serialize :: "cmp_lib \<Rightarrow> s_order_request \<Rightarrow> ser" where
  "order_request_serialize C r = ser_seq
     [cmp_write_map C (if or_has_cloid r then 7 else 6),
      cmp_write_str C ''a'' 1,
      cmp_write_uinteger C (ucast (or_asset r)),
      cmp_write_str C ''b'' 1,
      cmp_write_bool C (or_is_buy r),
      cmp_write_str C ''p'' 1,
      cmp_write_str C (or_limit_px r) (length (or_limit_px r)),
      cmp_write_str C ''s'' 1,
      cmp_write_str C (or_sz r) (length (or_sz r)),
      cmp_write_str C ''r'' 1,
      cmp_write_bool C (or_reduce_only r),
      cmp_write_str C ''t'' 1,
      cmp_write_map C 1,
      (case or_order_type r of
         ORDER_TYPE_LIMIT \<Rightarrow> limit_order_serialize C (or_limit r)
       | ORDER_TYPE_TRIGGER \<Rightarrow> trigger_order_serialize C (or_trigger r)),
      (if or_has_cloid r
       then ser_seq [cmp_write_str C ''c'' 1, cmp_write_str C (or_cloid r) (length (or_cloid r))]
       else ser_skip)]"

section \<open>What a parsed order satisfies\<close>

definition cloid_ok :: "string \<Rightarrow> bool" where
  "cloid_ok s \<longleftrightarrow> length s = 34 \<and> take 2 s = ''0x'' \<and>
     list_all (\<lambda>c. c \<in> set ''0123456789abcdef'') (drop 2 s)"

definition order_wf :: "u32 \<Rightarrow> s_order_request \<Rightarrow> bool" where
  "order_wf asset r \<longleftrightarrow> or_asset r = asset \<and> num_str (or_limit_px r) \<and> num_str (or_sz r) \<and>
     (or_order_type r = ORDER_TYPE_TRIGGER \<longrightarrow> num_str (trigger_px (or_trigger r))) \<and>
     (or_has_cloid r \<longrightarrow> cloid_ok (or_cloid r))"

text \<open>The same against the metadata in force, if any.\<close>

definition order_wf_md :: "s_action_metadata option \<Rightarrow> s_order_request \<Rightarrow> bool" where
  "order_wf_md md r = (case md of None \<Rightarrow> False | Some m \<Rightarrow> order_wf (md_asset_id m) r)"

definition trigger_ctx_inv :: "s_trigger_ctx \<Rightarrow> bool" where
  "trigger_ctx_inv c \<longleftrightarrow> (0xe8 \<in> set (received_tags c) \<longrightarrow> num_str (trigger_px (trigger c)))"

definition order_ctx_inv :: "s_order_request_ctx \<Rightarrow> bool" where
  "order_ctx_inv c \<longleftrightarrow> (let r = order_request c; R = set (received_tags c) in
     (0xe3 \<in> R \<longrightarrow> num_str (or_limit_px r)) \<and> (0xe4 \<in> R \<longrightarrow> num_str (or_sz r)) \<and>
     (0xd7 \<in> R \<longrightarrow> 0xe0 \<in> R) \<and>
     (0xd7 \<in> R \<and> or_order_type r = ORDER_TYPE_TRIGGER \<longrightarrow> num_str (trigger_px (or_trigger r))) \<and>
     (0xd7 \<notin> R \<longrightarrow> received_tags (limit_ctx c) = [] \<and> received_tags (trigger_ctx c) = []) \<and>
     (or_has_cloid r \<longrightarrow> cloid_ok (or_cloid r)))"

lemma inj_codes: "inj order_type_code" "inj tif_code" "inj trigger_type_code"
proof -
  show "inj order_type_code"
    by (rule injI, rename_tac a b, case_tac a; case_tac b) simp_all
  show "inj tif_code"
    by (rule injI, rename_tac a b, case_tac a; case_tac b) simp_all
  show "inj trigger_type_code"
    by (rule injI, rename_tac a b, case_tac a; case_tac b) simp_all
qed

lemma hex_of_bytes_chars: "list_all (\<lambda>c. c \<in> set ''0123456789abcdef'') (hex_of_bytes bs)"
proof (induction bs)
  case (Cons b bs)
  have "hex_digit n \<in> set ''0123456789abcdef''" for n
    unfolding hex_digit_def using nibble_less [of n] by (intro nth_mem) simp
  with Cons show ?case by (simp del: set_simps)
qed simp

lemma cloid_ok_hex: "length bs = 16 \<Longrightarrow> cloid_ok (CHR ''0'' # CHR ''x'' # hex_of_bytes bs)"
  using hex_of_bytes_chars [of bs] by (simp add: cloid_ok_def)

interpretation limit_tlv: tlv_struct "LIMIT_ORDER_TAGS L" no_common "\<lambda>_. True" True for L
  by unfold_locales
     (auto simp: LIMIT_ORDER_TAGS_def handle_tif_def rbind_Inr_conv intro!: no_ub_rbind split: if_splits)

interpretation trigger_tlv:
  tlv_struct "TRIGGER_ORDER_TAGS L" no_common trigger_ctx_inv "tlv_lib_ok L" for L
proof (unfold_locales, goal_cases)
  case (1 d h c c1 c2)
  then show ?case
    by (auto simp: TRIGGER_ORDER_TAGS_def handle_is_market_def handle_trigger_px_def handle_tpsl_def
        rbind_Inr_conv split: if_splits)
next
  case (2 c d h c1 c2)
  then show ?case
    by (auto simp: TRIGGER_ORDER_TAGS_def handle_is_market_def handle_trigger_px_def handle_tpsl_def
        rbind_Inr_conv trigger_ctx_inv_def  split: if_splits)
      (metis get_num_str)
next
  case (3 c d h)
  then show ?case
    by (auto simp: TRIGGER_ORDER_TAGS_def handle_is_market_def handle_trigger_px_def handle_tpsl_def
        intro!: no_ub_rbind split: if_splits)
qed

lemma parse_limit_order_no_ub:
  "tlv_lib_ok L \<Longrightarrow> received_tags c = [] \<Longrightarrow> no_ub (parse_limit_order L p c)"
  by (simp add: parse_limit_order_def no_ub_rbind limit_tlv.parser_spec(1) tlv_lib_okD)

lemma parse_trigger_order_no_ub:
  "tlv_lib_ok L \<Longrightarrow> received_tags c = [] \<Longrightarrow> no_ub (parse_trigger_order L p c)"
  by (simp add: parse_trigger_order_def no_ub_rbind trigger_tlv.parser_spec(1) tlv_lib_okD
      trigger_ctx_inv_def)

lemma parse_trigger_order_px:
  assumes "tlv_lib_ok L" "received_tags c = []" "parse_trigger_order L p c = Inr c'"
  shows "num_str (trigger_px (trigger c'))"
proof -
  from assms(3) have run: "tlv_parser L (TRIGGER_ORDER_TAGS L) no_common p c = Inr c'"
    and "verify_trigger_order c'"
    by (auto simp: parse_trigger_order_def rbind_Inr_conv)
  moreover have "trigger_ctx_inv c'"
    using trigger_tlv.parser_spec(2) [OF assms(1) tlv_lib_okD [OF assms(1)] _ assms(2) run] assms(2)
    by (simp add: trigger_ctx_inv_def)
  ultimately show ?thesis by (simp add: trigger_ctx_inv_def verify_trigger_order_def)
qed

lemmas order_handler_defs = handle_order_type_def handle_asset_def handle_is_buy_def
  handle_limit_px_def handle_sz_def handle_reduce_only_def handle_cloid_def

text \<open>The handler of the body runs a sub-parser on a sub-context that is still wiped.\<close>

lemma handle_order_spec:
  assumes "tlv_lib_ok L" "received_tags (limit_ctx c) = []" "received_tags (trigger_ctx c) = []"
  shows "no_ub (handle_order L d c)"
    and "handle_order L d c = Inr c' \<Longrightarrow>
      0xe0 \<in> set (received_tags c) \<and> received_tags c' = received_tags c \<and>
      (or_order_type (order_request c) = ORDER_TYPE_LIMIT \<longrightarrow>
        (\<exists>l. order_request c' = (order_request c)\<lparr>or_limit := l\<rparr>)) \<and>
      (or_order_type (order_request c) = ORDER_TYPE_TRIGGER \<longrightarrow>
        (\<exists>t. order_request c' = (order_request c)\<lparr>or_trigger := t\<rparr> \<and> num_str (trigger_px t)))"
proof -
  show "no_ub (handle_order L d c)"
    using assms by (auto simp: handle_order_def intro!: no_ub_rbind parse_limit_order_no_ub
        parse_trigger_order_no_ub split: e_order_type.splits)
  assume run: "handle_order L d c = Inr c'"
  then have typed: "0xe0 \<in> set (received_tags c)" by (auto simp: handle_order_def split: if_splits)
  show "0xe0 \<in> set (received_tags c) \<and> received_tags c' = received_tags c \<and>
      (or_order_type (order_request c) = ORDER_TYPE_LIMIT \<longrightarrow>
        (\<exists>l. order_request c' = (order_request c)\<lparr>or_limit := l\<rparr>)) \<and>
      (or_order_type (order_request c) = ORDER_TYPE_TRIGGER \<longrightarrow>
        (\<exists>t. order_request c' = (order_request c)\<lparr>or_trigger := t\<rparr> \<and> num_str (trigger_px t)))"
  proof (cases "or_order_type (order_request c)")
    case ORDER_TYPE_LIMIT
    with run typed show ?thesis by (auto simp: handle_order_def rbind_Inr_conv)
  next
    case ORDER_TYPE_TRIGGER
    with run typed obtain t where t: "parse_trigger_order L (td_value d)
        ((trigger_ctx c)\<lparr>trigger := or_trigger (order_request c)\<rparr>) = Inr t"
      "c' = c\<lparr>trigger_ctx := t, order_request := (order_request c)\<lparr>or_trigger := trigger t\<rparr>\<rparr>"
      by (auto simp: handle_order_def rbind_Inr_conv)
    have "num_str (trigger_px (trigger t))"
      using assms(1,3) by (intro parse_trigger_order_px [OF _ _ t(1)]) simp_all
    with t(2) typed ORDER_TYPE_TRIGGER show ?thesis by auto
  qed
qed

text \<open>Case analysis over the rows of the table.\<close>

lemma order_handlerE:
  assumes "find_handler (ORDER_REQUEST_TAGS L) t = Some h"
  obtains (body) "t = 0xd7" "h = handle_order L"
  | (kind) "t = 0xe0" "h = handle_order_type L"
  | (asset) "t = 0xd1" "h = handle_asset L"
  | (buy) "t = 0xe2" "h = handle_is_buy L"
  | (px) "t = 0xe3" "h = handle_limit_px L"
  | (sz) "t = 0xe4" "h = handle_sz L"
  | (reduce) "t = 0xe5" "h = handle_reduce_only L"
  | (cloid) "t = 0xee" "h = handle_cloid"
  using assms by (auto simp: ORDER_REQUEST_TAGS_def split: if_splits)

text \<open>A handler that fills one plain field of the order keeps the invariant.\<close>

lemma order_ctx_inv_field:
  assumes "order_ctx_inv c" "t \<noteq> 0xd7"
    and "if t = 0xe3 then num_str (or_limit_px r) else or_limit_px r = or_limit_px (order_request c)"
    and "if t = 0xe4 then num_str (or_sz r) else or_sz r = or_sz (order_request c)"
    and "0xe0 \<in> set (received_tags c) \<longrightarrow> or_order_type r = or_order_type (order_request c)"
    and "or_trigger r = or_trigger (order_request c)"
    and "or_has_cloid r \<longrightarrow> cloid_ok (or_cloid r)"
  shows "order_ctx_inv (mark_received t (c\<lparr>order_request := r\<rparr>))"
proof -
  have old: "order_ctx_inv c" by fact
  have px: "0xe3 \<in> insert t (set (received_tags c)) \<longrightarrow> num_str (or_limit_px r)"
    using old assms(3) by (auto simp: order_ctx_inv_def Let_def split: if_splits)
  have sz: "0xe4 \<in> insert t (set (received_tags c)) \<longrightarrow> num_str (or_sz r)"
    using old assms(4) by (auto simp: order_ctx_inv_def Let_def split: if_splits)
  have typed: "0xd7 \<in> set (received_tags c) \<longrightarrow> 0xe0 \<in> set (received_tags c)"
    and subs: "0xd7 \<notin> set (received_tags c) \<longrightarrow>
      received_tags (limit_ctx c) = [] \<and> received_tags (trigger_ctx c) = []"
    and trig: "0xd7 \<in> set (received_tags c) \<and> or_order_type (order_request c) = ORDER_TYPE_TRIGGER
      \<longrightarrow> num_str (trigger_px (or_trigger (order_request c)))"
    using old by (simp_all add: order_ctx_inv_def Let_def)
  have "0xd7 \<in> set (received_tags c) \<and> or_order_type r = ORDER_TYPE_TRIGGER
      \<longrightarrow> num_str (trigger_px (or_trigger r))"
    using typed trig assms(5,6) by auto
  then show ?thesis
    using typed subs px sz assms(2,7) by (simp add: order_ctx_inv_def Let_def)
qed

lemma order_cloid:
  "order_ctx_inv c \<Longrightarrow> or_has_cloid (order_request c) \<Longrightarrow> cloid_ok (or_cloid (order_request c))"
  by (simp add: order_ctx_inv_def Let_def)

lemma order_unique: "find_handler (ORDER_REQUEST_TAGS L) t = Some h \<Longrightarrow> unique_tag (ORDER_REQUEST_TAGS L) t"
  by (erule order_handlerE) (simp_all add: ORDER_REQUEST_TAGS_def)

interpretation order_tlv:
  tlv_struct "ORDER_REQUEST_TAGS L" no_common order_ctx_inv "tlv_lib_ok L" for L
proof (unfold_locales, goal_cases)
  case (1 d h c c1 c2)
  from 1(1) show ?case
    by (cases rule: order_handlerE)
       (use 1(2,3) in \<open>auto simp: order_handler_defs handle_order_def rbind_Inr_conv
          split: if_splits e_order_type.splits prod.splits\<close>)
next
  case (2 c d h c1 c2)
  have fresh: "td_tag d \<notin> set (received_tags c)" using 2(3,4) by (auto dest: order_unique)
  from 2(3) show ?case
  proof (cases rule: order_handlerE)
    case body
    with 2(5,6) fresh have run: "handle_order L d c = Inr c2" and "0xd7 \<notin> set (received_tags c)"
      by simp_all
    with 2(2) have "received_tags (limit_ctx c) = []" "received_tags (trigger_ctx c) = []"
      by (simp_all add: order_ctx_inv_def Let_def)
    from handle_order_spec(2) [OF 2(1) this run] 2(2) body show ?thesis
      by (cases "or_order_type (order_request c)")
         (auto simp: order_ctx_inv_def Let_def )
  next
    case kind
    with 2 fresh show ?thesis
      by (auto simp: handle_order_type_def rbind_Inr_conv order_cloid intro!: order_ctx_inv_field)
  next
    case asset
    with 2 show ?thesis
      by (auto simp: handle_asset_def rbind_Inr_conv order_cloid intro!: order_ctx_inv_field)
  next
    case buy
    with 2 show ?thesis
      by (auto simp: handle_is_buy_def rbind_Inr_conv order_cloid intro!: order_ctx_inv_field)
  next
    case px
    with 2 show ?thesis
      by (auto simp: handle_limit_px_def rbind_Inr_conv order_cloid get_num_str [OF 2(1)]
          intro!: order_ctx_inv_field)
  next
    case sz
    with 2 show ?thesis
      by (auto simp: handle_sz_def rbind_Inr_conv order_cloid get_num_str [OF 2(1)]
          intro!: order_ctx_inv_field)
  next
    case reduce
    with 2 show ?thesis
      by (auto simp: handle_reduce_only_def rbind_Inr_conv order_cloid intro!: order_ctx_inv_field)
  next
    case cloid
    with 2 show ?thesis
      by (auto simp: handle_cloid_def bytes_to_lowercase_hex_def cloid_ok_hex
          intro!: order_ctx_inv_field split: if_splits)
  qed
next
  case (3 c d h)
  have fresh: "td_tag d \<notin> set (received_tags c)" using 3(3,4) by (auto dest: order_unique)
  from 3(3) show ?case
  proof (cases rule: order_handlerE)
    case body
    with fresh 3(2) have "received_tags (limit_ctx c) = []" "received_tags (trigger_ctx c) = []"
      by (auto simp: order_ctx_inv_def Let_def)
    from handle_order_spec(1) [OF 3(1) this] body show ?thesis by simp
  qed (auto simp: order_handler_defs intro!: no_ub_rbind split: if_splits prod.splits)
qed

lemma order_ctx_inv_wiped:
  "received_tags c = [] \<Longrightarrow> received_tags (limit_ctx c) = [] \<Longrightarrow> received_tags (trigger_ctx c) = [] \<Longrightarrow>
   \<not> or_has_cloid (order_request c) \<Longrightarrow> order_ctx_inv c"
  by (simp add: order_ctx_inv_def)

text \<open>A context wiped before the parse, as every caller of \<open>parse_order_request\<close> leaves it.\<close>

definition order_ctx_wiped :: "s_order_request_ctx \<Rightarrow> bool" where
  "order_ctx_wiped c \<longleftrightarrow> received_tags c = [] \<and> received_tags (limit_ctx c) = [] \<and>
     received_tags (trigger_ctx c) = [] \<and> \<not> or_has_cloid (order_request c)"

lemma parse_order_request_no_ub:
  assumes "tlv_lib_ok L" "order_ctx_wiped c"
    and "md \<noteq> None"
  shows "no_ub (parse_order_request L md p c)"
proof -
  have "no_ub (tlv_parser L (ORDER_REQUEST_TAGS L) no_common p c)"
    using assms(1,2) by (intro order_tlv.parser_spec(1))
      (auto simp: order_ctx_wiped_def tlv_lib_okD intro: order_ctx_inv_wiped)
  then show ?thesis
    using assms(3) by (auto simp: parse_order_request_def verify_order_request_def intro!: no_ub_rbind)
qed

lemma parse_order_request_wf:
  assumes "tlv_lib_ok L" "order_ctx_wiped c" "parse_order_request L md p c = Inr c'"
  shows "order_wf_md md (order_request c')"
proof -
  from assms(3) have run: "tlv_parser L (ORDER_REQUEST_TAGS L) no_common p c = Inr c'"
    and ver: "verify_order_request md c' = Inr True"
    by (auto simp: parse_order_request_def rbind_Inr_conv)
  have "order_ctx_inv c'"
    using assms(2) by (intro order_tlv.parser_spec(2) [OF assms(1) tlv_lib_okD [OF assms(1)] _ _ run])
      (simp_all add: order_ctx_wiped_def order_ctx_inv_wiped)
  moreover from ver obtain m where "md = Some m" "md_asset_id m = or_asset (order_request c')"
    and "tlv_check_received [0xe0, 0xd1, 0xe2, 0xe3, 0xe4, 0xe5, 0xd7] c'"
    by (auto simp: verify_order_request_def split: if_splits option.splits)
  ultimately show ?thesis by (simp add: order_wf_md_def order_ctx_inv_def order_wf_def Let_def)
qed

section \<open>The MessagePack value of an order\<close>

primrec tif_str :: "e_tif \<Rightarrow> string" where
  "tif_str TIF_ALO = ''Alo''"
| "tif_str TIF_IOC = ''Ioc''"
| "tif_str TIF_GTC = ''Gtc''"

primrec tpsl_str :: "e_trigger_type \<Rightarrow> string" where
  "tpsl_str TRIGGER_TYPE_TP = ''tp''"
| "tpsl_str TRIGGER_TYPE_SL = ''sl''"

definition limit_entry :: "s_limit \<Rightarrow> string \<times> mp" where
  "limit_entry l = (''limit'', MMap [(''tif'', MStr (tif_str (tif l)))])"

definition trigger_entry :: "s_trigger \<Rightarrow> string \<times> mp" where
  "trigger_entry t = (''trigger'', MMap
     [(''isMarket'', MBool (is_market t)), (''triggerPx'', MStr (trigger_px t)),
      (''tpsl'', MStr (tpsl_str (tpsl t)))])"

definition order_body_entry :: "s_order_request \<Rightarrow> string \<times> mp" where
  "order_body_entry r = (case or_order_type r of
       ORDER_TYPE_LIMIT \<Rightarrow> limit_entry (or_limit r)
     | ORDER_TYPE_TRIGGER \<Rightarrow> trigger_entry (or_trigger r))"

definition order_request_mp :: "s_order_request \<Rightarrow> mp" where
  "order_request_mp r = MMap
     ([(''a'', MInt (uint (or_asset r))), (''b'', MBool (or_is_buy r)), (''p'', MStr (or_limit_px r)),
       (''s'', MStr (or_sz r)), (''r'', MBool (or_reduce_only r)), (''t'', MMap [order_body_entry r])]
      @ (if or_has_cloid r then [(''c'', MStr (or_cloid r))] else []))"

lemma writes_limit [writes_intros]:
  "writes (limit_order_serialize C l) (kv_bytes C (limit_entry l))"
proof -
  have "writes (case tif l of TIF_ALO \<Rightarrow> cmp_write_str C ''Alo'' 3 | TIF_IOC \<Rightarrow> cmp_write_str C ''Ioc'' 3
      | TIF_GTC \<Rightarrow> cmp_write_str C ''Gtc'' 3) (mp_bytes C (MStr (tif_str (tif l))))"
    by (cases "tif l") (simp_all add: writes_str del: mp_bytes.simps)
  note parts = this writes_intros
  show ?thesis
    unfolding limit_order_serialize_def
    by (rule writes_cong, (rule parts | (simp; fail))+, simp add: limit_entry_def mp_bytes_simps eval_nat_numeral)
qed

lemma writes_trigger [writes_intros]:
  "writes (trigger_order_serialize C t) (kv_bytes C (trigger_entry t))"
proof -
  have "writes (case tpsl t of TRIGGER_TYPE_TP \<Rightarrow> cmp_write_str C ''tp'' 2
      | TRIGGER_TYPE_SL \<Rightarrow> cmp_write_str C ''sl'' 2) (mp_bytes C (MStr (tpsl_str (tpsl t))))"
    by (cases "tpsl t") (simp_all add: writes_str del: mp_bytes.simps)
  note parts = this writes_intros
  show ?thesis
    unfolding trigger_order_serialize_def
    by (rule writes_cong, (rule parts | (simp; fail))+, simp add: trigger_entry_def mp_bytes_simps eval_nat_numeral)
qed

lemma writes_order [writes_intros]:
  "writes (order_request_serialize C r) (mp_bytes C (order_request_mp r))"
proof -
  have body: "writes (case or_order_type r of ORDER_TYPE_LIMIT \<Rightarrow> limit_order_serialize C (or_limit r)
      | ORDER_TYPE_TRIGGER \<Rightarrow> trigger_order_serialize C (or_trigger r)) (kv_bytes C (order_body_entry r))"
    by (cases "or_order_type r") (simp_all add: order_body_entry_def writes_limit writes_trigger)
  have cloid: "writes (if or_has_cloid r
      then ser_seq [cmp_write_str C ''c'' 1, cmp_write_str C (or_cloid r) (length (or_cloid r))]
      else ser_skip) (if or_has_cloid r then kv_bytes C (''c'', MStr (or_cloid r)) else [])"
  proof (cases "or_has_cloid r")
    case True
    have "writes (ser_seq [cmp_write_str C ''c'' 1, cmp_write_str C (or_cloid r) (length (or_cloid r))])
      (kv_bytes C (''c'', MStr (or_cloid r)))"
      by (rule writes_cong, (rule writes_intros | (simp; fail))+, simp add: mp_bytes_simps)
    with True show ?thesis by simp
  qed (simp add: writes_skip)
  note parts = body cloid writes_intros
  show ?thesis
    unfolding order_request_serialize_def
    by (rule writes_cong, (rule parts | (simp; fail))+, simp add: order_request_mp_def mp_bytes_simps eval_nat_numeral)
qed

interpretation order_ser: serializer "order_request_serialize C" order_request_mp C "\<lambda>_. True" for C
  by unfold_locales (rule writes_order)

end
