(* ===== verification/Bulk_Order.thy ===== *)
theory Bulk_Order
  imports Order_Request
begin

text \<open>
  A bulk order (\<open>bulk_order.h\<close>, \<open>bulk_order.c\<close>): up to \<open>BULK_MAX_SIZE\<close> orders, a grouping and an
  optional builder. The order tag may repeat, so its handler wipes the shared sub-context before
  each order and appends to the array.
\<close>

section \<open>Structs\<close>

datatype e_grouping = GROUPING_NA | GROUPING_NORMAL_TPSL | GROUPING_POSITION_TPSL

primrec grouping_code :: "e_grouping \<Rightarrow> u8" where
  "grouping_code GROUPING_NA = 0x00"
| "grouping_code GROUPING_NORMAL_TPSL = 0x01"
| "grouping_code GROUPING_POSITION_TPSL = 0x02"

record s_builder_info =
  bi_builder :: "byte list"
  bi_fee :: u64

record s_builder_info_ctx = tlv_ctx +
  builder_info :: s_builder_info

record s_bulk_order =
  bo_order_count :: nat
  bo_orders :: "s_order_request list"
  bo_grouping :: e_grouping
  bo_has_builder :: bool
  bo_builder :: s_builder_info

record s_bulk_order_ctx = tlv_ctx +
  bulk_order :: s_bulk_order
  order_ctx :: s_order_request_ctx
  builder_info_ctx :: s_builder_info_ctx

definition s_builder_info_0 :: s_builder_info where [zero_defs]:
  "s_builder_info_0 = \<lparr>bi_builder = replicate ADDRESS_LENGTH 0, bi_fee = 0\<rparr>"

definition s_builder_info_ctx_0 :: s_builder_info_ctx where [zero_defs]:
  "s_builder_info_ctx_0 = \<lparr>received_tags = [], builder_info = s_builder_info_0\<rparr>"

definition s_bulk_order_0 :: s_bulk_order where [zero_defs]:
  "s_bulk_order_0 = \<lparr>bo_order_count = 0, bo_orders = replicate BULK_MAX_SIZE s_order_request_0,
     bo_grouping = GROUPING_NA, bo_has_builder = False, bo_builder = s_builder_info_0\<rparr>"

definition s_bulk_order_ctx_0 :: s_bulk_order_ctx where [zero_defs]:
  "s_bulk_order_ctx_0 = \<lparr>received_tags = [], bulk_order = s_bulk_order_0,
     order_ctx = s_order_request_ctx_0, builder_info_ctx = s_builder_info_ctx_0\<rparr>"

lemma builder_ctx_simps [simp]:
  "received_tags (c\<lparr>builder_info := b\<rparr>) = received_tags c"
  "builder_info (mark_received t c) = builder_info c"
  by (cases c; simp add: mark_received_def)+

lemma bulk_ctx_simps [simp]:
  "received_tags (c\<lparr>bulk_order := b\<rparr>) = received_tags c"
  "received_tags (c\<lparr>order_ctx := oc\<rparr>) = received_tags c"
  "received_tags (c\<lparr>builder_info_ctx := bc\<rparr>) = received_tags c"
  "bulk_order (mark_received t c) = bulk_order c"
  "order_ctx (mark_received t c) = order_ctx c"
  "builder_info_ctx (mark_received t c) = builder_info_ctx c"
  by (cases c; simp add: mark_received_def)+

section \<open>Builder\<close>

definition handle_builder_address :: "tlv_lib \<Rightarrow> s_builder_info_ctx handler" where
  "handle_builder_address L d out =
     rbind (of_opt (get_buffer L d ADDRESS_LENGTH ADDRESS_LENGTH)) (\<lambda>buf.
     rbind (read_bytes ADDRESS_LENGTH buf) (\<lambda>a.
     Inr (out\<lparr>builder_info := (builder_info out)\<lparr>bi_builder := a\<rparr>\<rparr>)))"

definition handle_builder_fee :: "tlv_lib \<Rightarrow> s_builder_info_ctx handler" where
  "handle_builder_fee L d out = rbind (of_opt (get_uint64 L d)) (\<lambda>f.
     Inr (out\<lparr>builder_info := (builder_info out)\<lparr>bi_fee := f\<rparr>\<rparr>))"

definition BUILDER_INFO_TAGS :: "tlv_lib \<Rightarrow> s_builder_info_ctx tag_table" where
  "BUILDER_INFO_TAGS L =
     [(0xd3, handle_builder_address L, ENFORCE_UNIQUE_TAG),
      (0xec, handle_builder_fee L, ENFORCE_UNIQUE_TAG)]"

definition verify_builder_info :: "s_builder_info_ctx \<Rightarrow> bool" where
  "verify_builder_info out \<longleftrightarrow> tlv_check_received [0xd3, 0xec] out"

definition parse_builder_info ::
  "tlv_lib \<Rightarrow> byte list \<Rightarrow> s_builder_info_ctx \<Rightarrow> s_builder_info_ctx result" where
  "parse_builder_info L payload out =
     rbind (tlv_parser L (BUILDER_INFO_TAGS L) no_common payload out) (\<lambda>c.
     check (verify_builder_info c) c)"

definition builder_addr_str :: "byte list \<Rightarrow> string" where
  "builder_addr_str addr =
     ''0x'' @ snd (bytes_to_lowercase_hex (2 + ADDRESS_LENGTH * 2 + 1 - 2) addr)"

definition builder_serialize :: "cmp_lib \<Rightarrow> s_builder_info \<Rightarrow> ser" where
  "builder_serialize C b = ser_seq
     [cmp_write_str C ''builder'' 7,
      cmp_write_map C 2,
      cmp_write_str C ''b'' 1,
      cmp_write_str C (builder_addr_str (bi_builder b)) (length (builder_addr_str (bi_builder b))),
      cmp_write_str C ''f'' 1,
      cmp_write_uinteger C (bi_fee b)]"

section \<open>The bulk order\<close>

definition bulk_handle_order ::
  "tlv_lib \<Rightarrow> s_action_metadata option \<Rightarrow> s_bulk_order_ctx handler" where
  "bulk_handle_order L md d out =
     (let b = bulk_order out in
      if bo_order_count b \<ge> BULK_MAX_SIZE then Inl Reject
      else
        let out = out\<lparr>order_ctx := s_order_request_ctx_0\<rparr> in
        rbind (arr_get (bo_orders b) (bo_order_count b)) (\<lambda>slot.
        rbind (parse_order_request L md (td_value d) ((order_ctx out)\<lparr>order_request := slot\<rparr>)) (\<lambda>oc.
        rbind (arr_set (bo_orders b) (bo_order_count b) (order_request oc)) (\<lambda>orders.
        Inr (out\<lparr>order_ctx := oc,
                 bulk_order := b\<lparr>bo_orders := orders, bo_order_count := bo_order_count b + 1\<rparr>\<rparr>)))))"

definition handle_grouping :: "tlv_lib \<Rightarrow> s_bulk_order_ctx handler" where
  "handle_grouping L d out = rbind (of_opt (get_uint8 L d)) (\<lambda>b.
     rbind (of_opt (enum_of grouping_code [GROUPING_NA, GROUPING_NORMAL_TPSL, GROUPING_POSITION_TPSL] b)) (\<lambda>g.
     Inr (out\<lparr>bulk_order := (bulk_order out)\<lparr>bo_grouping := g\<rparr>\<rparr>)))"

definition handle_builder :: "tlv_lib \<Rightarrow> s_bulk_order_ctx handler" where
  "handle_builder L d out =
     rbind (parse_builder_info L (td_value d)
              ((builder_info_ctx out)\<lparr>builder_info := bo_builder (bulk_order out)\<rparr>)) (\<lambda>bc.
     Inr (out\<lparr>builder_info_ctx := bc,
              bulk_order := (bulk_order out)\<lparr>bo_builder := builder_info bc, bo_has_builder := True\<rparr>\<rparr>))"

definition BULK_ORDER_TAGS ::
  "tlv_lib \<Rightarrow> s_action_metadata option \<Rightarrow> s_bulk_order_ctx tag_table" where
  "BULK_ORDER_TAGS L md =
     [(0xdd, bulk_handle_order L md, ALLOW_MULTIPLE_TAG),
      (0xea, handle_grouping L, ENFORCE_UNIQUE_TAG),
      (0xeb, handle_builder L, ENFORCE_UNIQUE_TAG)]"

definition verify_bulk_order :: "s_bulk_order_ctx \<Rightarrow> bool" where
  "verify_bulk_order out \<longleftrightarrow> tlv_check_received [0xdd, 0xea] out"

definition parse_bulk_order ::
  "tlv_lib \<Rightarrow> s_action_metadata option \<Rightarrow> byte list \<Rightarrow> s_bulk_order_ctx \<Rightarrow> s_bulk_order_ctx result" where
  "parse_bulk_order L md payload out =
     rbind (tlv_parser L (BULK_ORDER_TAGS L md) no_common payload out) (\<lambda>c.
     check (verify_bulk_order c) c)"

definition bulk_order_serialize :: "cmp_lib \<Rightarrow> s_bulk_order \<Rightarrow> ser" where
  "bulk_order_serialize C b = ser_seq
     [cmp_write_map C (if bo_has_builder b then 4 else 3),
      cmp_write_str C ''type'' 4,
      cmp_write_str C ''order'' 5,
      cmp_write_str C ''orders'' 6,
      cmp_write_array C (bo_order_count b),
      ser_for (bo_order_count b) (\<lambda>i. order_request_serialize C (bo_orders b ! i)),
      cmp_write_str C ''grouping'' 8,
      (case bo_grouping b of
         GROUPING_NA \<Rightarrow> cmp_write_str C ''na'' 2
       | GROUPING_NORMAL_TPSL \<Rightarrow> cmp_write_str C ''normalTpsl'' 10
       | GROUPING_POSITION_TPSL \<Rightarrow> cmp_write_str C ''positionTpsl'' 12),
      (if bo_has_builder b then builder_serialize C (bo_builder b) else ser_skip)]"

section \<open>What a parsed bulk order satisfies\<close>

definition builder_ctx_inv :: "s_builder_info_ctx \<Rightarrow> bool" where
  "builder_ctx_inv c \<longleftrightarrow> length (bi_builder (builder_info c)) = ADDRESS_LENGTH"

definition bulk_order_wf :: "s_action_metadata option \<Rightarrow> s_bulk_order \<Rightarrow> bool" where
  "bulk_order_wf md b \<longleftrightarrow>
     1 \<le> bo_order_count b \<and> bo_order_count b \<le> BULK_MAX_SIZE \<and>
     length (bo_orders b) = BULK_MAX_SIZE \<and> length (bi_builder (bo_builder b)) = ADDRESS_LENGTH \<and>
     list_all (order_wf_md md) (take (bo_order_count b) (bo_orders b))"

definition bulk_order_ctx_inv :: "s_action_metadata option \<Rightarrow> s_bulk_order_ctx \<Rightarrow> bool" where
  "bulk_order_ctx_inv md c \<longleftrightarrow> (let b = bulk_order c; R = set (received_tags c) in
     (0xdd \<in> R \<longrightarrow> 1 \<le> bo_order_count b) \<and> bo_order_count b \<le> BULK_MAX_SIZE \<and>
     length (bo_orders b) = BULK_MAX_SIZE \<and> length (bi_builder (bo_builder b)) = ADDRESS_LENGTH \<and>
     filled (order_wf_md md) (\<lambda>r. \<not> or_has_cloid r) (bo_order_count b) (bo_orders b) \<and>
     (0xeb \<notin> R \<longrightarrow> received_tags (builder_info_ctx c) = []))"

interpretation builder_tlv:
  tlv_struct "BUILDER_INFO_TAGS L" no_common builder_ctx_inv "tlv_lib_ok L" for L
proof (unfold_locales, goal_cases)
  case (1 d h c c1 c2)
  then show ?case
    by (auto simp: BUILDER_INFO_TAGS_def handle_builder_address_def handle_builder_fee_def
        rbind_Inr_conv split: if_splits)
next
  case (2 c d h c1 c2)
  then show ?case
    by (auto simp: BUILDER_INFO_TAGS_def handle_builder_address_def handle_builder_fee_def
        rbind_Inr_conv builder_ctx_inv_def dest!: read_bytes_length split: if_splits)
next
  case (3 c d h)
  then show ?case
    by (auto simp: BUILDER_INFO_TAGS_def handle_builder_address_def handle_builder_fee_def
        intro!: no_ub_rbind split: if_splits) (metis get_buffer_read)
qed

lemma parse_builder_info_spec:
  assumes "tlv_lib_ok L" "received_tags c = []" "builder_ctx_inv c"
  shows "no_ub (parse_builder_info L p c)"
    and "parse_builder_info L p c = Inr c' \<Longrightarrow> builder_ctx_inv c'"
proof -
  note spec = builder_tlv.parser_spec [OF assms(1) tlv_lib_okD [OF assms(1)] assms(3,2)]
  show "no_ub (parse_builder_info L p c)"
    using spec(1) by (simp add: parse_builder_info_def no_ub_rbind)
  show "parse_builder_info L p c = Inr c' \<Longrightarrow> builder_ctx_inv c'"
    using spec(2) by (auto simp: parse_builder_info_def rbind_Inr_conv)
qed

lemma bulk_handlerE:
  assumes "find_handler (BULK_ORDER_TAGS L md) t = Some h"
  obtains (order) "t = 0xdd" "h = bulk_handle_order L md"
  | (grouping) "t = 0xea" "h = handle_grouping L"
  | (builder) "t = 0xeb" "h = handle_builder L"
  using assms by (auto simp: BULK_ORDER_TAGS_def split: if_splits)

lemma bulk_handle_order_spec:
  assumes "tlv_lib_ok L" "md \<noteq> None" "bulk_order_ctx_inv md c"
  shows "no_ub (bulk_handle_order L md d c)"
    and "bulk_handle_order L md d c = Inr c' \<Longrightarrow>
      received_tags c' = received_tags c \<and> bulk_order_ctx_inv md (mark_received 0xdd c')"
proof -
  let ?b = "bulk_order c"
  let ?n = "bo_order_count ?b"
  have len: "length (bo_orders ?b) = 5"
    using assms(3) by (simp add: bulk_order_ctx_inv_def Let_def)
  have wiped: "order_ctx_wiped (s_order_request_ctx_0\<lparr>order_request := bo_orders ?b ! ?n\<rparr>)" if "?n < 5"
    using assms(3) filled_free [of _ _ ?n "bo_orders ?b"] len that
    by (auto simp: bulk_order_ctx_inv_def Let_def order_ctx_wiped_def zero_defs)
  show "no_ub (bulk_handle_order L md d c)"
    using assms(1,2) len wiped
    by (auto simp: bulk_handle_order_def Let_def intro!: no_ub_rbind parse_order_request_no_ub)
  assume run: "bulk_handle_order L md d c = Inr c'"
  then obtain oc where n: "?n < 5"
    and oc: "parse_order_request L md (td_value d)
              (s_order_request_ctx_0\<lparr>order_request := bo_orders ?b ! ?n\<rparr>) = Inr oc"
    and c': "c' = c\<lparr>order_ctx := oc, bulk_order := ?b\<lparr>bo_orders := (bo_orders ?b)[?n := order_request oc],
                  bo_order_count := ?n + 1\<rparr>\<rparr>"
    using len by (auto simp: bulk_handle_order_def Let_def rbind_Inr_conv split: if_splits)
  have "order_wf_md md (order_request oc)"
    using parse_order_request_wf [OF assms(1) wiped [OF n] oc] .
  then show "received_tags c' = received_tags c \<and> bulk_order_ctx_inv md (mark_received 0xdd c')"
    using assms(3) n len filled_push [of _ _ ?n "bo_orders ?b" "order_request oc"]
    by (simp add: c' bulk_order_ctx_inv_def Let_def)
qed

interpretation bulk_order_tlv:
  tlv_struct "BULK_ORDER_TAGS L md" no_common "bulk_order_ctx_inv md" "tlv_lib_ok L \<and> md \<noteq> None" for L md
proof (unfold_locales, goal_cases)
  case (1 d h c c1 c2)
  from 1(1) show ?case
    by (cases rule: bulk_handlerE)
       (use 1(2,3) in \<open>auto simp: bulk_handle_order_def handle_grouping_def handle_builder_def
          rbind_Inr_conv Let_def split: if_splits\<close>)
next
  case (2 c d h c1 c2)
  then have ok: "tlv_lib_ok L" "md \<noteq> None" "h d c = Inr c2" by auto
  from 2(3) show ?case
  proof (cases rule: bulk_handlerE)
    case order
    with bulk_handle_order_spec(2) [OF ok(1,2) 2(2)] ok(3) show ?thesis by simp
  next
    case grouping
    with 2(2) ok(3) show ?thesis
      by (auto simp: handle_grouping_def rbind_Inr_conv bulk_order_ctx_inv_def Let_def)
  next
    case builder
    with 2(4) have "0xeb \<notin> set (received_tags c)" by (simp add: BULK_ORDER_TAGS_def)
    with 2(2) have sub: "received_tags (builder_info_ctx c) = []"
      "length (bi_builder (bo_builder (bulk_order c))) = ADDRESS_LENGTH"
      by (simp_all add: bulk_order_ctx_inv_def Let_def)
    from builder ok(3) obtain bc where bc: "parse_builder_info L (td_value d)
        ((builder_info_ctx c)\<lparr>builder_info := bo_builder (bulk_order c)\<rparr>) = Inr bc"
      "c2 = c\<lparr>builder_info_ctx := bc,
         bulk_order := (bulk_order c)\<lparr>bo_builder := builder_info bc, bo_has_builder := True\<rparr>\<rparr>"
      by (auto simp: handle_builder_def rbind_Inr_conv)
    have "builder_ctx_inv bc"
      using sub by (intro parse_builder_info_spec(2) [OF ok(1) _ _ bc(1)]) (simp_all add: builder_ctx_inv_def)
    with 2(2) builder bc(2) show ?thesis
      by (simp add: bulk_order_ctx_inv_def Let_def builder_ctx_inv_def)
  qed
next
  case (3 c d h)
  then have ok: "tlv_lib_ok L" "md \<noteq> None" by auto
  from 3(3) show ?case
  proof (cases rule: bulk_handlerE)
    case order
    with bulk_handle_order_spec(1) [OF ok 3(2)] show ?thesis by simp
  next
    case grouping
    then show ?thesis by (auto simp: handle_grouping_def intro!: no_ub_rbind)
  next
    case builder
    with 3(4) have "0xeb \<notin> set (received_tags c)" by (simp add: BULK_ORDER_TAGS_def)
    with 3(2) builder show ?thesis
      by (auto simp: bulk_order_ctx_inv_def Let_def handle_builder_def builder_ctx_inv_def
          intro!: no_ub_rbind parse_builder_info_spec(1) [OF ok(1)])
  qed
qed

lemma bulk_order_ctx_inv_0: "bulk_order_ctx_inv md s_bulk_order_ctx_0"
  by (auto simp: bulk_order_ctx_inv_def zero_defs Let_def intro!: filled_replicate)

lemma parse_bulk_order_no_ub:
  "tlv_lib_ok L \<Longrightarrow> md \<noteq> None \<Longrightarrow> no_ub (parse_bulk_order L md p s_bulk_order_ctx_0)"
  using bulk_order_tlv.parser_spec(1) [OF _ _ bulk_order_ctx_inv_0, of L md]
  by (simp add: parse_bulk_order_def no_ub_rbind tlv_lib_okD zero_defs)

lemma parse_bulk_order_wf:
  assumes "tlv_lib_ok L" "md \<noteq> None" "parse_bulk_order L md p s_bulk_order_ctx_0 = Inr c"
  shows "bulk_order_wf md (bulk_order c)"
proof -
  from assms(3) have run: "tlv_parser L (BULK_ORDER_TAGS L md) no_common p s_bulk_order_ctx_0 = Inr c"
    and ver: "verify_bulk_order c"
    by (auto simp: parse_bulk_order_def rbind_Inr_conv)
  have "bulk_order_ctx_inv md c"
    using assms(1,2) by (intro bulk_order_tlv.parser_spec(2) [OF _ _ bulk_order_ctx_inv_0 _ run])
      (simp_all add: tlv_lib_okD zero_defs)
  with ver show ?thesis
    by (simp add: bulk_order_ctx_inv_def bulk_order_wf_def Let_def filled_def verify_bulk_order_def)
qed

section \<open>The MessagePack value of a bulk order\<close>

primrec grouping_str :: "e_grouping \<Rightarrow> string" where
  "grouping_str GROUPING_NA = ''na''"
| "grouping_str GROUPING_NORMAL_TPSL = ''normalTpsl''"
| "grouping_str GROUPING_POSITION_TPSL = ''positionTpsl''"

definition builder_entry :: "s_builder_info \<Rightarrow> string \<times> mp" where
  "builder_entry b = (''builder'', MMap
     [(''b'', MStr (builder_addr_str (bi_builder b))), (''f'', MInt (uint (bi_fee b)))])"

definition bulk_order_mp :: "s_bulk_order \<Rightarrow> mp" where
  "bulk_order_mp b = MMap
     ([(''type'', MStr ''order''),
       (''orders'', MArr (map order_request_mp (take (bo_order_count b) (bo_orders b)))),
       (''grouping'', MStr (grouping_str (bo_grouping b)))]
      @ (if bo_has_builder b then [builder_entry (bo_builder b)] else []))"

definition bulk_order_counts :: "s_bulk_order \<Rightarrow> bool" where
  "bulk_order_counts b \<longleftrightarrow> bo_order_count b \<le> length (bo_orders b)"

lemma writes_builder: "writes (builder_serialize C b) (kv_bytes C (builder_entry b))"
  unfolding builder_serialize_def
  by (rule writes_cong, (rule writes_intros | (simp; fail))+,
      simp add: builder_entry_def mp_bytes_simps eval_nat_numeral)

lemma writes_bulk_order:
  assumes "bulk_order_counts b"
  shows "writes (bulk_order_serialize C b) (mp_bytes C (bulk_order_mp b))"
proof -
  let ?os = "take (bo_order_count b) (bo_orders b)"
  have loop: "writes (ser_for (bo_order_count b) (\<lambda>i. order_request_serialize C (bo_orders b ! i)))
      (concat (map (mp_bytes C) (map order_request_mp ?os)))"
    using assms by (intro order_ser.loop) (simp_all add: bulk_order_counts_def list_all_iff)
  have grouping: "writes (case bo_grouping b of GROUPING_NA \<Rightarrow> cmp_write_str C ''na'' 2
      | GROUPING_NORMAL_TPSL \<Rightarrow> cmp_write_str C ''normalTpsl'' 10
      | GROUPING_POSITION_TPSL \<Rightarrow> cmp_write_str C ''positionTpsl'' 12)
      (mp_bytes C (MStr (grouping_str (bo_grouping b))))"
    by (cases "bo_grouping b") (simp_all add: writes_str del: mp_bytes.simps)
  have builder: "writes (if bo_has_builder b then builder_serialize C (bo_builder b) else ser_skip)
      (if bo_has_builder b then kv_bytes C (builder_entry (bo_builder b)) else [])"
    by (simp add: writes_builder writes_skip)
  have len: "length ?os = bo_order_count b" using assms by (simp add: bulk_order_counts_def)
  note parts = loop grouping builder writes_intros
  show ?thesis
    unfolding bulk_order_serialize_def
    by (rule writes_cong, (rule parts | (simp; fail))+,
        simp add: bulk_order_mp_def mp_bytes_simps eval_nat_numeral len del: length_take)
qed

interpretation bulk_order_ser: serializer "bulk_order_serialize C" bulk_order_mp C bulk_order_counts for C
  by unfold_locales (rule writes_bulk_order)

lemma bulk_order_wf_counts: "bulk_order_wf md b \<Longrightarrow> bulk_order_counts b"
  by (simp add: bulk_order_wf_def bulk_order_counts_def)

end
