(* ===== verification/Bulk_Modify.thy ===== *)
theory Bulk_Modify
  imports Order_Request
begin

text \<open>
  A bulk modify (\<open>bulk_modify.h\<close>, \<open>bulk_modify.c\<close>): up to \<open>BULK_MAX_SIZE\<close> pairs of an order id and
  the order that replaces it. Each modify request has a sub-context of its own, wiped before the
  request is parsed, inside which the order has one too.
\<close>

section \<open>Structs\<close>

record s_modify_request =
  mr_oid :: u64
  mr_order :: s_order_request

record s_modify_request_ctx = tlv_ctx +
  modify_request :: s_modify_request
  mr_order_ctx :: s_order_request_ctx

record s_bulk_modify =
  bm_modify_count :: nat
  bm_modifies :: "s_modify_request list"

record s_bulk_modify_ctx = tlv_ctx +
  bulk_modify :: s_bulk_modify
  modify_request_ctx :: s_modify_request_ctx

definition s_modify_request_0 :: s_modify_request where [zero_defs]:
  "s_modify_request_0 = \<lparr>mr_oid = 0, mr_order = s_order_request_0\<rparr>"

definition s_modify_request_ctx_0 :: s_modify_request_ctx where [zero_defs]:
  "s_modify_request_ctx_0 = \<lparr>received_tags = [], modify_request = s_modify_request_0,
     mr_order_ctx = s_order_request_ctx_0\<rparr>"

definition s_bulk_modify_0 :: s_bulk_modify where [zero_defs]:
  "s_bulk_modify_0 = \<lparr>bm_modify_count = 0, bm_modifies = replicate BULK_MAX_SIZE s_modify_request_0\<rparr>"

definition s_bulk_modify_ctx_0 :: s_bulk_modify_ctx where [zero_defs]:
  "s_bulk_modify_ctx_0 = \<lparr>received_tags = [], bulk_modify = s_bulk_modify_0,
     modify_request_ctx = s_modify_request_ctx_0\<rparr>"

lemma modify_request_ctx_simps [simp]:
  "received_tags (c\<lparr>modify_request := m\<rparr>) = received_tags c"
  "received_tags (c\<lparr>mr_order_ctx := oc\<rparr>) = received_tags c"
  "modify_request (mark_received t c) = modify_request c"
  "mr_order_ctx (mark_received t c) = mr_order_ctx c"
  by (cases c; simp add: mark_received_def)+

lemma bulk_modify_ctx_simps [simp]:
  "received_tags (c\<lparr>bulk_modify := b\<rparr>) = received_tags c"
  "received_tags (c\<lparr>modify_request_ctx := mc\<rparr>) = received_tags c"
  "bulk_modify (mark_received t c) = bulk_modify c"
  "modify_request_ctx (mark_received t c) = modify_request_ctx c"
  by (cases c; simp add: mark_received_def)+

section \<open>A modify request\<close>

definition modify_handle_order ::
  "tlv_lib \<Rightarrow> s_action_metadata option \<Rightarrow> s_modify_request_ctx handler" where
  "modify_handle_order L md d out =
     rbind (parse_order_request L md (td_value d)
              ((mr_order_ctx out)\<lparr>order_request := mr_order (modify_request out)\<rparr>)) (\<lambda>oc.
     Inr (out\<lparr>mr_order_ctx := oc,
              modify_request := (modify_request out)\<lparr>mr_order := order_request oc\<rparr>\<rparr>))"

definition modify_handle_oid :: "tlv_lib \<Rightarrow> s_modify_request_ctx handler" where
  "modify_handle_oid L d out = rbind (of_opt (get_uint64 L d)) (\<lambda>i.
     Inr (out\<lparr>modify_request := (modify_request out)\<lparr>mr_oid := i\<rparr>\<rparr>))"

definition MODIFY_REQUEST_TAGS ::
  "tlv_lib \<Rightarrow> s_action_metadata option \<Rightarrow> s_modify_request_ctx tag_table" where
  "MODIFY_REQUEST_TAGS L md =
     [(0xdd, modify_handle_order L md, ENFORCE_UNIQUE_TAG),
      (0xdc, modify_handle_oid L, ENFORCE_UNIQUE_TAG)]"

definition verify_modify_request :: "s_modify_request_ctx \<Rightarrow> bool" where
  "verify_modify_request out \<longleftrightarrow> tlv_check_received [0xdd, 0xdc] out"

definition parse_modify_request ::
  "tlv_lib \<Rightarrow> s_action_metadata option \<Rightarrow> byte list \<Rightarrow> s_modify_request_ctx \<Rightarrow>
   s_modify_request_ctx result" where
  "parse_modify_request L md payload out =
     rbind (tlv_parser L (MODIFY_REQUEST_TAGS L md) no_common payload out) (\<lambda>c.
     check (verify_modify_request c) c)"

definition modify_request_serialize :: "cmp_lib \<Rightarrow> s_modify_request \<Rightarrow> ser" where
  "modify_request_serialize C m = ser_seq
     [cmp_write_map C 2,
      cmp_write_str C ''oid'' 3,
      cmp_write_uinteger C (mr_oid m),
      cmp_write_str C ''order'' 5,
      order_request_serialize C (mr_order m)]"

section \<open>The bulk modify\<close>

definition handle_modify_request ::
  "tlv_lib \<Rightarrow> s_action_metadata option \<Rightarrow> s_bulk_modify_ctx handler" where
  "handle_modify_request L md d out =
     (let b = bulk_modify out in
      if bm_modify_count b \<ge> BULK_MAX_SIZE then Inl Reject
      else
        let out = out\<lparr>modify_request_ctx := s_modify_request_ctx_0\<rparr> in
        rbind (arr_get (bm_modifies b) (bm_modify_count b)) (\<lambda>slot.
        rbind (parse_modify_request L md (td_value d)
                 ((modify_request_ctx out)\<lparr>modify_request := slot\<rparr>)) (\<lambda>mc.
        rbind (arr_set (bm_modifies b) (bm_modify_count b) (modify_request mc)) (\<lambda>ms.
        Inr (out\<lparr>modify_request_ctx := mc,
                 bulk_modify := b\<lparr>bm_modifies := ms, bm_modify_count := bm_modify_count b + 1\<rparr>\<rparr>)))))"

definition BULK_MODIFY_TAGS ::
  "tlv_lib \<Rightarrow> s_action_metadata option \<Rightarrow> s_bulk_modify_ctx tag_table" where
  "BULK_MODIFY_TAGS L md = [(0xd8, handle_modify_request L md, ALLOW_MULTIPLE_TAG)]"

definition verify_bulk_modify :: "s_bulk_modify_ctx \<Rightarrow> bool" where
  "verify_bulk_modify out \<longleftrightarrow> tlv_check_received [0xd8] out"

definition parse_bulk_modify ::
  "tlv_lib \<Rightarrow> s_action_metadata option \<Rightarrow> byte list \<Rightarrow> s_bulk_modify_ctx \<Rightarrow> s_bulk_modify_ctx result" where
  "parse_bulk_modify L md payload out =
     rbind (tlv_parser L (BULK_MODIFY_TAGS L md) no_common payload out) (\<lambda>c.
     check (verify_bulk_modify c) c)"

definition bulk_modify_serialize :: "cmp_lib \<Rightarrow> s_bulk_modify \<Rightarrow> ser" where
  "bulk_modify_serialize C b = ser_seq
     [cmp_write_map C 2,
      cmp_write_str C ''type'' 4,
      cmp_write_str C ''batchModify'' 11,
      cmp_write_str C ''modifies'' 8,
      cmp_write_array C (bm_modify_count b),
      ser_for (bm_modify_count b) (\<lambda>i. modify_request_serialize C (bm_modifies b ! i))]"

section \<open>What a parsed bulk modify satisfies\<close>

definition modify_ctx_inv :: "s_action_metadata option \<Rightarrow> s_modify_request_ctx \<Rightarrow> bool" where
  "modify_ctx_inv md c \<longleftrightarrow>
     (if 0xdd \<in> set (received_tags c) then order_wf_md md (mr_order (modify_request c))
      else order_ctx_wiped ((mr_order_ctx c)\<lparr>order_request := mr_order (modify_request c)\<rparr>))"

definition bulk_modify_wf :: "s_action_metadata option \<Rightarrow> s_bulk_modify \<Rightarrow> bool" where
  "bulk_modify_wf md b \<longleftrightarrow>
     1 \<le> bm_modify_count b \<and> bm_modify_count b \<le> BULK_MAX_SIZE \<and>
     length (bm_modifies b) = BULK_MAX_SIZE \<and>
     list_all (\<lambda>m. order_wf_md md (mr_order m)) (take (bm_modify_count b) (bm_modifies b))"

definition bulk_modify_ctx_inv :: "s_action_metadata option \<Rightarrow> s_bulk_modify_ctx \<Rightarrow> bool" where
  "bulk_modify_ctx_inv md c \<longleftrightarrow> (let b = bulk_modify c in
     (0xd8 \<in> set (received_tags c) \<longrightarrow> 1 \<le> bm_modify_count b) \<and> bm_modify_count b \<le> BULK_MAX_SIZE \<and>
     length (bm_modifies b) = BULK_MAX_SIZE \<and>
     filled (\<lambda>m. order_wf_md md (mr_order m)) (\<lambda>m. \<not> or_has_cloid (mr_order m))
       (bm_modify_count b) (bm_modifies b))"

lemma modify_handle_order_spec:
  assumes "tlv_lib_ok L" "md \<noteq> None" "modify_ctx_inv md c" "0xdd \<notin> set (received_tags c)"
  shows "no_ub (modify_handle_order L md d c)"
    and "modify_handle_order L md d c = Inr c' \<Longrightarrow> modify_ctx_inv md (mark_received 0xdd c')"
proof -
  have wiped: "order_ctx_wiped ((mr_order_ctx c)\<lparr>order_request := mr_order (modify_request c)\<rparr>)"
    using assms(3,4) by (simp add: modify_ctx_inv_def)
  show "no_ub (modify_handle_order L md d c)"
    using assms(1,2) wiped
    by (auto simp: modify_handle_order_def intro!: no_ub_rbind parse_order_request_no_ub)
  show "modify_handle_order L md d c = Inr c' \<Longrightarrow> modify_ctx_inv md (mark_received 0xdd c')"
    using parse_order_request_wf [OF assms(1) wiped]
    by (auto simp: modify_handle_order_def rbind_Inr_conv modify_ctx_inv_def)
qed

interpretation modify_tlv:
  tlv_struct "MODIFY_REQUEST_TAGS L md" no_common "modify_ctx_inv md" "tlv_lib_ok L \<and> md \<noteq> None" for L md
proof (unfold_locales, goal_cases)
  case (1 d h c c1 c2)
  then show ?case
    by (auto simp: MODIFY_REQUEST_TAGS_def modify_handle_order_def modify_handle_oid_def
        rbind_Inr_conv split: if_splits)
next
  case (2 c d h c1 c2)
  then show ?case
    using modify_handle_order_spec(2) [of L md c d c2]
    by (auto simp: MODIFY_REQUEST_TAGS_def modify_handle_oid_def rbind_Inr_conv modify_ctx_inv_def
        split: if_splits)
next
  case (3 c d h)
  then show ?case
    using modify_handle_order_spec(1) [of L md c d]
    by (auto simp: MODIFY_REQUEST_TAGS_def modify_handle_oid_def intro!: no_ub_rbind split: if_splits)
qed

lemma parse_modify_request_spec:
  assumes "tlv_lib_ok L" "md \<noteq> None" "received_tags c = []" "modify_ctx_inv md c"
  shows "no_ub (parse_modify_request L md p c)"
    and "parse_modify_request L md p c = Inr c' \<Longrightarrow> order_wf_md md (mr_order (modify_request c'))"
proof -
  have "tlv_lib_ok L \<and> md \<noteq> None" using assms by simp
  note spec = modify_tlv.parser_spec [OF this tlv_lib_okD [OF assms(1)] assms(4,3)]
  show "no_ub (parse_modify_request L md p c)"
    using spec(1) by (simp add: parse_modify_request_def no_ub_rbind)
  show "parse_modify_request L md p c = Inr c' \<Longrightarrow> order_wf_md md (mr_order (modify_request c'))"
    using spec(2) by (auto simp: parse_modify_request_def rbind_Inr_conv verify_modify_request_def
        modify_ctx_inv_def)
qed

lemma handle_modify_request_spec:
  assumes "tlv_lib_ok L" "md \<noteq> None" "bulk_modify_ctx_inv md c"
  shows "no_ub (handle_modify_request L md d c)"
    and "handle_modify_request L md d c = Inr c' \<Longrightarrow> bulk_modify_ctx_inv md (mark_received 0xd8 c')"
proof -
  let ?b = "bulk_modify c"
  let ?n = "bm_modify_count ?b"
  let ?mc = "s_modify_request_ctx_0\<lparr>modify_request := bm_modifies ?b ! ?n\<rparr>"
  have len: "length (bm_modifies ?b) = 5"
    using assms(3) by (simp add: bulk_modify_ctx_inv_def Let_def)
  have wiped: "received_tags ?mc = []" "modify_ctx_inv md ?mc" if "?n < 5"
    using assms(3) filled_free [of _ _ ?n "bm_modifies ?b"] len that
    by (auto simp: bulk_modify_ctx_inv_def Let_def modify_ctx_inv_def order_ctx_wiped_def zero_defs)
  show "no_ub (handle_modify_request L md d c)"
    using len wiped parse_modify_request_spec(1) [OF assms(1,2)]
    by (auto simp: handle_modify_request_def Let_def intro!: no_ub_rbind)
  assume run: "handle_modify_request L md d c = Inr c'"
  then obtain mc where n: "?n < 5" and mc: "parse_modify_request L md (td_value d) ?mc = Inr mc"
    and c': "c' = c\<lparr>modify_request_ctx := mc, bulk_modify := ?b\<lparr>
       bm_modifies := (bm_modifies ?b)[?n := modify_request mc], bm_modify_count := ?n + 1\<rparr>\<rparr>"
    using len by (auto simp: handle_modify_request_def Let_def rbind_Inr_conv split: if_splits)
  have "order_wf_md md (mr_order (modify_request mc))"
    using parse_modify_request_spec(2) [OF assms(1,2) wiped [OF n] mc] .
  then show "bulk_modify_ctx_inv md (mark_received 0xd8 c')"
    using assms(3) n len filled_push [of _ _ ?n "bm_modifies ?b" "modify_request mc"]
    by (simp add: c' bulk_modify_ctx_inv_def Let_def)
qed

interpretation bulk_modify_tlv:
  tlv_struct "BULK_MODIFY_TAGS L md" no_common "bulk_modify_ctx_inv md" "tlv_lib_ok L \<and> md \<noteq> None" for L md
proof (unfold_locales, goal_cases)
  case (1 d h c c1 c2)
  then show ?case
    by (auto simp: BULK_MODIFY_TAGS_def handle_modify_request_def rbind_Inr_conv Let_def split: if_splits)
next
  case (2 c d h c1 c2)
  then show ?case
    using handle_modify_request_spec(2) [of L md c d c2] by (auto simp: BULK_MODIFY_TAGS_def split: if_splits)
next
  case (3 c d h)
  then show ?case
    using handle_modify_request_spec(1) [of L md c d] by (auto simp: BULK_MODIFY_TAGS_def split: if_splits)
qed

lemma bulk_modify_ctx_inv_0: "bulk_modify_ctx_inv md s_bulk_modify_ctx_0"
  by (auto simp: bulk_modify_ctx_inv_def zero_defs Let_def intro!: filled_replicate)

lemma parse_bulk_modify_no_ub:
  "tlv_lib_ok L \<Longrightarrow> md \<noteq> None \<Longrightarrow> no_ub (parse_bulk_modify L md p s_bulk_modify_ctx_0)"
  using bulk_modify_tlv.parser_spec(1) [OF _ _ bulk_modify_ctx_inv_0, of L md]
  by (simp add: parse_bulk_modify_def no_ub_rbind tlv_lib_okD zero_defs)

lemma parse_bulk_modify_wf:
  assumes "tlv_lib_ok L" "md \<noteq> None" "parse_bulk_modify L md p s_bulk_modify_ctx_0 = Inr c"
  shows "bulk_modify_wf md (bulk_modify c)"
proof -
  from assms(3) have run: "tlv_parser L (BULK_MODIFY_TAGS L md) no_common p s_bulk_modify_ctx_0 = Inr c"
    and ver: "verify_bulk_modify c"
    by (auto simp: parse_bulk_modify_def rbind_Inr_conv)
  have "bulk_modify_ctx_inv md c"
    using assms(1,2) by (intro bulk_modify_tlv.parser_spec(2) [OF _ _ bulk_modify_ctx_inv_0 _ run])
      (simp_all add: tlv_lib_okD zero_defs)
  with ver show ?thesis
    by (simp add: bulk_modify_ctx_inv_def bulk_modify_wf_def Let_def filled_def verify_bulk_modify_def)
qed

section \<open>The MessagePack value of a bulk modify\<close>

definition modify_request_mp :: "s_modify_request \<Rightarrow> mp" where
  "modify_request_mp m = MMap
     [(''oid'', MInt (uint (mr_oid m))), (''order'', order_request_mp (mr_order m))]"

definition bulk_modify_mp :: "s_bulk_modify \<Rightarrow> mp" where
  "bulk_modify_mp b = MMap
     [(''type'', MStr ''batchModify''),
      (''modifies'', MArr (map modify_request_mp (take (bm_modify_count b) (bm_modifies b))))]"

definition bulk_modify_counts :: "s_bulk_modify \<Rightarrow> bool" where
  "bulk_modify_counts b \<longleftrightarrow> bm_modify_count b \<le> length (bm_modifies b)"

interpretation modify_ser: serializer "modify_request_serialize C" modify_request_mp C "\<lambda>_. True" for C
proof unfold_locales
  fix m :: s_modify_request
  show "writes (modify_request_serialize C m) (mp_bytes C (modify_request_mp m))"
    unfolding modify_request_serialize_def
    by (rule writes_cong, (rule writes_intros | (simp; fail))+,
        simp add: modify_request_mp_def mp_bytes_simps eval_nat_numeral)
qed

lemma writes_bulk_modify:
  assumes "bulk_modify_counts b"
  shows "writes (bulk_modify_serialize C b) (mp_bytes C (bulk_modify_mp b))"
proof -
  let ?ms = "take (bm_modify_count b) (bm_modifies b)"
  have loop: "writes (ser_for (bm_modify_count b) (\<lambda>i. modify_request_serialize C (bm_modifies b ! i)))
      (concat (map (mp_bytes C) (map modify_request_mp ?ms)))"
    using assms by (intro modify_ser.loop) (simp_all add: bulk_modify_counts_def list_all_iff)
  have len: "length ?ms = bm_modify_count b" using assms by (simp add: bulk_modify_counts_def)
  note parts = loop writes_intros
  show ?thesis
    unfolding bulk_modify_serialize_def
    by (rule writes_cong, (rule parts | (simp; fail))+,
        simp add: bulk_modify_mp_def mp_bytes_simps eval_nat_numeral len del: length_take)
qed

interpretation bulk_modify_ser: serializer "bulk_modify_serialize C" bulk_modify_mp C bulk_modify_counts for C
  by unfold_locales (rule writes_bulk_modify)

lemma bulk_modify_wf_counts: "bulk_modify_wf md b \<Longrightarrow> bulk_modify_counts b"
  by (simp add: bulk_modify_wf_def bulk_modify_counts_def)

end
