(* ===== verification/Bulk_Cancel.thy ===== *)
theory Bulk_Cancel
  imports Metadata_Types Tlv Msgpack_Writer
begin

text \<open>
  A bulk cancel (\<open>bulk_cancel.h\<close>, \<open>bulk_cancel.c\<close>): up to \<open>BULK_MAX_SIZE\<close> pairs of an asset and an
  order id, each checked against the asset of the metadata.
\<close>

section \<open>Structs\<close>

record s_cancel_request =
  cr_asset :: u32
  cr_oid :: u64

record s_cancel_request_ctx = tlv_ctx +
  cancel_request :: s_cancel_request

record s_bulk_cancel =
  bc_cancel_count :: nat
  bc_cancels :: "s_cancel_request list"

record s_bulk_cancel_ctx = tlv_ctx +
  bulk_cancel :: s_bulk_cancel
  cancel_request_ctx :: s_cancel_request_ctx

definition s_cancel_request_0 :: s_cancel_request where [zero_defs]:
  "s_cancel_request_0 = \<lparr>cr_asset = 0, cr_oid = 0\<rparr>"

definition s_cancel_request_ctx_0 :: s_cancel_request_ctx where [zero_defs]:
  "s_cancel_request_ctx_0 = \<lparr>received_tags = [], cancel_request = s_cancel_request_0\<rparr>"

definition s_bulk_cancel_0 :: s_bulk_cancel where [zero_defs]:
  "s_bulk_cancel_0 = \<lparr>bc_cancel_count = 0, bc_cancels = replicate BULK_MAX_SIZE s_cancel_request_0\<rparr>"

definition s_bulk_cancel_ctx_0 :: s_bulk_cancel_ctx where [zero_defs]:
  "s_bulk_cancel_ctx_0 = \<lparr>received_tags = [], bulk_cancel = s_bulk_cancel_0,
     cancel_request_ctx = s_cancel_request_ctx_0\<rparr>"

lemma cancel_request_ctx_simps [simp]:
  "received_tags (c\<lparr>cancel_request := m\<rparr>) = received_tags c"
  "cancel_request (mark_received t c) = cancel_request c"
  by (cases c; simp add: mark_received_def)+

lemma bulk_cancel_ctx_simps [simp]:
  "received_tags (c\<lparr>bulk_cancel := b\<rparr>) = received_tags c"
  "received_tags (c\<lparr>cancel_request_ctx := mc\<rparr>) = received_tags c"
  "bulk_cancel (mark_received t c) = bulk_cancel c"
  "cancel_request_ctx (mark_received t c) = cancel_request_ctx c"
  by (cases c; simp add: mark_received_def)+

section \<open>A cancel request\<close>

definition cancel_handle_asset :: "tlv_lib \<Rightarrow> s_cancel_request_ctx handler" where
  "cancel_handle_asset L d out = rbind (of_opt (get_uint32 L d)) (\<lambda>a.
     Inr (out\<lparr>cancel_request := (cancel_request out)\<lparr>cr_asset := a\<rparr>\<rparr>))"

definition cancel_handle_oid :: "tlv_lib \<Rightarrow> s_cancel_request_ctx handler" where
  "cancel_handle_oid L d out = rbind (of_opt (get_uint64 L d)) (\<lambda>i.
     Inr (out\<lparr>cancel_request := (cancel_request out)\<lparr>cr_oid := i\<rparr>\<rparr>))"

definition CANCEL_REQUEST_TAGS :: "tlv_lib \<Rightarrow> s_cancel_request_ctx tag_table" where
  "CANCEL_REQUEST_TAGS L =
     [(0xd1, cancel_handle_asset L, ENFORCE_UNIQUE_TAG),
      (0xdc, cancel_handle_oid L, ENFORCE_UNIQUE_TAG)]"

definition verify_cancel_request ::
  "s_action_metadata option \<Rightarrow> s_cancel_request_ctx \<Rightarrow> bool result" where
  "verify_cancel_request md out =
     (if \<not> tlv_check_received [0xd1, 0xdc] out then Inr False
      else case md of
        None \<Rightarrow> Inl Null_deref
      | Some m \<Rightarrow> Inr (md_asset_id m = cr_asset (cancel_request out)))"

definition parse_cancel_request ::
  "tlv_lib \<Rightarrow> s_action_metadata option \<Rightarrow> byte list \<Rightarrow> s_cancel_request_ctx \<Rightarrow>
   s_cancel_request_ctx result" where
  "parse_cancel_request L md payload out =
     rbind (tlv_parser L (CANCEL_REQUEST_TAGS L) no_common payload out) (\<lambda>c.
     rbind (verify_cancel_request md c) (\<lambda>ok. check ok c))"

definition cancel_request_serialize :: "cmp_lib \<Rightarrow> s_cancel_request \<Rightarrow> ser" where
  "cancel_request_serialize C r = ser_seq
     [cmp_write_map C 2,
      cmp_write_str C ''a'' 1,
      cmp_write_uinteger C (ucast (cr_asset r)),
      cmp_write_str C ''o'' 1,
      cmp_write_uinteger C (cr_oid r)]"

section \<open>The bulk cancel\<close>

definition handle_cancel_request ::
  "tlv_lib \<Rightarrow> s_action_metadata option \<Rightarrow> s_bulk_cancel_ctx handler" where
  "handle_cancel_request L md d out =
     (let b = bulk_cancel out in
      if bc_cancel_count b \<ge> BULK_MAX_SIZE then Inl Reject
      else
        let out = out\<lparr>cancel_request_ctx := s_cancel_request_ctx_0\<rparr> in
        rbind (arr_get (bc_cancels b) (bc_cancel_count b)) (\<lambda>slot.
        rbind (parse_cancel_request L md (td_value d)
                 ((cancel_request_ctx out)\<lparr>cancel_request := slot\<rparr>)) (\<lambda>cc.
        rbind (arr_set (bc_cancels b) (bc_cancel_count b) (cancel_request cc)) (\<lambda>cs.
        Inr (out\<lparr>cancel_request_ctx := cc,
                 bulk_cancel := b\<lparr>bc_cancels := cs, bc_cancel_count := bc_cancel_count b + 1\<rparr>\<rparr>)))))"

definition BULK_CANCEL_TAGS ::
  "tlv_lib \<Rightarrow> s_action_metadata option \<Rightarrow> s_bulk_cancel_ctx tag_table" where
  "BULK_CANCEL_TAGS L md = [(0xd9, handle_cancel_request L md, ALLOW_MULTIPLE_TAG)]"

definition verify_bulk_cancel :: "s_bulk_cancel_ctx \<Rightarrow> bool" where
  "verify_bulk_cancel out \<longleftrightarrow> tlv_check_received [0xd9] out"

definition parse_bulk_cancel ::
  "tlv_lib \<Rightarrow> s_action_metadata option \<Rightarrow> byte list \<Rightarrow> s_bulk_cancel_ctx \<Rightarrow> s_bulk_cancel_ctx result" where
  "parse_bulk_cancel L md payload out =
     rbind (tlv_parser L (BULK_CANCEL_TAGS L md) no_common payload out) (\<lambda>c.
     check (verify_bulk_cancel c) c)"

definition bulk_cancel_serialize :: "cmp_lib \<Rightarrow> s_bulk_cancel \<Rightarrow> ser" where
  "bulk_cancel_serialize C b = ser_seq
     [cmp_write_map C 2,
      cmp_write_str C ''type'' 4,
      cmp_write_str C ''cancel'' 6,
      cmp_write_str C ''cancels'' 7,
      cmp_write_array C (bc_cancel_count b),
      ser_for (bc_cancel_count b) (\<lambda>i. cancel_request_serialize C (bc_cancels b ! i))]"

section \<open>What a parsed bulk cancel satisfies\<close>

definition cancel_wf_md :: "s_action_metadata option \<Rightarrow> s_cancel_request \<Rightarrow> bool" where
  "cancel_wf_md md r = (case md of None \<Rightarrow> False | Some m \<Rightarrow> cr_asset r = md_asset_id m)"

definition bulk_cancel_wf :: "s_action_metadata option \<Rightarrow> s_bulk_cancel \<Rightarrow> bool" where
  "bulk_cancel_wf md b \<longleftrightarrow>
     1 \<le> bc_cancel_count b \<and> bc_cancel_count b \<le> BULK_MAX_SIZE \<and>
     length (bc_cancels b) = BULK_MAX_SIZE \<and>
     list_all (cancel_wf_md md) (take (bc_cancel_count b) (bc_cancels b))"

definition bulk_cancel_ctx_inv :: "s_action_metadata option \<Rightarrow> s_bulk_cancel_ctx \<Rightarrow> bool" where
  "bulk_cancel_ctx_inv md c \<longleftrightarrow> (let b = bulk_cancel c in
     (0xd9 \<in> set (received_tags c) \<longrightarrow> 1 \<le> bc_cancel_count b) \<and> bc_cancel_count b \<le> BULK_MAX_SIZE \<and>
     length (bc_cancels b) = BULK_MAX_SIZE \<and>
     filled (cancel_wf_md md) (\<lambda>_. True) (bc_cancel_count b) (bc_cancels b))"

interpretation cancel_tlv: tlv_struct "CANCEL_REQUEST_TAGS L" no_common "\<lambda>_. True" True for L
  by unfold_locales
     (auto simp: CANCEL_REQUEST_TAGS_def cancel_handle_asset_def cancel_handle_oid_def rbind_Inr_conv
        intro!: no_ub_rbind split: if_splits)

lemma parse_cancel_request_spec:
  assumes "tlv_lib_ok L" "md \<noteq> None" "received_tags c = []"
  shows "no_ub (parse_cancel_request L md p c)"
    and "parse_cancel_request L md p c = Inr c' \<Longrightarrow> cancel_wf_md md (cancel_request c')"
proof -
  have "no_ub (tlv_parser L (CANCEL_REQUEST_TAGS L) no_common p c)"
    using assms by (simp add: cancel_tlv.parser_spec(1) tlv_lib_okD)
  then show "no_ub (parse_cancel_request L md p c)"
    using assms(2) by (auto simp: parse_cancel_request_def verify_cancel_request_def intro!: no_ub_rbind)
  show "parse_cancel_request L md p c = Inr c' \<Longrightarrow> cancel_wf_md md (cancel_request c')"
    by (auto simp: parse_cancel_request_def verify_cancel_request_def cancel_wf_md_def rbind_Inr_conv
        split: if_splits option.splits)
qed

lemma handle_cancel_request_spec:
  assumes "tlv_lib_ok L" "md \<noteq> None" "bulk_cancel_ctx_inv md c"
  shows "no_ub (handle_cancel_request L md d c)"
    and "handle_cancel_request L md d c = Inr c' \<Longrightarrow> bulk_cancel_ctx_inv md (mark_received 0xd9 c')"
proof -
  let ?b = "bulk_cancel c"
  let ?n = "bc_cancel_count ?b"
  let ?cc = "s_cancel_request_ctx_0\<lparr>cancel_request := bc_cancels ?b ! ?n\<rparr>"
  have len: "length (bc_cancels ?b) = 5"
    using assms(3) by (simp add: bulk_cancel_ctx_inv_def Let_def)
  have wiped: "received_tags ?cc = []" by (simp add: zero_defs)
  show "no_ub (handle_cancel_request L md d c)"
    using len wiped parse_cancel_request_spec(1) [OF assms(1,2)]
    by (auto simp: handle_cancel_request_def Let_def intro!: no_ub_rbind)
  assume run: "handle_cancel_request L md d c = Inr c'"
  then obtain cc where n: "?n < 5" and cc: "parse_cancel_request L md (td_value d) ?cc = Inr cc"
    and c': "c' = c\<lparr>cancel_request_ctx := cc, bulk_cancel := ?b\<lparr>
       bc_cancels := (bc_cancels ?b)[?n := cancel_request cc], bc_cancel_count := ?n + 1\<rparr>\<rparr>"
    using len by (auto simp: handle_cancel_request_def Let_def rbind_Inr_conv split: if_splits)
  have "cancel_wf_md md (cancel_request cc)"
    using parse_cancel_request_spec(2) [OF assms(1,2) wiped cc] .
  then show "bulk_cancel_ctx_inv md (mark_received 0xd9 c')"
    using assms(3) n len filled_push [of _ _ ?n "bc_cancels ?b" "cancel_request cc"]
    by (simp add: c' bulk_cancel_ctx_inv_def Let_def)
qed

interpretation bulk_cancel_tlv:
  tlv_struct "BULK_CANCEL_TAGS L md" no_common "bulk_cancel_ctx_inv md" "tlv_lib_ok L \<and> md \<noteq> None" for L md
proof (unfold_locales, goal_cases)
  case (1 d h c c1 c2)
  then show ?case
    by (auto simp: BULK_CANCEL_TAGS_def handle_cancel_request_def rbind_Inr_conv Let_def split: if_splits)
next
  case (2 c d h c1 c2)
  then show ?case
    using handle_cancel_request_spec(2) [of L md c d c2] by (auto simp: BULK_CANCEL_TAGS_def split: if_splits)
next
  case (3 c d h)
  then show ?case
    using handle_cancel_request_spec(1) [of L md c d] by (auto simp: BULK_CANCEL_TAGS_def split: if_splits)
qed

lemma bulk_cancel_ctx_inv_0: "bulk_cancel_ctx_inv md s_bulk_cancel_ctx_0"
  by (auto simp: bulk_cancel_ctx_inv_def zero_defs Let_def intro!: filled_replicate)

lemma parse_bulk_cancel_no_ub:
  "tlv_lib_ok L \<Longrightarrow> md \<noteq> None \<Longrightarrow> no_ub (parse_bulk_cancel L md p s_bulk_cancel_ctx_0)"
  using bulk_cancel_tlv.parser_spec(1) [OF _ _ bulk_cancel_ctx_inv_0, of L md]
  by (simp add: parse_bulk_cancel_def no_ub_rbind tlv_lib_okD zero_defs)

lemma parse_bulk_cancel_wf:
  assumes "tlv_lib_ok L" "md \<noteq> None" "parse_bulk_cancel L md p s_bulk_cancel_ctx_0 = Inr c"
  shows "bulk_cancel_wf md (bulk_cancel c)"
proof -
  from assms(3) have run: "tlv_parser L (BULK_CANCEL_TAGS L md) no_common p s_bulk_cancel_ctx_0 = Inr c"
    and ver: "verify_bulk_cancel c"
    by (auto simp: parse_bulk_cancel_def rbind_Inr_conv)
  have "bulk_cancel_ctx_inv md c"
    using assms(1,2) by (intro bulk_cancel_tlv.parser_spec(2) [OF _ _ bulk_cancel_ctx_inv_0 _ run])
      (simp_all add: tlv_lib_okD zero_defs)
  with ver show ?thesis
    by (simp add: bulk_cancel_ctx_inv_def bulk_cancel_wf_def Let_def filled_def verify_bulk_cancel_def)
qed

section \<open>The MessagePack value of a bulk cancel\<close>

definition cancel_request_mp :: "s_cancel_request \<Rightarrow> mp" where
  "cancel_request_mp r = MMap
     [(''a'', MInt (uint (cr_asset r))), (''o'', MInt (uint (cr_oid r)))]"

definition bulk_cancel_mp :: "s_bulk_cancel \<Rightarrow> mp" where
  "bulk_cancel_mp b = MMap
     [(''type'', MStr ''cancel''),
      (''cancels'', MArr (map cancel_request_mp (take (bc_cancel_count b) (bc_cancels b))))]"

definition bulk_cancel_counts :: "s_bulk_cancel \<Rightarrow> bool" where
  "bulk_cancel_counts b \<longleftrightarrow> bc_cancel_count b \<le> length (bc_cancels b)"

interpretation cancel_ser: serializer "cancel_request_serialize C" cancel_request_mp C "\<lambda>_. True" for C
proof unfold_locales
  fix r :: s_cancel_request
  show "writes (cancel_request_serialize C r) (mp_bytes C (cancel_request_mp r))"
    unfolding cancel_request_serialize_def
    by (rule writes_cong, (rule writes_intros | (simp; fail))+,
        simp add: cancel_request_mp_def mp_bytes_simps eval_nat_numeral)
qed

lemma writes_bulk_cancel:
  assumes "bulk_cancel_counts b"
  shows "writes (bulk_cancel_serialize C b) (mp_bytes C (bulk_cancel_mp b))"
proof -
  let ?cs = "take (bc_cancel_count b) (bc_cancels b)"
  have loop: "writes (ser_for (bc_cancel_count b) (\<lambda>i. cancel_request_serialize C (bc_cancels b ! i)))
      (concat (map (mp_bytes C) (map cancel_request_mp ?cs)))"
    using assms by (intro cancel_ser.loop) (simp_all add: bulk_cancel_counts_def list_all_iff)
  have len: "length ?cs = bc_cancel_count b" using assms by (simp add: bulk_cancel_counts_def)
  note parts = loop writes_intros
  show ?thesis
    unfolding bulk_cancel_serialize_def
    by (rule writes_cong, (rule parts | (simp; fail))+,
        simp add: bulk_cancel_mp_def mp_bytes_simps eval_nat_numeral len del: length_take)
qed

interpretation bulk_cancel_ser: serializer "bulk_cancel_serialize C" bulk_cancel_mp C bulk_cancel_counts for C
  by unfold_locales (rule writes_bulk_cancel)

lemma bulk_cancel_wf_counts: "bulk_cancel_wf md b \<Longrightarrow> bulk_cancel_counts b"
  by (simp add: bulk_cancel_wf_def bulk_cancel_counts_def)

end
