(* ===== verification/Update_Leverage.thy ===== *)
theory Update_Leverage
  imports Metadata_Types Tlv Msgpack_Writer
begin

text \<open>The leverage update (\<open>update_leverage.h\<close>, \<open>update_leverage.c\<close>).\<close>

record s_update_leverage =
  ul_asset :: u32
  ul_is_cross :: bool
  ul_leverage :: u32

record s_update_leverage_ctx = tlv_ctx +
  update_leverage :: s_update_leverage

definition s_update_leverage_0 :: s_update_leverage where [zero_defs]:
  "s_update_leverage_0 = \<lparr>ul_asset = 0, ul_is_cross = False, ul_leverage = 0\<rparr>"

definition s_update_leverage_ctx_0 :: s_update_leverage_ctx where [zero_defs]:
  "s_update_leverage_ctx_0 = \<lparr>received_tags = [], update_leverage = s_update_leverage_0\<rparr>"

lemma update_leverage_ctx_simps [simp]:
  "received_tags (c\<lparr>update_leverage := m\<rparr>) = received_tags c"
  "update_leverage (mark_received t c) = update_leverage c"
  by (cases c; simp add: mark_received_def)+

definition leverage_handle_asset :: "tlv_lib \<Rightarrow> s_update_leverage_ctx handler" where
  "leverage_handle_asset L d out = rbind (of_opt (get_uint32 L d)) (\<lambda>a.
     Inr (out\<lparr>update_leverage := (update_leverage out)\<lparr>ul_asset := a\<rparr>\<rparr>))"

definition handle_is_cross :: "tlv_lib \<Rightarrow> s_update_leverage_ctx handler" where
  "handle_is_cross L d out = rbind (of_opt (get_bool L d)) (\<lambda>b.
     Inr (out\<lparr>update_leverage := (update_leverage out)\<lparr>ul_is_cross := b\<rparr>\<rparr>))"

definition handle_leverage :: "tlv_lib \<Rightarrow> s_update_leverage_ctx handler" where
  "handle_leverage L d out = rbind (of_opt (get_uint32 L d)) (\<lambda>x.
     Inr (out\<lparr>update_leverage := (update_leverage out)\<lparr>ul_leverage := x\<rparr>\<rparr>))"

definition UPDATE_LEVERAGE_TAGS :: "tlv_lib \<Rightarrow> s_update_leverage_ctx tag_table" where
  "UPDATE_LEVERAGE_TAGS L =
     [(0xd1, leverage_handle_asset L, ENFORCE_UNIQUE_TAG),
      (0xde, handle_is_cross L, ENFORCE_UNIQUE_TAG),
      (0xed, handle_leverage L, ENFORCE_UNIQUE_TAG)]"

definition verify_update_leverage ::
  "s_action_metadata option \<Rightarrow> s_update_leverage_ctx \<Rightarrow> bool result" where
  "verify_update_leverage md out =
     (if \<not> tlv_check_received [0xd1, 0xde, 0xed] out then Inr False
      else case md of
        None \<Rightarrow> Inl Null_deref
      | Some m \<Rightarrow> Inr (md_asset_id m = ul_asset (update_leverage out)))"

definition parse_update_leverage ::
  "tlv_lib \<Rightarrow> s_action_metadata option \<Rightarrow> byte list \<Rightarrow> s_update_leverage_ctx \<Rightarrow>
   s_update_leverage_ctx result" where
  "parse_update_leverage L md payload out =
     rbind (tlv_parser L (UPDATE_LEVERAGE_TAGS L) no_common payload out) (\<lambda>c.
     rbind (verify_update_leverage md c) (\<lambda>ok. check ok c))"

definition update_leverage_serialize :: "cmp_lib \<Rightarrow> s_update_leverage \<Rightarrow> ser" where
  "update_leverage_serialize C u = ser_seq
     [cmp_write_map C 4,
      cmp_write_str C ''type'' 4,
      cmp_write_str C ''updateLeverage'' 14,
      cmp_write_str C ''asset'' 5,
      cmp_write_uinteger C (ucast (ul_asset u)),
      cmp_write_str C ''isCross'' 7,
      cmp_write_bool C (ul_is_cross u),
      cmp_write_str C ''leverage'' 8,
      cmp_write_uinteger C (ucast (ul_leverage u))]"

definition leverage_wf_md :: "s_action_metadata option \<Rightarrow> s_update_leverage \<Rightarrow> bool" where
  "leverage_wf_md md u = (case md of None \<Rightarrow> False | Some m \<Rightarrow> ul_asset u = md_asset_id m)"

interpretation leverage_tlv: tlv_struct "UPDATE_LEVERAGE_TAGS L" no_common "\<lambda>_. True" True for L
  by unfold_locales
     (auto simp: UPDATE_LEVERAGE_TAGS_def leverage_handle_asset_def handle_is_cross_def
        handle_leverage_def rbind_Inr_conv intro!: no_ub_rbind split: if_splits)

lemma parse_update_leverage_no_ub:
  assumes "tlv_lib_ok L" "md \<noteq> None"
  shows "no_ub (parse_update_leverage L md p s_update_leverage_ctx_0)"
proof -
  have "no_ub (tlv_parser L (UPDATE_LEVERAGE_TAGS L) no_common p s_update_leverage_ctx_0)"
    using assms by (simp add: leverage_tlv.parser_spec(1) tlv_lib_okD zero_defs)
  then show ?thesis
    using assms(2)
    by (auto simp: parse_update_leverage_def verify_update_leverage_def intro!: no_ub_rbind)
qed

lemma parse_update_leverage_wf:
  "parse_update_leverage L md p c = Inr c' \<Longrightarrow> leverage_wf_md md (update_leverage c')"
  by (auto simp: parse_update_leverage_def verify_update_leverage_def leverage_wf_md_def rbind_Inr_conv
      split: if_splits option.splits)

definition update_leverage_mp :: "s_update_leverage \<Rightarrow> mp" where
  "update_leverage_mp u = MMap
     [(''type'', MStr ''updateLeverage''), (''asset'', MInt (uint (ul_asset u))),
      (''isCross'', MBool (ul_is_cross u)), (''leverage'', MInt (uint (ul_leverage u)))]"

lemma writes_update_leverage:
  "writes (update_leverage_serialize C u) (mp_bytes C (update_leverage_mp u))"
  unfolding update_leverage_serialize_def
  by (rule writes_cong, (rule writes_intros | (simp; fail))+,
      simp add: update_leverage_mp_def mp_bytes_simps eval_nat_numeral)

interpretation update_leverage_ser:
  serializer "update_leverage_serialize C" update_leverage_mp C "\<lambda>_. True" for C
  by unfold_locales (rule writes_update_leverage)

end
