(* ===== verification/Update_Isolated_Margin.thy ===== *)
theory Update_Isolated_Margin
  imports Metadata_Types Tlv Msgpack_Writer
begin

text \<open>
  The isolated margin update (\<open>update_isolated_margin.h\<close>, \<open>update_isolated_margin.c\<close>). The signed
  amount \<open>ntli\<close> (\<open>int64_t\<close>) is kept as the 64 bits the parser copies; \<open>sint\<close> reads it.
\<close>

record s_update_isolated_margin =
  um_asset :: u32
  um_is_buy :: bool
  um_ntli :: u64

record s_update_isolated_margin_ctx = tlv_ctx +
  update_isolated_margin :: s_update_isolated_margin

definition s_update_isolated_margin_0 :: s_update_isolated_margin where [zero_defs]:
  "s_update_isolated_margin_0 = \<lparr>um_asset = 0, um_is_buy = False, um_ntli = 0\<rparr>"

definition s_update_isolated_margin_ctx_0 :: s_update_isolated_margin_ctx where [zero_defs]:
  "s_update_isolated_margin_ctx_0 =
     \<lparr>received_tags = [], update_isolated_margin = s_update_isolated_margin_0\<rparr>"

lemma update_isolated_margin_ctx_simps [simp]:
  "received_tags (c\<lparr>update_isolated_margin := m\<rparr>) = received_tags c"
  "update_isolated_margin (mark_received t c) = update_isolated_margin c"
  by (cases c; simp add: mark_received_def)+

definition margin_handle_asset :: "tlv_lib \<Rightarrow> s_update_isolated_margin_ctx handler" where
  "margin_handle_asset L d out = rbind (of_opt (get_uint32 L d)) (\<lambda>a.
     Inr (out\<lparr>update_isolated_margin := (update_isolated_margin out)\<lparr>um_asset := a\<rparr>\<rparr>))"

definition margin_handle_is_buy :: "tlv_lib \<Rightarrow> s_update_isolated_margin_ctx handler" where
  "margin_handle_is_buy L d out = rbind (of_opt (get_bool L d)) (\<lambda>b.
     Inr (out\<lparr>update_isolated_margin := (update_isolated_margin out)\<lparr>um_is_buy := b\<rparr>\<rparr>))"

definition handle_ntli :: "tlv_lib \<Rightarrow> s_update_isolated_margin_ctx handler" where
  "handle_ntli L d out = rbind (of_opt (get_uint64 L d)) (\<lambda>tmp.
     Inr (out\<lparr>update_isolated_margin := (update_isolated_margin out)\<lparr>um_ntli := tmp\<rparr>\<rparr>))"

definition UPDATE_ISOLATED_MARGIN_TAGS :: "tlv_lib \<Rightarrow> s_update_isolated_margin_ctx tag_table" where
  "UPDATE_ISOLATED_MARGIN_TAGS L =
     [(0xd1, margin_handle_asset L, ENFORCE_UNIQUE_TAG),
      (0xe2, margin_handle_is_buy L, ENFORCE_UNIQUE_TAG),
      (0xd6, handle_ntli L, ENFORCE_UNIQUE_TAG)]"

definition verify_update_isolated_margin ::
  "s_action_metadata option \<Rightarrow> s_update_isolated_margin_ctx \<Rightarrow> bool result" where
  "verify_update_isolated_margin md out =
     (if \<not> tlv_check_received [0xd1, 0xe2, 0xd6] out then Inr False
      else case md of
        None \<Rightarrow> Inl Null_deref
      | Some m \<Rightarrow> Inr (md_asset_id m = um_asset (update_isolated_margin out)))"

definition parse_update_isolated_margin ::
  "tlv_lib \<Rightarrow> s_action_metadata option \<Rightarrow> byte list \<Rightarrow> s_update_isolated_margin_ctx \<Rightarrow>
   s_update_isolated_margin_ctx result" where
  "parse_update_isolated_margin L md payload out =
     rbind (tlv_parser L (UPDATE_ISOLATED_MARGIN_TAGS L) no_common payload out) (\<lambda>c.
     rbind (verify_update_isolated_margin md c) (\<lambda>ok. check ok c))"

definition update_isolated_margin_serialize :: "cmp_lib \<Rightarrow> s_update_isolated_margin \<Rightarrow> ser" where
  "update_isolated_margin_serialize C u = ser_seq
     [cmp_write_map C 4,
      cmp_write_str C ''type'' 4,
      cmp_write_str C ''updateIsolatedMargin'' 20,
      cmp_write_str C ''asset'' 5,
      cmp_write_uinteger C (ucast (um_asset u)),
      cmp_write_str C ''isBuy'' 5,
      cmp_write_bool C (um_is_buy u),
      cmp_write_str C ''ntli'' 4,
      cmp_write_integer C (um_ntli u)]"

definition margin_wf_md :: "s_action_metadata option \<Rightarrow> s_update_isolated_margin \<Rightarrow> bool" where
  "margin_wf_md md u = (case md of None \<Rightarrow> False | Some m \<Rightarrow> um_asset u = md_asset_id m)"

interpretation margin_tlv: tlv_struct "UPDATE_ISOLATED_MARGIN_TAGS L" no_common "\<lambda>_. True" True for L
  by unfold_locales
     (auto simp: UPDATE_ISOLATED_MARGIN_TAGS_def margin_handle_asset_def margin_handle_is_buy_def
        handle_ntli_def rbind_Inr_conv intro!: no_ub_rbind split: if_splits)

lemma parse_update_isolated_margin_no_ub:
  assumes "tlv_lib_ok L" "md \<noteq> None"
  shows "no_ub (parse_update_isolated_margin L md p s_update_isolated_margin_ctx_0)"
proof -
  have "no_ub (tlv_parser L (UPDATE_ISOLATED_MARGIN_TAGS L) no_common p s_update_isolated_margin_ctx_0)"
    using assms by (simp add: margin_tlv.parser_spec(1) tlv_lib_okD zero_defs)
  then show ?thesis
    using assms(2)
    by (auto simp: parse_update_isolated_margin_def verify_update_isolated_margin_def intro!: no_ub_rbind)
qed

lemma parse_update_isolated_margin_wf:
  "parse_update_isolated_margin L md p c = Inr c' \<Longrightarrow> margin_wf_md md (update_isolated_margin c')"
  by (auto simp: parse_update_isolated_margin_def verify_update_isolated_margin_def margin_wf_md_def
      rbind_Inr_conv split: if_splits option.splits)

definition update_isolated_margin_mp :: "s_update_isolated_margin \<Rightarrow> mp" where
  "update_isolated_margin_mp u = MMap
     [(''type'', MStr ''updateIsolatedMargin''), (''asset'', MInt (uint (um_asset u))),
      (''isBuy'', MBool (um_is_buy u)), (''ntli'', MInt (sint (um_ntli u)))]"

lemma writes_update_isolated_margin:
  assumes "cmp_int_agrees C"
  shows "writes (update_isolated_margin_serialize C u) (mp_bytes C (update_isolated_margin_mp u))"
  unfolding update_isolated_margin_serialize_def
  by (rule writes_cong, (rule writes_intros assms | (simp; fail))+,
      simp add: update_isolated_margin_mp_def mp_bytes_simps eval_nat_numeral)

interpretation update_isolated_margin_ser:
  serializer "update_isolated_margin_serialize C" update_isolated_margin_mp C "\<lambda>_. cmp_int_agrees C" for C
  by unfold_locales (rule writes_update_isolated_margin)

end
