(* ===== verification/Approve_Builder_Fee.thy ===== *)
theory Approve_Builder_Fee
  imports Metadata_Types Tlv
begin

text \<open>
  The builder fee approval (\<open>approve_builder_fee.h\<close>, \<open>approve_builder_fee.c\<close>). It is not serialized:
  its EIP-712 message is hashed field by field.
\<close>

record s_approve_builder_fee =
  ab_signature_chain_id :: u64
  ab_max_fee_rate :: string
  ab_builder :: "byte list"

record s_approve_builder_fee_ctx = tlv_ctx +
  approve_builder_fee :: s_approve_builder_fee

definition s_approve_builder_fee_0 :: s_approve_builder_fee where [zero_defs]:
  "s_approve_builder_fee_0 =
     \<lparr>ab_signature_chain_id = 0, ab_max_fee_rate = [], ab_builder = replicate ADDRESS_LENGTH 0\<rparr>"

definition s_approve_builder_fee_ctx_0 :: s_approve_builder_fee_ctx where [zero_defs]:
  "s_approve_builder_fee_ctx_0 = \<lparr>received_tags = [], approve_builder_fee = s_approve_builder_fee_0\<rparr>"

lemma approve_builder_fee_ctx_simps [simp]:
  "received_tags (c\<lparr>approve_builder_fee := m\<rparr>) = received_tags c"
  "approve_builder_fee (mark_received t c) = approve_builder_fee c"
  by (cases c; simp add: mark_received_def)+

definition fee_handle_signature_chain_id :: "tlv_lib \<Rightarrow> s_approve_builder_fee_ctx handler" where
  "fee_handle_signature_chain_id L d out = rbind (of_opt (get_uint64 L d)) (\<lambda>i.
     Inr (out\<lparr>approve_builder_fee := (approve_builder_fee out)\<lparr>ab_signature_chain_id := i\<rparr>\<rparr>))"

definition handle_max_fee_rate :: "tlv_lib \<Rightarrow> s_approve_builder_fee_ctx handler" where
  "handle_max_fee_rate L d out =
     rbind (of_opt (get_string L d 1 (NUMERIC_STRING_LENGTH + 1))) (\<lambda>s.
     Inr (out\<lparr>approve_builder_fee := (approve_builder_fee out)\<lparr>ab_max_fee_rate := s\<rparr>\<rparr>))"

definition fee_handle_builder :: "tlv_lib \<Rightarrow> s_approve_builder_fee_ctx handler" where
  "fee_handle_builder L d out =
     rbind (of_opt (get_buffer L d ADDRESS_LENGTH ADDRESS_LENGTH)) (\<lambda>buf.
     rbind (read_bytes ADDRESS_LENGTH buf) (\<lambda>a.
     Inr (out\<lparr>approve_builder_fee := (approve_builder_fee out)\<lparr>ab_builder := a\<rparr>\<rparr>)))"

definition APPROVE_BUILDER_FEE_TAGS :: "tlv_lib \<Rightarrow> s_approve_builder_fee_ctx tag_table" where
  "APPROVE_BUILDER_FEE_TAGS L =
     [(0x23, fee_handle_signature_chain_id L, ENFORCE_UNIQUE_TAG),
      (0xb0, handle_max_fee_rate L, ENFORCE_UNIQUE_TAG),
      (0xd3, fee_handle_builder L, ENFORCE_UNIQUE_TAG)]"

definition verify_approve_builder_fee :: "s_approve_builder_fee_ctx \<Rightarrow> bool" where
  "verify_approve_builder_fee out \<longleftrightarrow> tlv_check_received [0x23, 0xb0, 0xd3] out"

definition parse_approve_builder_fee ::
  "tlv_lib \<Rightarrow> byte list \<Rightarrow> s_approve_builder_fee_ctx \<Rightarrow> s_approve_builder_fee_ctx result" where
  "parse_approve_builder_fee L payload out =
     rbind (tlv_parser L (APPROVE_BUILDER_FEE_TAGS L) no_common payload out) (\<lambda>c.
     check (verify_approve_builder_fee c) c)"

definition fee_wf :: "s_approve_builder_fee \<Rightarrow> bool" where
  "fee_wf a \<longleftrightarrow> num_str (ab_max_fee_rate a) \<and> length (ab_builder a) = ADDRESS_LENGTH"

definition fee_ctx_inv :: "s_approve_builder_fee_ctx \<Rightarrow> bool" where
  "fee_ctx_inv c \<longleftrightarrow>
     (0xb0 \<in> set (received_tags c) \<longrightarrow> num_str (ab_max_fee_rate (approve_builder_fee c))) \<and>
     length (ab_builder (approve_builder_fee c)) = ADDRESS_LENGTH"

lemmas fee_handler_defs =
  fee_handle_signature_chain_id_def handle_max_fee_rate_def fee_handle_builder_def

interpretation fee_tlv:
  tlv_struct "APPROVE_BUILDER_FEE_TAGS L" no_common fee_ctx_inv "tlv_lib_ok L" for L
proof (unfold_locales, goal_cases)
  case (1 d h c c1 c2)
  then show ?case
    by (auto simp: APPROVE_BUILDER_FEE_TAGS_def fee_handler_defs rbind_Inr_conv split: if_splits)
next
  case (2 c d h c1 c2)
  then show ?case
    by (auto simp: APPROVE_BUILDER_FEE_TAGS_def fee_handler_defs rbind_Inr_conv fee_ctx_inv_def
        get_num_str dest!: read_bytes_length split: if_splits)
next
  case (3 c d h)
  then show ?case
    by (auto simp: APPROVE_BUILDER_FEE_TAGS_def fee_handler_defs intro!: no_ub_rbind split: if_splits)
       (metis get_buffer_read)
qed

lemma fee_ctx_inv_0: "fee_ctx_inv s_approve_builder_fee_ctx_0"
  by (simp add: fee_ctx_inv_def zero_defs)

lemma parse_approve_builder_fee_no_ub:
  "tlv_lib_ok L \<Longrightarrow> no_ub (parse_approve_builder_fee L p s_approve_builder_fee_ctx_0)"
  using fee_tlv.parser_spec(1) [OF _ _ fee_ctx_inv_0, of L]
  by (simp add: parse_approve_builder_fee_def no_ub_rbind tlv_lib_okD zero_defs)

lemma parse_approve_builder_fee_wf:
  assumes "tlv_lib_ok L" "parse_approve_builder_fee L p s_approve_builder_fee_ctx_0 = Inr c"
  shows "fee_wf (approve_builder_fee c)"
proof -
  from assms(2) have run: "tlv_parser L (APPROVE_BUILDER_FEE_TAGS L) no_common p
      s_approve_builder_fee_ctx_0 = Inr c" and ver: "verify_approve_builder_fee c"
    by (auto simp: parse_approve_builder_fee_def rbind_Inr_conv)
  have "fee_ctx_inv c"
    using assms(1) by (intro fee_tlv.parser_spec(2) [OF _ _ fee_ctx_inv_0 _ run])
      (simp_all add: tlv_lib_okD zero_defs)
  with ver show ?thesis by (simp add: fee_ctx_inv_def fee_wf_def verify_approve_builder_fee_def)
qed

end
