(* ===== verification/User_Set_Abstraction.thy ===== *)
theory User_Set_Abstraction
  imports Metadata_Types Tlv
begin

text \<open>
  The abstraction change (\<open>user_set_abstraction.h\<close>, \<open>user_set_abstraction.c\<close>). The handler stores the
  received byte in the enumeration field as it is; the range is checked at the end of the parse.
\<close>

definition ABSTRACTION_DISABLED :: u8 where [simp]: "ABSTRACTION_DISABLED = 0x00"
definition ABSTRACTION_UNIFIED_ACCOUNT :: u8 where [simp]: "ABSTRACTION_UNIFIED_ACCOUNT = 0x01"
definition ABSTRACTION_PORTFOLIO_MARGIN :: u8 where [simp]: "ABSTRACTION_PORTFOLIO_MARGIN = 0x02"

record s_user_set_abstraction =
  ua_signature_chain_id :: u64
  ua_abstraction :: u8

record s_user_set_abstraction_ctx = tlv_ctx +
  user_set_abstraction :: s_user_set_abstraction

definition s_user_set_abstraction_0 :: s_user_set_abstraction where [zero_defs]:
  "s_user_set_abstraction_0 = \<lparr>ua_signature_chain_id = 0, ua_abstraction = 0\<rparr>"

definition s_user_set_abstraction_ctx_0 :: s_user_set_abstraction_ctx where [zero_defs]:
  "s_user_set_abstraction_ctx_0 = \<lparr>received_tags = [], user_set_abstraction = s_user_set_abstraction_0\<rparr>"

lemma user_set_abstraction_ctx_simps [simp]:
  "received_tags (c\<lparr>user_set_abstraction := m\<rparr>) = received_tags c"
  "user_set_abstraction (mark_received t c) = user_set_abstraction c"
  by (cases c; simp add: mark_received_def)+

definition abstraction_handle_signature_chain_id :: "tlv_lib \<Rightarrow> s_user_set_abstraction_ctx handler" where
  "abstraction_handle_signature_chain_id L d out = rbind (of_opt (get_uint64 L d)) (\<lambda>i.
     Inr (out\<lparr>user_set_abstraction := (user_set_abstraction out)\<lparr>ua_signature_chain_id := i\<rparr>\<rparr>))"

definition handle_abstraction :: "tlv_lib \<Rightarrow> s_user_set_abstraction_ctx handler" where
  "handle_abstraction L d out = rbind (of_opt (get_uint8 L d)) (\<lambda>b.
     Inr (out\<lparr>user_set_abstraction := (user_set_abstraction out)\<lparr>ua_abstraction := b\<rparr>\<rparr>))"

definition USER_SET_ABSTRACTION_TAGS :: "tlv_lib \<Rightarrow> s_user_set_abstraction_ctx tag_table" where
  "USER_SET_ABSTRACTION_TAGS L =
     [(0x23, abstraction_handle_signature_chain_id L, ENFORCE_UNIQUE_TAG),
      (0xdf, handle_abstraction L, ENFORCE_UNIQUE_TAG)]"

definition verify_user_set_abstraction :: "s_user_set_abstraction_ctx \<Rightarrow> bool" where
  "verify_user_set_abstraction out \<longleftrightarrow>
     (if \<not> tlv_check_received [0x23, 0xdf] out then False
      else ua_abstraction (user_set_abstraction out) \<in>
        set [ABSTRACTION_DISABLED, ABSTRACTION_UNIFIED_ACCOUNT, ABSTRACTION_PORTFOLIO_MARGIN])"

definition parse_user_set_abstraction ::
  "tlv_lib \<Rightarrow> byte list \<Rightarrow> s_user_set_abstraction_ctx \<Rightarrow> s_user_set_abstraction_ctx result" where
  "parse_user_set_abstraction L payload out =
     rbind (tlv_parser L (USER_SET_ABSTRACTION_TAGS L) no_common payload out) (\<lambda>c.
     check (verify_user_set_abstraction c) c)"

text \<open>\<open>NULL\<close> for a value outside the enumeration.\<close>

definition get_abstraction_string :: "s_user_set_abstraction \<Rightarrow> string option" where
  "get_abstraction_string u =
     (if ua_abstraction u = ABSTRACTION_DISABLED then Some ''disabled''
      else if ua_abstraction u = ABSTRACTION_UNIFIED_ACCOUNT then Some ''unifiedAccount''
      else if ua_abstraction u = ABSTRACTION_PORTFOLIO_MARGIN then Some ''portfolioMargin''
      else None)"

definition abstraction_wf :: "s_user_set_abstraction \<Rightarrow> bool" where
  "abstraction_wf u \<longleftrightarrow> ua_abstraction u \<in>
     {ABSTRACTION_DISABLED, ABSTRACTION_UNIFIED_ACCOUNT, ABSTRACTION_PORTFOLIO_MARGIN}"

interpretation abstraction_tlv: tlv_struct "USER_SET_ABSTRACTION_TAGS L" no_common "\<lambda>_. True" True for L
  by unfold_locales
     (auto simp: USER_SET_ABSTRACTION_TAGS_def abstraction_handle_signature_chain_id_def
        handle_abstraction_def rbind_Inr_conv intro!: no_ub_rbind split: if_splits)

lemma parse_user_set_abstraction_no_ub:
  "tlv_lib_ok L \<Longrightarrow> no_ub (parse_user_set_abstraction L p s_user_set_abstraction_ctx_0)"
  using abstraction_tlv.parser_spec(1) [of L s_user_set_abstraction_ctx_0 L]
  by (simp add: parse_user_set_abstraction_def no_ub_rbind tlv_lib_okD zero_defs)

lemma parse_user_set_abstraction_wf:
  "parse_user_set_abstraction L p c = Inr c' \<Longrightarrow> abstraction_wf (user_set_abstraction c')"
  by (auto simp: parse_user_set_abstraction_def verify_user_set_abstraction_def abstraction_wf_def
      rbind_Inr_conv split: if_splits)

lemma abstraction_wf_string: "abstraction_wf u \<longleftrightarrow> get_abstraction_string u \<noteq> None"
  by (auto simp: abstraction_wf_def get_abstraction_string_def)

end
