(* ===== verification/Hl_Context.thy ===== *)
theory Hl_Context
  imports Bulk_Order Bulk_Modify Bulk_Cancel Update_Leverage Update_Isolated_Margin
    Approve_Builder_Fee User_Set_Abstraction
begin

text \<open>
  The signing context (\<open>hl_context.c\<close>) and the action struct it stores (\<open>action.h\<close>). The one static
  variable \<open>g_ctx\<close> is threaded as a record. The metadata it holds and the actions pushed so far
  make a session; \<open>action_index\<close> is the next action to sign.

  The abstract view of the context is a queue: the metadata, the actions in push order, and a
  position. The locale \<open>session_store\<close> states the contract of the operations over that view and
  derives what running through the queue does.
\<close>

section \<open>Actions\<close>

datatype e_action_type =
    ACTION_TYPE_BULK_ORDER | ACTION_TYPE_BULK_MODIFY | ACTION_TYPE_BULK_CANCEL
  | ACTION_TYPE_UPDATE_LEVERAGE | ACTION_TYPE_APPROVE_BUILDER_FEE
  | ACTION_TYPE_UPDATE_ISOLATED_MARGIN | ACTION_TYPE_USER_SET_ABSTRACTION

primrec action_type_code :: "e_action_type \<Rightarrow> u8" where
  "action_type_code ACTION_TYPE_BULK_ORDER = 0x00"
| "action_type_code ACTION_TYPE_BULK_MODIFY = 0x01"
| "action_type_code ACTION_TYPE_BULK_CANCEL = 0x02"
| "action_type_code ACTION_TYPE_UPDATE_LEVERAGE = 0x03"
| "action_type_code ACTION_TYPE_APPROVE_BUILDER_FEE = 0x04"
| "action_type_code ACTION_TYPE_UPDATE_ISOLATED_MARGIN = 0x05"
| "action_type_code ACTION_TYPE_USER_SET_ABSTRACTION = 0x06"

lemma inj_action_type_code: "inj action_type_code"
proof (rule injI)
  fix a b assume "action_type_code a = action_type_code b"
  then show "a = b" by (cases a; cases b) simp_all
qed

text \<open>The union of the seven payloads is kept as seven fields; \<open>act_type\<close> selects the live one.\<close>

record s_action =
  act_type :: e_action_type
  act_nonce :: u64
  act_bulk_order :: s_bulk_order
  act_bulk_modify :: s_bulk_modify
  act_bulk_cancel :: s_bulk_cancel
  act_update_leverage :: s_update_leverage
  act_approve_builder_fee :: s_approve_builder_fee
  act_update_isolated_margin :: s_update_isolated_margin
  act_user_set_abstraction :: s_user_set_abstraction

definition s_action_0 :: s_action where [zero_defs]:
  "s_action_0 = \<lparr>act_type = ACTION_TYPE_BULK_ORDER, act_nonce = 0, act_bulk_order = s_bulk_order_0,
     act_bulk_modify = s_bulk_modify_0, act_bulk_cancel = s_bulk_cancel_0,
     act_update_leverage = s_update_leverage_0, act_approve_builder_fee = s_approve_builder_fee_0,
     act_update_isolated_margin = s_update_isolated_margin_0,
     act_user_set_abstraction = s_user_set_abstraction_0\<rparr>"

section \<open>The context and its operations\<close>

definition MAX_ACTION_COUNT :: nat where [simp]: "MAX_ACTION_COUNT = 10"

record s_hl_context =
  has_metadata :: bool
  metadata :: s_action_metadata
  actions :: "s_action list"
  action_count :: u8
  action_index :: u8

definition s_hl_context_0 :: s_hl_context where [zero_defs]:
  "s_hl_context_0 = \<lparr>has_metadata = False, metadata = s_action_metadata_0,
     actions = replicate MAX_ACTION_COUNT s_action_0, action_count = 0, action_index = 0\<rparr>"

definition ctx_save_action_metadata :: "s_action_metadata option \<Rightarrow> s_hl_context \<Rightarrow> s_hl_context" where
  "ctx_save_action_metadata m g = (case m of
     None \<Rightarrow> g
   | Some md \<Rightarrow> g\<lparr>has_metadata := True, metadata := md\<rparr>)"

definition ctx_get_action_metadata :: "s_hl_context \<Rightarrow> s_action_metadata option" where
  "ctx_get_action_metadata g = (if \<not> has_metadata g then None else Some (metadata g))"

definition ctx_push_action :: "s_action \<Rightarrow> s_hl_context \<Rightarrow> s_hl_context result" where
  "ctx_push_action a g =
     (if unat (action_count g) \<ge> MAX_ACTION_COUNT then Inl Reject
      else if action_index g > 0 then Inl Reject
      else if list_ex (\<lambda>i. act_type a = act_type (actions g ! i)) [0..<unat (action_count g)]
      then Inl Reject
      else rbind (arr_set (actions g) (unat (action_count g)) a) (\<lambda>as.
             Inr (g\<lparr>actions := as, action_count := action_count g + 1\<rparr>)))"

definition ctx_get_current_action :: "s_hl_context \<Rightarrow> s_action option" where
  "ctx_get_current_action g =
     (if action_index g \<ge> action_count g then None else Some (actions g ! unat (action_index g)))"

definition ctx_switch_to_next_action :: "s_hl_context \<Rightarrow> s_hl_context" where
  "ctx_switch_to_next_action g = g\<lparr>action_index := action_index g + 1\<rparr>"

definition ctx_get_action :: "e_action_type \<Rightarrow> s_hl_context \<Rightarrow> s_action option" where
  "ctx_get_action t g =
     find (\<lambda>a. t = act_type a) (map (\<lambda>i. actions g ! i) [0..<unat (action_count g)])"

definition ctx_current_action_is_first :: "s_hl_context \<Rightarrow> bool" where
  "ctx_current_action_is_first g \<longleftrightarrow> action_index g = 0"

definition ctx_remaining_actions :: "s_hl_context \<Rightarrow> u8" where
  "ctx_remaining_actions g = action_count g - action_index g"

definition ctx_reset :: "s_hl_context \<Rightarrow> s_hl_context" where
  "ctx_reset g = s_hl_context_0"

section \<open>The abstract session\<close>

record session =
  ss_metadata :: "s_action_metadata option"
  ss_queue :: "s_action list"
  ss_pos :: nat

definition empty_session :: session where
  "empty_session = \<lparr>ss_metadata = None, ss_queue = [], ss_pos = 0\<rparr>"

definition ctx_queue :: "s_hl_context \<Rightarrow> s_action list" where
  "ctx_queue g = take (unat (action_count g)) (actions g)"

definition ctx_session :: "s_hl_context \<Rightarrow> session" where
  "ctx_session g = \<lparr>ss_metadata = ctx_get_action_metadata g, ss_queue = ctx_queue g,
     ss_pos = unat (action_index g)\<rparr>"

text \<open>
  The representation invariant: the counter and the index fit, action types are distinct, and
  there are no actions without metadata.
\<close>

definition ctx_inv :: "s_hl_context \<Rightarrow> bool" where
  "ctx_inv g \<longleftrightarrow> length (actions g) = MAX_ACTION_COUNT \<and> unat (action_count g) \<le> MAX_ACTION_COUNT \<and>
     action_index g \<le> action_count g \<and> distinct (map act_type (ctx_queue g))"

definition session_push :: "s_action \<Rightarrow> session \<Rightarrow> session option" where
  "session_push a s =
     (if length (ss_queue s) < MAX_ACTION_COUNT \<and> ss_pos s = 0 \<and> act_type a \<notin> act_type ` set (ss_queue s)
      then Some (s\<lparr>ss_queue := ss_queue s @ [a]\<rparr>) else None)"

locale session_store =
  fixes inv :: "'s \<Rightarrow> bool"
    and abs :: "'s \<Rightarrow> session"
    and reset :: "'s \<Rightarrow> 's"
    and save :: "s_action_metadata \<Rightarrow> 's \<Rightarrow> 's"
    and push :: "s_action \<Rightarrow> 's \<Rightarrow> 's result"
    and current :: "'s \<Rightarrow> s_action option"
    and advance :: "'s \<Rightarrow> 's"
    and remaining :: "'s \<Rightarrow> u8"
    and lookup :: "e_action_type \<Rightarrow> 's \<Rightarrow> s_action option"
  assumes bounds: "inv s \<Longrightarrow> ss_pos (abs s) \<le> length (ss_queue (abs s)) \<and>
      length (ss_queue (abs s)) \<le> MAX_ACTION_COUNT \<and> distinct (map act_type (ss_queue (abs s)))"
    and reset_law: "inv (reset s)" "abs (reset s) = empty_session"
    and save_law: "inv s \<Longrightarrow> inv (save m s)" "abs (save m s) = (abs s)\<lparr>ss_metadata := Some m\<rparr>"
    and push_law: "inv s \<Longrightarrow> push a s = Inr s' \<Longrightarrow> inv s'"
      "inv s \<Longrightarrow> (case push a s of Inl e \<Rightarrow> e = Reject \<and> session_push a (abs s) = None
                   | Inr s' \<Rightarrow> session_push a (abs s) = Some (abs s'))"
    and current_law: "inv s \<Longrightarrow> current s =
      (if ss_pos (abs s) < length (ss_queue (abs s)) then Some (ss_queue (abs s) ! ss_pos (abs s)) else None)"
    and advance_law: "inv s \<Longrightarrow> current s \<noteq> None \<Longrightarrow> inv (advance s)"
      "inv s \<Longrightarrow> current s \<noteq> None \<Longrightarrow> abs (advance s) = (abs s)\<lparr>ss_pos := ss_pos (abs s) + 1\<rparr>"
    and remaining_law: "inv s \<Longrightarrow> unat (remaining s) = length (ss_queue (abs s)) - ss_pos (abs s)"
    and lookup_law: "inv s \<Longrightarrow> lookup t s = find (\<lambda>a. t = act_type a) (ss_queue (abs s))"
begin

lemma push_accepted:
  "inv s \<Longrightarrow> push a s = Inr s' \<Longrightarrow>
   ss_queue (abs s') = ss_queue (abs s) @ [a] \<and> ss_pos (abs s) = 0 \<and> ss_pos (abs s') = 0 \<and>
   ss_metadata (abs s') = ss_metadata (abs s) \<and> length (ss_queue (abs s)) < MAX_ACTION_COUNT \<and>
   act_type a \<notin> act_type ` set (ss_queue (abs s))"
proof -
  assume "inv s" "push a s = Inr s'"
  then have "session_push a (abs s) = Some (abs s')"
    using push_law(2) [of s a] by simp
  then have "abs s' = (abs s)\<lparr>ss_queue := ss_queue (abs s) @ [a]\<rparr>" "ss_pos (abs s) = 0"
    "length (ss_queue (abs s)) < MAX_ACTION_COUNT" "act_type a \<notin> act_type ` set (ss_queue (abs s))"
    by (simp_all add: session_push_def split: if_splits)
  then show ?thesis by simp
qed

lemma push_frozen: "inv s \<Longrightarrow> 0 < ss_pos (abs s) \<Longrightarrow> push a s = Inl Reject"
  using push_law(2) [of s a] by (auto simp: session_push_def split: sum.splits)

lemma push_no_ub: "inv s \<Longrightarrow> no_ub (push a s)"
  using push_law(2) [of s a] by (auto split: sum.splits)

text \<open>What is looked up is in the queue, and is the only element of its type.\<close>

lemma lookup_iff: "inv s \<Longrightarrow> lookup t s = Some a \<longleftrightarrow> a \<in> set (ss_queue (abs s)) \<and> act_type a = t"
proof -
  assume inv: "inv s"
  have "distinct (map act_type q) \<Longrightarrow>
    find (\<lambda>a. t = act_type a) q = Some a \<longleftrightarrow> a \<in> set q \<and> act_type a = t" for q
    by (induction q) (auto simp: image_iff)
  with bounds [OF inv] show ?thesis by (simp add: lookup_law [OF inv])
qed

lemma lookup_None_iff: "inv s \<Longrightarrow> lookup t s = None \<longleftrightarrow> t \<notin> act_type ` set (ss_queue (abs s))"
  by (auto simp: lookup_law find_None_iff)

text \<open>Reading and advancing until nothing is left visits the rest of the queue in order.\<close>

fun drain :: "nat \<Rightarrow> 's \<Rightarrow> s_action list" where
  "drain 0 s = []"
| "drain (Suc n) s = (case current s of None \<Rightarrow> [] | Some a \<Rightarrow> a # drain n (advance s))"

lemma drain_queue:
  "inv s \<Longrightarrow> unat (remaining s) \<le> n \<Longrightarrow> drain n s = drop (ss_pos (abs s)) (ss_queue (abs s))"
proof (induction n arbitrary: s)
  case 0
  then show ?case using bounds [OF 0(1)] by (simp add: remaining_law)
next
  case (Suc n)
  show ?case
  proof (cases "ss_pos (abs s) < length (ss_queue (abs s))")
    case True
    then have cur: "current s = Some (ss_queue (abs s) ! ss_pos (abs s))"
      using Suc.prems by (simp add: current_law)
    then have adv: "inv (advance s)" "abs (advance s) = (abs s)\<lparr>ss_pos := ss_pos (abs s) + 1\<rparr>"
      using Suc.prems advance_law by auto
    have "drain n (advance s) = drop (Suc (ss_pos (abs s))) (ss_queue (abs s))"
      using Suc.prems adv True by (subst Suc.IH) (simp_all add: remaining_law)
    then show ?thesis using cur True by (simp add: Cons_nth_drop_Suc)
  next
    case False
    then show ?thesis using Suc.prems by (simp add: current_law)
  qed
qed

lemma drain_all:
  "inv s \<Longrightarrow> ss_pos (abs s) = 0 \<Longrightarrow> drain MAX_ACTION_COUNT s = ss_queue (abs s)"
  using drain_queue [of s MAX_ACTION_COUNT] bounds [of s] by (simp add: remaining_law)

end

section \<open>The context implements the session\<close>

lemma map_nth_upt_take: "n \<le> length xs \<Longrightarrow> map (\<lambda>i. xs ! i) [0..<n] = take n xs"
  by (rule nth_equalityI) auto

lemma length_ctx_queue: "ctx_inv g \<Longrightarrow> length (ctx_queue g) = unat (action_count g)"
  by (simp add: ctx_inv_def ctx_queue_def)

lemma ctx_scan:
  "ctx_inv g \<Longrightarrow> list_ex (\<lambda>i. t = act_type (actions g ! i)) [0..<unat (action_count g)] \<longleftrightarrow>
     t \<in> act_type ` set (ctx_queue g)"
proof -
  assume inv: "ctx_inv g"
  have "list_ex (\<lambda>i. t = act_type (actions g ! i)) [0..<unat (action_count g)] \<longleftrightarrow>
        list_ex (\<lambda>a. t = act_type a) (map (\<lambda>i. actions g ! i) [0..<unat (action_count g)])"
    by (simp add: list_ex_iff)
  also have "\<dots> \<longleftrightarrow> t \<in> act_type ` set (ctx_queue g)"
    using inv by (subst map_nth_upt_take) (auto simp: ctx_inv_def ctx_queue_def list_ex_iff)
  finally show ?thesis .
qed

lemma unat_Suc_small: "unat (n :: u8) < 255 \<Longrightarrow> unat (n + 1) = unat n + 1"
  by (simp add: unat_word_ariths)

lemma ctx_push_spec:
  assumes inv: "ctx_inv g"
  shows "case ctx_push_action a g of
           Inl e \<Rightarrow> e = Reject \<and> session_push a (ctx_session g) = None
         | Inr g' \<Rightarrow> ctx_inv g' \<and> session_push a (ctx_session g) = Some (ctx_session g')"
proof (cases "unat (action_count g) < 10 \<and> action_index g = 0 \<and> act_type a \<notin> act_type ` set (ctx_queue g)")
  case True
  let ?n = "unat (action_count g)"
  let ?g = "g\<lparr>actions := (actions g)[?n := a], action_count := action_count g + 1\<rparr>"
  from True inv have step: "ctx_push_action a g = Inr ?g"
    by (simp add: ctx_push_action_def ctx_scan ctx_inv_def)
  have len: "length (actions g) = 10" using inv by (simp add: ctx_inv_def)
  have queue: "ctx_queue ?g = ctx_queue g @ [a]"
    using True len by (simp add: ctx_queue_def unat_Suc_small take_list_update_same)
  have "ctx_inv ?g"
    using True inv queue by (simp add: ctx_inv_def unat_Suc_small)
  then show ?thesis
    using True step queue length_ctx_queue [OF inv]
    by (simp add: session_push_def ctx_session_def ctx_get_action_metadata_def)
next
  case False
  have zero: "unat (action_index g) = 0 \<longleftrightarrow> action_index g = 0"
    by (simp add: unat_eq_zero)
  from False inv have "ctx_push_action a g = Inl Reject"
    by (auto simp: ctx_push_action_def ctx_scan word_neq_0_conv)
  moreover have "session_push a (ctx_session g) = None"
    using False inv by (auto simp: session_push_def ctx_session_def length_ctx_queue zero)
  ultimately show ?thesis by simp
qed

interpretation ctx: session_store ctx_inv ctx_session ctx_reset "\<lambda>m. ctx_save_action_metadata (Some m)"
  ctx_push_action ctx_get_current_action ctx_switch_to_next_action ctx_remaining_actions ctx_get_action
proof (unfold_locales, goal_cases)
  case (1 s)
  then show ?case by (simp add: ctx_session_def length_ctx_queue) (simp add: ctx_inv_def word_le_nat_alt)
next
  case (2 s)
  show ?case by (simp add: ctx_reset_def ctx_inv_def zero_defs ctx_queue_def)
next
  case (3 s)
  show ?case
    by (simp add: ctx_reset_def ctx_session_def zero_defs ctx_queue_def ctx_get_action_metadata_def
        empty_session_def)
next
  case (4 s m)
  then show ?case by (simp add: ctx_save_action_metadata_def ctx_inv_def ctx_queue_def)
next
  case (5 m s)
  show ?case
    by (simp add: ctx_save_action_metadata_def ctx_session_def ctx_queue_def ctx_get_action_metadata_def)
next
  case (6 s a s')
  then show ?case using ctx_push_spec [OF 6(1), of a] by simp
next
  case (7 s a)
  then show ?case using ctx_push_spec [OF 7, of a] by (auto split: sum.splits)
next
  case (8 s)
  then show ?case
    by (auto simp: ctx_get_current_action_def ctx_session_def length_ctx_queue word_le_nat_alt)
       (simp add: ctx_queue_def)
next
  case (9 s)
  then have lt: "action_index s < action_count s"
    by (auto simp: ctx_get_current_action_def split: if_splits)
  then have "action_index s + 1 \<le> action_count s" by (simp add: inc_le)
  with 9(1) show ?case by (simp add: ctx_switch_to_next_action_def ctx_inv_def ctx_queue_def)
next
  case (10 s)
  then have "action_index s < action_count s" "unat (action_count s) \<le> 10"
    by (auto simp: ctx_get_current_action_def ctx_inv_def split: if_splits)
  then have "unat (action_index s) < unat (action_count s)" "unat (action_count s) \<le> 10"
    by (simp_all add: word_less_nat_alt)
  then show ?case
    by (simp add: ctx_switch_to_next_action_def ctx_session_def ctx_queue_def unat_Suc_small
        ctx_get_action_metadata_def)
next
  case (11 s)
  then have "action_index s \<le> action_count s" by (simp add: ctx_inv_def)
  with 11 show ?case
    by (simp add: ctx_remaining_actions_def ctx_session_def length_ctx_queue unat_sub)
next
  case (12 s t)
  then show ?case
    by (simp add: ctx_get_action_def ctx_session_def ctx_queue_def ctx_inv_def map_nth_upt_take)
qed

lemmas ctx_session_simps = ctx_session_def

end
