(* ===== verification/Eip712.thy ===== *)
theory Eip712
  imports Sdk Metadata_Types
begin

unbundle bit_operations_syntax

text \<open>
  EIP-712 hashing and signing (\<open>eip712_common.c\<close>, \<open>eip712_cid.c\<close>, \<open>eip712_builder_fee.c\<close>,
  \<open>eip712_abstraction.c\<close>) and the derivation of the wallet address (\<open>derive_addr_from_path.c\<close>). The
  abstract side is the standard's definition of \<open>hashStruct\<close> over typed values.
\<close>

section \<open>The code\<close>

definition cx_update :: "'h cx_lib \<Rightarrow> byte list \<Rightarrow> 'h \<Rightarrow> 'h result" where
  "cx_update X d h = of_opt (cx_hash_update X h d)"

definition eip712_hash_then_feed :: "'h cx_lib \<Rightarrow> byte list \<Rightarrow> 'h \<Rightarrow> 'h result" where
  "eip712_hash_then_feed X d h = rbind (of_opt (cx_keccak_256_hash X d)) (\<lambda>tmp. cx_update X tmp h)"

definition eip712_encode_dyn_val :: "'h cx_lib \<Rightarrow> byte list \<Rightarrow> 'h \<Rightarrow> 'h result" where
  "eip712_encode_dyn_val X d h = eip712_hash_then_feed X d h"

definition eip712_encode_val :: "'h cx_lib \<Rightarrow> byte list \<Rightarrow> 'h \<Rightarrow> 'h result" where
  "eip712_encode_val X d h =
     (if length d > 32 then Inl Reject
      else let offset = 32 - length d in
           cx_update X (memcpy_at (replicate 32 0) offset d) h)"

text \<open>A chain of calls on one hash context, each of which can end the function.\<close>

fun feed_all :: "('h \<Rightarrow> 'h result) list \<Rightarrow> 'h \<Rightarrow> 'h result" where
  "feed_all [] h = Inr h"
| "feed_all (f # fs) h = rbind (f h) (feed_all fs)"

definition keccak_of :: "'h cx_lib \<Rightarrow> ('h \<Rightarrow> 'h result) list \<Rightarrow> byte list result" where
  "keccak_of X fs =
     rbind (of_opt (cx_keccak_init X)) (\<lambda>h.
     rbind (feed_all fs h) (\<lambda>h'. of_opt (cx_hash_final X h')))"

definition eip712_compute_domain_hash ::
  "byte_lib \<Rightarrow> 'h cx_lib \<Rightarrow> string \<Rightarrow> string \<Rightarrow> u64 \<Rightarrow> byte list \<Rightarrow> byte list result" where
  "eip712_compute_domain_hash B X name version chain_id verifying_contract = keccak_of X
     [eip712_encode_dyn_val X (bytes_of
        ''EIP712Domain(string name,string version,uint256 chainId,address verifyingContract)''),
      eip712_encode_dyn_val X (bytes_of name),
      eip712_encode_dyn_val X (bytes_of version),
      eip712_encode_val X (write_u64_be B chain_id),
      eip712_encode_val X verifying_contract]"

definition cid_message_hash :: "'h cx_lib \<Rightarrow> string \<Rightarrow> byte list \<Rightarrow> byte list result" where
  "cid_message_hash X source cid = keccak_of X
     [eip712_encode_dyn_val X (bytes_of ''Agent(string source,bytes32 connectionId)''),
      eip712_encode_dyn_val X (bytes_of source),
      eip712_encode_val X cid]"

definition zero_contract :: "byte list" where
  "zero_contract = replicate ADDRESS_LENGTH 0"

definition eip712_cid_hash ::
  "byte_lib \<Rightarrow> 'h cx_lib \<Rightarrow> string \<Rightarrow> byte list \<Rightarrow> (byte list \<times> byte list) result" where
  "eip712_cid_hash B X source cid =
     rbind (eip712_compute_domain_hash B X ''Exchange'' ''1'' 1337 zero_contract) (\<lambda>domh.
     rbind (cid_message_hash X source cid) (\<lambda>msg.
     Inr (domh, msg)))"

definition builder_fee_message_hash ::
  "byte_lib \<Rightarrow> 'h cx_lib \<Rightarrow> string \<Rightarrow> string \<Rightarrow> byte list \<Rightarrow> u64 \<Rightarrow> byte list result" where
  "builder_fee_message_hash B X chain max_fee_rate builder nonce = keccak_of X
     [eip712_encode_dyn_val X (bytes_of
        ''HyperliquidTransaction:ApproveBuilderFee(string hyperliquidChain,string maxFeeRate,address builder,uint64 nonce)''),
      eip712_encode_dyn_val X (bytes_of chain),
      eip712_encode_dyn_val X (bytes_of max_fee_rate),
      eip712_encode_val X builder,
      eip712_encode_val X (write_u64_be B nonce)]"

definition eip712_builder_fee_hash ::
  "byte_lib \<Rightarrow> 'h cx_lib \<Rightarrow> u64 \<Rightarrow> string \<Rightarrow> string \<Rightarrow> byte list \<Rightarrow> u64 \<Rightarrow> (byte list \<times> byte list) result" where
  "eip712_builder_fee_hash B X chain_id chain max_fee_rate builder nonce =
     rbind (eip712_compute_domain_hash B X ''HyperliquidSignTransaction'' ''1'' chain_id zero_contract) (\<lambda>domh.
     rbind (builder_fee_message_hash B X chain max_fee_rate builder nonce) (\<lambda>msg.
     Inr (domh, msg)))"

definition abstraction_message_hash ::
  "byte_lib \<Rightarrow> 'h cx_lib \<Rightarrow> string \<Rightarrow> byte list \<Rightarrow> string \<Rightarrow> u64 \<Rightarrow> byte list result" where
  "abstraction_message_hash B X chain user abstraction nonce = keccak_of X
     [eip712_encode_dyn_val X (bytes_of
        ''HyperliquidTransaction:UserSetAbstraction(string hyperliquidChain,address user,string abstraction,uint64 nonce)''),
      eip712_encode_dyn_val X (bytes_of chain),
      eip712_encode_val X user,
      eip712_encode_dyn_val X (bytes_of abstraction),
      eip712_encode_val X (write_u64_be B nonce)]"

definition eip712_abstraction_hash ::
  "byte_lib \<Rightarrow> 'h cx_lib \<Rightarrow> u64 \<Rightarrow> string \<Rightarrow> byte list \<Rightarrow> string option \<Rightarrow> u64 \<Rightarrow>
   (byte list \<times> byte list) result" where
  "eip712_abstraction_hash B X chain_id chain user abstraction nonce =
     (case abstraction of
        None \<Rightarrow> Inl Reject
      | Some mode \<Rightarrow>
          rbind (eip712_compute_domain_hash B X ''HyperliquidSignTransaction'' ''1'' chain_id zero_contract) (\<lambda>domh.
          rbind (abstraction_message_hash B X chain user mode nonce) (\<lambda>msg.
          Inr (domh, msg))))"

definition EIP_712_MAGIC :: "byte list" where
  "EIP_712_MAGIC = [0x19, 0x01]"

record s_signature =
  sig_v :: u8
  sig_r :: "byte list"
  sig_s :: "byte list"

definition eip712_sign ::
  "'h cx_lib \<Rightarrow> u32 list \<Rightarrow> byte list \<Rightarrow> byte list \<Rightarrow> s_signature result" where
  "eip712_sign X path domain_hash message_hash =
     rbind (keccak_of X [cx_update X EIP_712_MAGIC, cx_update X domain_hash, cx_update X message_hash]) (\<lambda>hash.
     rbind (of_opt (bip32_ecdsa_sign X path hash)) (\<lambda>(r, s, info).
     let v = 27;
         v = (if info AND cx_parity_odd X \<noteq> 0 then v + 1 else v);
         v = (if info AND cx_xGTn X \<noteq> 0 then v + 2 else v)
     in Inr \<lparr>sig_v = v, sig_r = r, sig_s = s\<rparr>))"

definition signature_bytes :: "s_signature \<Rightarrow> byte list" where
  "signature_bytes s = sig_v s # sig_r s @ sig_s s"

definition derive_addr_from_path :: "'h cx_lib \<Rightarrow> u32 list \<Rightarrow> byte list result" where
  "derive_addr_from_path X path =
     rbind (of_opt (bip32_derive_pubkey X path)) (\<lambda>raw_pk.
     rbind (of_opt (cx_keccak_256_hash X (drop 1 raw_pk))) (\<lambda>hashed_pk.
     Inr (take ADDRESS_LENGTH (drop (32 - ADDRESS_LENGTH) hashed_pk))))"

section \<open>The standard\<close>

datatype eip712_val =
  EString string | EUint nat | EAddress "byte list" | EBytes32 "byte list"

primrec encode_value :: "(byte list \<Rightarrow> byte list) \<Rightarrow> eip712_val \<Rightarrow> byte list" where
  "encode_value K (EString s) = K (bytes_of s)"
| "encode_value K (EUint n) = be_bytes 32 n"
| "encode_value K (EAddress a) = replicate 12 0 @ a"
| "encode_value K (EBytes32 b) = b"

definition hash_struct :: "(byte list \<Rightarrow> byte list) \<Rightarrow> string \<Rightarrow> eip712_val list \<Rightarrow> byte list" where
  "hash_struct K type vals = K (K (bytes_of type) @ concat (map (encode_value K) vals))"

definition domain_separator :: "(byte list \<Rightarrow> byte list) \<Rightarrow> string \<Rightarrow> nat \<Rightarrow> byte list" where
  "domain_separator K name chain_id = hash_struct K
     ''EIP712Domain(string name,string version,uint256 chainId,address verifyingContract)''
     [EString name, EString ''1'', EUint chain_id, EAddress zero_contract]"

definition agent_struct :: "(byte list \<Rightarrow> byte list) \<Rightarrow> string \<Rightarrow> byte list \<Rightarrow> byte list" where
  "agent_struct K source cid = hash_struct K ''Agent(string source,bytes32 connectionId)''
     [EString source, EBytes32 cid]"

definition builder_fee_struct ::
  "(byte list \<Rightarrow> byte list) \<Rightarrow> string \<Rightarrow> string \<Rightarrow> byte list \<Rightarrow> u64 \<Rightarrow> byte list" where
  "builder_fee_struct K chain rate builder nonce = hash_struct K
     ''HyperliquidTransaction:ApproveBuilderFee(string hyperliquidChain,string maxFeeRate,address builder,uint64 nonce)''
     [EString chain, EString rate, EAddress builder, EUint (unat nonce)]"

definition abstraction_struct ::
  "(byte list \<Rightarrow> byte list) \<Rightarrow> string \<Rightarrow> byte list \<Rightarrow> string \<Rightarrow> u64 \<Rightarrow> byte list" where
  "abstraction_struct K chain user mode nonce = hash_struct K
     ''HyperliquidTransaction:UserSetAbstraction(string hyperliquidChain,address user,string abstraction,uint64 nonce)''
     [EString chain, EAddress user, EString mode, EUint (unat nonce)]"

definition signing_digest :: "(byte list \<Rightarrow> byte list) \<Rightarrow> byte list \<Rightarrow> byte list \<Rightarrow> byte list" where
  "signing_digest K domh msg = K (EIP_712_MAGIC @ domh @ msg)"

section \<open>What is fed to a hash context\<close>

definition feeds :: "('h \<Rightarrow> hash_kind \<times> byte list) \<Rightarrow> ('h \<Rightarrow> 'h result) \<Rightarrow> byte list \<Rightarrow> bool" where
  "feeds absorbed f bs \<longleftrightarrow>
     (\<forall>h h'. f h = Inr h' \<longrightarrow> absorbed h' = (fst (absorbed h), snd (absorbed h) @ bs))"

named_theorems feeds_intros \<open>what one call feeds\<close>

lemma feeds_update [feeds_intros]: "absorbs X K S ab \<Longrightarrow> feeds ab (cx_update X d) d"
  by (simp add: feeds_def cx_update_def absorbs_def)

lemma feeds_dyn_val [feeds_intros]: "absorbs X K S ab \<Longrightarrow> feeds ab (eip712_encode_dyn_val X d) (K d)"
  by (auto simp: feeds_def eip712_encode_dyn_val_def eip712_hash_then_feed_def cx_update_def absorbs_def
      rbind_Inr_conv)

lemma feeds_val [feeds_intros]:
  "absorbs X K S ab \<Longrightarrow> feeds ab (eip712_encode_val X d) (replicate (32 - length d) 0 @ d)"
  by (auto simp: feeds_def eip712_encode_val_def cx_update_def absorbs_def memcpy_at_def)

lemma feeds_all_Nil [feeds_intros]: "feeds ab (feed_all []) []"
  by (simp add: feeds_def)

lemma feeds_all_Cons [feeds_intros]:
  "feeds ab f xs \<Longrightarrow> feeds ab (feed_all fs) ys \<Longrightarrow> feeds ab (feed_all (f # fs)) (xs @ ys)"
  by (auto simp: feeds_def rbind_Inr_conv)

lemma keccak_of_spec:
  "absorbs X K S ab \<Longrightarrow> feeds ab (feed_all fs) d \<Longrightarrow> keccak_of X fs = Inr out \<Longrightarrow> out = K d"
proof -
  assume ab: "absorbs X K S ab" "feeds ab (feed_all fs) d" "keccak_of X fs = Inr out"
  then obtain h h' where "cx_keccak_init X = Some h" "feed_all fs h = Inr h'" "cx_hash_final X h' = Some out"
    by (auto simp: keccak_of_def rbind_Inr_conv)
  moreover from this ab have "ab h' = (Keccak, d)" by (simp add: absorbs_def feeds_def)
  ultimately show ?thesis using ab(1) by (fastforce simp: absorbs_def)
qed

lemma no_ub_feed_all: "(\<And>f h. f \<in> set fs \<Longrightarrow> no_ub (f h)) \<Longrightarrow> no_ub (feed_all fs h)"
  by (induction fs arbitrary: h) (auto intro!: no_ub_rbind)

lemma no_ub_feeds [simp]:
  "no_ub (cx_update X d h)" "no_ub (eip712_encode_dyn_val X d h)" "no_ub (eip712_encode_val X d h)"
  by (auto simp: cx_update_def eip712_encode_dyn_val_def eip712_hash_then_feed_def eip712_encode_val_def
      Let_def intro!: no_ub_rbind)

lemma no_ub_keccak_of: "(\<And>f h. f \<in> set fs \<Longrightarrow> no_ub (f h)) \<Longrightarrow> no_ub (keccak_of X fs)"
  unfolding keccak_of_def by (intro no_ub_rbind no_ub_feed_all) auto

lemma keccak_of_length: "cx_sizes X \<Longrightarrow> keccak_of X fs = Inr out \<Longrightarrow> length out = 32"
  by (auto simp: keccak_of_def rbind_Inr_conv cx_sizes_def)

section \<open>The code computes the standard's hashes\<close>

lemma domain_hash_spec:
  assumes "absorbs X K S ab" "bytes_ok B"
    and "eip712_compute_domain_hash B X name ''1'' chain_id zero_contract = Inr out"
  shows "out = domain_separator K name (unat chain_id)"
proof -
  note run = assms(3) [unfolded eip712_compute_domain_hash_def]
  show ?thesis
    by (rule keccak_of_spec [OF assms(1) _ run, THEN trans])
      ((rule feeds_intros assms(1))+,
       simp add: domain_separator_def hash_struct_def bytes_okD(2) [OF assms(2)] u64_be_pad zero_contract_def)
qed

lemma cid_message_spec:
  assumes "absorbs X K S ab" "length cid = 32" "cid_message_hash X source cid = Inr out"
  shows "out = agent_struct K source cid"
proof -
  note run = assms(3) [unfolded cid_message_hash_def]
  show ?thesis
    by (rule keccak_of_spec [OF assms(1) _ run, THEN trans])
      ((rule feeds_intros assms(1))+, simp add: agent_struct_def hash_struct_def assms(2))
qed

lemma builder_fee_message_spec:
  assumes "absorbs X K S ab" "bytes_ok B" "length builder = 20"
    and "builder_fee_message_hash B X chain rate builder nonce = Inr out"
  shows "out = builder_fee_struct K chain rate builder nonce"
proof -
  note run = assms(4) [unfolded builder_fee_message_hash_def]
  show ?thesis
    by (rule keccak_of_spec [OF assms(1) _ run, THEN trans])
      ((rule feeds_intros assms(1))+,
       simp add: builder_fee_struct_def hash_struct_def bytes_okD(2) [OF assms(2)] u64_be_pad assms(3))
qed

lemma abstraction_message_spec:
  assumes "absorbs X K S ab" "bytes_ok B" "length user = 20"
    and "abstraction_message_hash B X chain user mode nonce = Inr out"
  shows "out = abstraction_struct K chain user mode nonce"
proof -
  note run = assms(4) [unfolded abstraction_message_hash_def]
  show ?thesis
    by (rule keccak_of_spec [OF assms(1) _ run, THEN trans])
      ((rule feeds_intros assms(1))+,
       simp add: abstraction_struct_def hash_struct_def bytes_okD(2) [OF assms(2)] u64_be_pad assms(3))
qed

lemma eip712_cid_hash_spec:
  assumes "cx_hashes X K S" "bytes_ok B" "length cid = 32" "eip712_cid_hash B X source cid = Inr (domh, msg)"
  shows "domh = domain_separator K ''Exchange'' 1337" "msg = agent_struct K source cid"
  using assms domain_hash_spec [of X K S _ B "''Exchange''" 1337 domh] cid_message_spec [of X K S _ cid source msg]
  by (auto simp: eip712_cid_hash_def rbind_Inr_conv cx_hashes_def)

lemma eip712_builder_fee_hash_spec:
  assumes "cx_hashes X K S" "bytes_ok B" "length builder = 20"
    and "eip712_builder_fee_hash B X chain_id chain rate builder nonce = Inr (domh, msg)"
  shows "domh = domain_separator K ''HyperliquidSignTransaction'' (unat chain_id)"
    "msg = builder_fee_struct K chain rate builder nonce"
  using assms domain_hash_spec [of X K S _ B "''HyperliquidSignTransaction''" chain_id domh]
    builder_fee_message_spec [of X K S _ B builder chain rate nonce msg]
  by (auto simp: eip712_builder_fee_hash_def rbind_Inr_conv cx_hashes_def)

lemma eip712_abstraction_hash_spec:
  assumes "cx_hashes X K S" "bytes_ok B" "length user = 20"
    and "eip712_abstraction_hash B X chain_id chain user mode nonce = Inr (domh, msg)"
  shows "domh = domain_separator K ''HyperliquidSignTransaction'' (unat chain_id)"
    "\<exists>a. mode = Some a \<and> msg = abstraction_struct K chain user a nonce"
  using assms domain_hash_spec [of X K S _ B "''HyperliquidSignTransaction''" chain_id domh]
    abstraction_message_spec [of X K S _ B user chain _ nonce msg]
  by (auto simp: eip712_abstraction_hash_def rbind_Inr_conv cx_hashes_def split: option.splits)

lemma eip712_sign_spec:
  assumes "cx_hashes X K S" "eip712_sign X path domh msg = Inr sg"
  shows "\<exists>info. bip32_ecdsa_sign X path (signing_digest K domh msg) = Some (sig_r sg, sig_s sg, info) \<and>
     sig_v sg = 27 + (if info AND cx_parity_odd X \<noteq> 0 then 1 else 0) + (if info AND cx_xGTn X \<noteq> 0 then 2 else 0)"
proof -
  from assms(1) obtain ab where ab: "absorbs X K S ab" by (auto simp: cx_hashes_def)
  from assms(2) obtain hash info
    where run: "keccak_of X [cx_update X EIP_712_MAGIC, cx_update X domh, cx_update X msg] = Inr hash"
      and rs: "bip32_ecdsa_sign X path hash = Some (sig_r sg, sig_s sg, info)"
      and v: "sig_v sg = 27 + (if info AND cx_parity_odd X \<noteq> 0 then 1 else 0)
                + (if info AND cx_xGTn X \<noteq> 0 then 2 else 0)"
    by (auto simp: eip712_sign_def rbind_Inr_conv Let_def)
  have "hash = signing_digest K domh msg"
    by (rule keccak_of_spec [OF ab _ run, THEN trans])
      ((rule feeds_intros ab)+, simp add: signing_digest_def)
  with rs v show ?thesis by blast
qed

lemma signature_bytes_length:
  "cx_sizes X \<Longrightarrow> eip712_sign X path domh msg = Inr sg \<Longrightarrow> length (signature_bytes sg) = 65"
proof -
  assume X: "cx_sizes X" and "eip712_sign X path domh msg = Inr sg"
  then obtain h r s info where "bip32_ecdsa_sign X path h = Some (r, s, info)" "sig_r sg = r" "sig_s sg = s"
    by (auto simp: eip712_sign_def rbind_Inr_conv Let_def)
  with X have "length (sig_r sg) = 32 \<and> length (sig_s sg) = 32" by (simp add: cx_sizes_def) blast
  then show ?thesis by (simp add: signature_bytes_def)
qed

lemma derive_addr_length:
  "cx_sizes X \<Longrightarrow> derive_addr_from_path X path = Inr a \<Longrightarrow> length a = ADDRESS_LENGTH"
  by (auto simp: derive_addr_from_path_def rbind_Inr_conv cx_sizes_def)

lemma derive_addr_spec:
  "cx_hashes X K S \<Longrightarrow> derive_addr_from_path X path = Inr a \<Longrightarrow>
   \<exists>pk. bip32_derive_pubkey X path = Some pk \<and> a = take 20 (drop 12 (K (drop 1 pk)))"
  by (auto simp: derive_addr_from_path_def rbind_Inr_conv cx_hashes_def absorbs_def)

lemma eip712_no_ub:
  "no_ub (eip712_cid_hash B X source cid)"
  "no_ub (eip712_builder_fee_hash B X chain_id chain rate builder nonce)"
  "no_ub (eip712_abstraction_hash B X chain_id chain user mode nonce)"
  "no_ub (eip712_sign X path domh msg)"
  "no_ub (derive_addr_from_path X path)"
  by (auto simp: eip712_cid_hash_def eip712_builder_fee_hash_def eip712_abstraction_hash_def eip712_sign_def
      derive_addr_from_path_def eip712_compute_domain_hash_def cid_message_hash_def builder_fee_message_hash_def
      abstraction_message_hash_def Let_def intro!: no_ub_rbind no_ub_keccak_of split: option.splits prod.splits)

end
