(* ===== verification/Action.thy ===== *)
theory Action
  imports Hl_Context Eip712
begin

text \<open>
  Actions (\<open>action.c\<close>): the parser of an action struct, the check of its type against the operation
  declared by the metadata, its MessagePack form, and the hashes that are signed for it.

  The union of the seven sub-parser contexts is kept as seven fields, like the union of the
  payloads. The metadata is read from the signing context while the payload is parsed.
\<close>

section \<open>Parse context\<close>

record s_action_ctx = tlv_ctx +
  action :: s_action
  ac_bulk_order_ctx :: s_bulk_order_ctx
  ac_bulk_modify_ctx :: s_bulk_modify_ctx
  ac_bulk_cancel_ctx :: s_bulk_cancel_ctx
  ac_update_leverage_ctx :: s_update_leverage_ctx
  ac_approve_builder_fee_ctx :: s_approve_builder_fee_ctx
  ac_update_isolated_margin_ctx :: s_update_isolated_margin_ctx
  ac_user_set_abstraction_ctx :: s_user_set_abstraction_ctx

definition s_action_ctx_0 :: s_action_ctx where [zero_defs]:
  "s_action_ctx_0 = \<lparr>received_tags = [], action = s_action_0,
     ac_bulk_order_ctx = s_bulk_order_ctx_0, ac_bulk_modify_ctx = s_bulk_modify_ctx_0,
     ac_bulk_cancel_ctx = s_bulk_cancel_ctx_0, ac_update_leverage_ctx = s_update_leverage_ctx_0,
     ac_approve_builder_fee_ctx = s_approve_builder_fee_ctx_0,
     ac_update_isolated_margin_ctx = s_update_isolated_margin_ctx_0,
     ac_user_set_abstraction_ctx = s_user_set_abstraction_ctx_0\<rparr>"

lemma action_ctx_simps [simp]:
  "received_tags (c\<lparr>action := a\<rparr>) = received_tags c"
  "received_tags (c\<lparr>ac_bulk_order_ctx := x1\<rparr>) = received_tags c"
  "received_tags (c\<lparr>ac_bulk_modify_ctx := x2\<rparr>) = received_tags c"
  "received_tags (c\<lparr>ac_bulk_cancel_ctx := x3\<rparr>) = received_tags c"
  "received_tags (c\<lparr>ac_update_leverage_ctx := x4\<rparr>) = received_tags c"
  "received_tags (c\<lparr>ac_approve_builder_fee_ctx := x5\<rparr>) = received_tags c"
  "received_tags (c\<lparr>ac_update_isolated_margin_ctx := x6\<rparr>) = received_tags c"
  "received_tags (c\<lparr>ac_user_set_abstraction_ctx := x7\<rparr>) = received_tags c"
  by (cases c; simp)+

lemma action_ctx_mark [simp]:
  "action (mark_received t c) = action c"
  "ac_bulk_order_ctx (mark_received t c) = ac_bulk_order_ctx c"
  "ac_bulk_modify_ctx (mark_received t c) = ac_bulk_modify_ctx c"
  "ac_bulk_cancel_ctx (mark_received t c) = ac_bulk_cancel_ctx c"
  "ac_update_leverage_ctx (mark_received t c) = ac_update_leverage_ctx c"
  "ac_approve_builder_fee_ctx (mark_received t c) = ac_approve_builder_fee_ctx c"
  "ac_update_isolated_margin_ctx (mark_received t c) = ac_update_isolated_margin_ctx c"
  "ac_user_set_abstraction_ctx (mark_received t c) = ac_user_set_abstraction_ctx c"
  by (cases c; simp add: mark_received_def)+

section \<open>Handlers\<close>

definition ACTION_STRUCT_TYPE :: u8 where "ACTION_STRUCT_TYPE = 0x2c"

definition action_handle_struct_type :: "tlv_lib \<Rightarrow> s_action_ctx handler" where
  "action_handle_struct_type L d out = rbind (of_opt (get_uint8 L d)) (\<lambda>struct_type.
     if struct_type \<noteq> ACTION_STRUCT_TYPE then Inl Reject else Inr out)"

definition action_handle_struct_version :: "tlv_lib \<Rightarrow> s_action_ctx handler" where
  "action_handle_struct_version L d out = rbind (of_opt (get_uint8 L d)) (\<lambda>struct_version.
     if struct_version \<noteq> 1 then Inl Reject else Inr out)"

definition handle_action_type :: "tlv_lib \<Rightarrow> s_action_ctx handler" where
  "handle_action_type L d out = rbind (of_opt (get_uint8 L d)) (\<lambda>b.
     rbind (of_opt (enum_of action_type_code
       [ACTION_TYPE_BULK_ORDER, ACTION_TYPE_BULK_MODIFY, ACTION_TYPE_BULK_CANCEL,
        ACTION_TYPE_UPDATE_LEVERAGE, ACTION_TYPE_APPROVE_BUILDER_FEE,
        ACTION_TYPE_UPDATE_ISOLATED_MARGIN, ACTION_TYPE_USER_SET_ABSTRACTION] b)) (\<lambda>t.
     Inr (out\<lparr>action := (action out)\<lparr>act_type := t\<rparr>\<rparr>)))"

definition handle_nonce :: "tlv_lib \<Rightarrow> s_action_ctx handler" where
  "handle_nonce L d out = rbind (of_opt (get_uint64 L d)) (\<lambda>n.
     Inr (out\<lparr>action := (action out)\<lparr>act_nonce := n\<rparr>\<rparr>))"

definition handle_action :: "tlv_lib \<Rightarrow> s_action_metadata option \<Rightarrow> s_action_ctx handler" where
  "handle_action L md d out =
     (let a = action out; v = td_value d in
      if \<not> tlv_check_received [0xd0] out then Inl Reject
      else case act_type a of
        ACTION_TYPE_BULK_ORDER \<Rightarrow>
          rbind (parse_bulk_order L md v ((ac_bulk_order_ctx out)\<lparr>bulk_order := act_bulk_order a\<rparr>)) (\<lambda>c.
          Inr (out\<lparr>ac_bulk_order_ctx := c, action := a\<lparr>act_bulk_order := bulk_order c\<rparr>\<rparr>))
      | ACTION_TYPE_BULK_MODIFY \<Rightarrow>
          rbind (parse_bulk_modify L md v ((ac_bulk_modify_ctx out)\<lparr>bulk_modify := act_bulk_modify a\<rparr>)) (\<lambda>c.
          Inr (out\<lparr>ac_bulk_modify_ctx := c, action := a\<lparr>act_bulk_modify := bulk_modify c\<rparr>\<rparr>))
      | ACTION_TYPE_BULK_CANCEL \<Rightarrow>
          rbind (parse_bulk_cancel L md v ((ac_bulk_cancel_ctx out)\<lparr>bulk_cancel := act_bulk_cancel a\<rparr>)) (\<lambda>c.
          Inr (out\<lparr>ac_bulk_cancel_ctx := c, action := a\<lparr>act_bulk_cancel := bulk_cancel c\<rparr>\<rparr>))
      | ACTION_TYPE_UPDATE_LEVERAGE \<Rightarrow>
          rbind (parse_update_leverage L md v
                   ((ac_update_leverage_ctx out)\<lparr>update_leverage := act_update_leverage a\<rparr>)) (\<lambda>c.
          Inr (out\<lparr>ac_update_leverage_ctx := c, action := a\<lparr>act_update_leverage := update_leverage c\<rparr>\<rparr>))
      | ACTION_TYPE_APPROVE_BUILDER_FEE \<Rightarrow>
          rbind (parse_approve_builder_fee L v
                   ((ac_approve_builder_fee_ctx out)\<lparr>approve_builder_fee := act_approve_builder_fee a\<rparr>)) (\<lambda>c.
          Inr (out\<lparr>ac_approve_builder_fee_ctx := c,
                   action := a\<lparr>act_approve_builder_fee := approve_builder_fee c\<rparr>\<rparr>))
      | ACTION_TYPE_UPDATE_ISOLATED_MARGIN \<Rightarrow>
          rbind (parse_update_isolated_margin L md v
                   ((ac_update_isolated_margin_ctx out)
                      \<lparr>update_isolated_margin := act_update_isolated_margin a\<rparr>)) (\<lambda>c.
          Inr (out\<lparr>ac_update_isolated_margin_ctx := c,
                   action := a\<lparr>act_update_isolated_margin := update_isolated_margin c\<rparr>\<rparr>))
      | ACTION_TYPE_USER_SET_ABSTRACTION \<Rightarrow>
          rbind (parse_user_set_abstraction L v
                   ((ac_user_set_abstraction_ctx out)\<lparr>user_set_abstraction := act_user_set_abstraction a\<rparr>)) (\<lambda>c.
          Inr (out\<lparr>ac_user_set_abstraction_ctx := c,
                   action := a\<lparr>act_user_set_abstraction := user_set_abstraction c\<rparr>\<rparr>)))"

definition ACTION_TAGS :: "tlv_lib \<Rightarrow> s_action_metadata option \<Rightarrow> s_action_ctx tag_table" where
  "ACTION_TAGS L md =
     [(0x01, action_handle_struct_type L, ENFORCE_UNIQUE_TAG),
      (0x02, action_handle_struct_version L, ENFORCE_UNIQUE_TAG),
      (0xd0, handle_action_type L, ENFORCE_UNIQUE_TAG),
      (0xda, handle_nonce L, ENFORCE_UNIQUE_TAG),
      (0xdb, handle_action L md, ENFORCE_UNIQUE_TAG)]"

definition verify_action :: "s_action_ctx \<Rightarrow> bool" where
  "verify_action out \<longleftrightarrow> tlv_check_received [0x01, 0x02, 0xd0, 0xda, 0xdb] out"

definition is_action_compatible :: "e_action_type \<Rightarrow> e_operation_type \<Rightarrow> s_hl_context \<Rightarrow> bool" where
  "is_action_compatible t op g = (case op of
       OP_TYPE_ORDER \<Rightarrow>
         t = ACTION_TYPE_BULK_ORDER \<or> t = ACTION_TYPE_UPDATE_LEVERAGE \<or>
         t = ACTION_TYPE_APPROVE_BUILDER_FEE \<or> t = ACTION_TYPE_USER_SET_ABSTRACTION
     | OP_TYPE_MODIFY \<Rightarrow>
         (if t \<noteq> ACTION_TYPE_BULK_MODIFY \<and> t \<noteq> ACTION_TYPE_BULK_ORDER then False
          else ctx_get_action ACTION_TYPE_BULK_MODIFY g = None \<and> ctx_get_action ACTION_TYPE_BULK_ORDER g = None)
     | OP_TYPE_CANCEL \<Rightarrow> t = ACTION_TYPE_BULK_CANCEL
     | OP_TYPE_CANCEL_SL \<Rightarrow> t = ACTION_TYPE_BULK_CANCEL
     | OP_TYPE_CANCEL_TP \<Rightarrow> t = ACTION_TYPE_BULK_CANCEL
     | OP_TYPE_CANCEL_TP_SL \<Rightarrow> t = ACTION_TYPE_BULK_CANCEL
     | OP_TYPE_CLOSE \<Rightarrow> t = ACTION_TYPE_BULK_ORDER
     | OP_TYPE_UPDATE_MARGIN \<Rightarrow> t = ACTION_TYPE_UPDATE_ISOLATED_MARGIN
     | OP_TYPE_UPDATE_LEVERAGE \<Rightarrow> False)"

text \<open>The new context, or the fault; the context is unchanged when an action is refused.\<close>

definition parse_action :: "tlv_lib \<Rightarrow> byte list option \<Rightarrow> s_hl_context \<Rightarrow> s_hl_context result" where
  "parse_action L payload g =
     rbind (of_opt payload) (\<lambda>p.
     rbind (of_opt (ctx_get_action_metadata g)) (\<lambda>md.
     rbind (tlv_parser L (ACTION_TAGS L (Some md)) no_common p s_action_ctx_0) (\<lambda>out.
     if \<not> verify_action out then Inl Reject
     else if \<not> is_action_compatible (act_type (action out)) (md_op_type md) g then Inl Reject
     else ctx_push_action (action out) g)))"

section \<open>Serialization and hashing\<close>

definition action_serialize :: "cmp_lib \<Rightarrow> s_action \<Rightarrow> ser" where
  "action_serialize C a = (case act_type a of
       ACTION_TYPE_BULK_ORDER \<Rightarrow> bulk_order_serialize C (act_bulk_order a)
     | ACTION_TYPE_BULK_MODIFY \<Rightarrow> bulk_modify_serialize C (act_bulk_modify a)
     | ACTION_TYPE_BULK_CANCEL \<Rightarrow> bulk_cancel_serialize C (act_bulk_cancel a)
     | ACTION_TYPE_UPDATE_LEVERAGE \<Rightarrow> update_leverage_serialize C (act_update_leverage a)
     | ACTION_TYPE_UPDATE_ISOLATED_MARGIN \<Rightarrow>
         update_isolated_margin_serialize C (act_update_isolated_margin a)
     | _ \<Rightarrow> (\<lambda>c. (False, c)))"

definition MAX_SERIALIZED_ACTION_SIZE :: nat where "MAX_SERIALIZED_ACTION_SIZE = 1024"

text \<open>\<open>raw\<close> is the content of the static scratch buffer \<open>g_raw_buf\<close> when the function is entered.\<close>

definition compute_connection_id_in ::
  "cmp_lib \<Rightarrow> byte_lib \<Rightarrow> 'h cx_lib \<Rightarrow> byte list \<Rightarrow> s_action \<Rightarrow> byte \<Rightarrow> byte list result" where
  "compute_connection_id_in C B X raw a end_byte =
     (case action_serialize C a (Some \<lparr>buf_ptr = raw, buf_size = MAX_SERIALIZED_ACTION_SIZE, buf_offset = 0\<rparr>) of
        (ok, c) \<Rightarrow>
          if \<not> ok then Inl Reject
          else case c of
            None \<Rightarrow> Inl Null_deref
          | Some buf \<Rightarrow> keccak_of X
              [cx_update X (take (buf_offset buf) (buf_ptr buf)),
               cx_update X (write_u64_be B (act_nonce a)),
               cx_update X [end_byte]])"

definition compute_connection_id ::
  "cmp_lib \<Rightarrow> byte_lib \<Rightarrow> 'h cx_lib \<Rightarrow> s_action \<Rightarrow> byte \<Rightarrow> byte list result" where
  "compute_connection_id C B X a end_byte =
     compute_connection_id_in C B X (replicate MAX_SERIALIZED_ACTION_SIZE 0) a end_byte"

definition network_name :: "e_network \<Rightarrow> string" where
  "network_name n = (if n = NETWORK_MAINNET then ''Mainnet'' else ''Testnet'')"

definition network_source :: "e_network \<Rightarrow> string" where
  "network_source n = (if n = NETWORK_MAINNET then ''a'' else ''b'')"

text \<open>The domain and the message hash; the output pointers are never \<open>NULL\<close>.\<close>

definition action_hash ::
  "cmp_lib \<Rightarrow> byte_lib \<Rightarrow> 'h cx_lib \<Rightarrow> s_action option \<Rightarrow> s_action_metadata option \<Rightarrow> byte list \<Rightarrow>
   (byte list \<times> byte list) result" where
  "action_hash C B X action_p metadata_p wallet_addr =
     rbind (of_opt action_p) (\<lambda>a.
     rbind (of_opt metadata_p) (\<lambda>md.
     case act_type a of
       ACTION_TYPE_APPROVE_BUILDER_FEE \<Rightarrow>
         (let f = act_approve_builder_fee a in
          eip712_builder_fee_hash B X (ab_signature_chain_id f) (network_name (md_network md))
            (ab_max_fee_rate f) (ab_builder f) (act_nonce a))
     | ACTION_TYPE_USER_SET_ABSTRACTION \<Rightarrow>
         (let u = act_user_set_abstraction a in
          eip712_abstraction_hash B X (ua_signature_chain_id u) (network_name (md_network md))
            wallet_addr (get_abstraction_string u) (act_nonce a))
     | _ \<Rightarrow>
         rbind (compute_connection_id C B X a 0) (\<lambda>connection_id.
         eip712_cid_hash B X (network_source (md_network md)) connection_id)))"

section \<open>What a parsed action satisfies\<close>

definition action_wf :: "s_action_metadata option \<Rightarrow> s_action \<Rightarrow> bool" where
  "action_wf md a = (case act_type a of
       ACTION_TYPE_BULK_ORDER \<Rightarrow> bulk_order_wf md (act_bulk_order a)
     | ACTION_TYPE_BULK_MODIFY \<Rightarrow> bulk_modify_wf md (act_bulk_modify a)
     | ACTION_TYPE_BULK_CANCEL \<Rightarrow> bulk_cancel_wf md (act_bulk_cancel a)
     | ACTION_TYPE_UPDATE_LEVERAGE \<Rightarrow> leverage_wf_md md (act_update_leverage a)
     | ACTION_TYPE_APPROVE_BUILDER_FEE \<Rightarrow> fee_wf (act_approve_builder_fee a)
     | ACTION_TYPE_UPDATE_ISOLATED_MARGIN \<Rightarrow> margin_wf_md md (act_update_isolated_margin a)
     | ACTION_TYPE_USER_SET_ABSTRACTION \<Rightarrow> abstraction_wf (act_user_set_abstraction a))"

text \<open>
  Only the payload of the action's type is written: with the other six at zero the seven-field
  struct carries no more information than the union.
\<close>

definition payload_zero :: "s_action \<Rightarrow> bool" where
  "payload_zero a \<longleftrightarrow> a = s_action_0\<lparr>act_type := act_type a, act_nonce := act_nonce a\<rparr>"

definition subcontexts_zero :: "s_action_ctx \<Rightarrow> bool" where
  "subcontexts_zero c \<longleftrightarrow>
     ac_bulk_order_ctx c = s_bulk_order_ctx_0 \<and> ac_bulk_modify_ctx c = s_bulk_modify_ctx_0 \<and>
     ac_bulk_cancel_ctx c = s_bulk_cancel_ctx_0 \<and> ac_update_leverage_ctx c = s_update_leverage_ctx_0 \<and>
     ac_approve_builder_fee_ctx c = s_approve_builder_fee_ctx_0 \<and>
     ac_update_isolated_margin_ctx c = s_update_isolated_margin_ctx_0 \<and>
     ac_user_set_abstraction_ctx c = s_user_set_abstraction_ctx_0"

text \<open>The payload of the action's type, alone.\<close>

definition payload_only :: "s_action \<Rightarrow> s_action" where
  "payload_only a = (let z = s_action_0\<lparr>act_type := act_type a, act_nonce := act_nonce a\<rparr> in
     case act_type a of
       ACTION_TYPE_BULK_ORDER \<Rightarrow> z\<lparr>act_bulk_order := act_bulk_order a\<rparr>
     | ACTION_TYPE_BULK_MODIFY \<Rightarrow> z\<lparr>act_bulk_modify := act_bulk_modify a\<rparr>
     | ACTION_TYPE_BULK_CANCEL \<Rightarrow> z\<lparr>act_bulk_cancel := act_bulk_cancel a\<rparr>
     | ACTION_TYPE_UPDATE_LEVERAGE \<Rightarrow> z\<lparr>act_update_leverage := act_update_leverage a\<rparr>
     | ACTION_TYPE_APPROVE_BUILDER_FEE \<Rightarrow> z\<lparr>act_approve_builder_fee := act_approve_builder_fee a\<rparr>
     | ACTION_TYPE_UPDATE_ISOLATED_MARGIN \<Rightarrow>
         z\<lparr>act_update_isolated_margin := act_update_isolated_margin a\<rparr>
     | ACTION_TYPE_USER_SET_ABSTRACTION \<Rightarrow> z\<lparr>act_user_set_abstraction := act_user_set_abstraction a\<rparr>)"

definition action_ctx_inv :: "s_action_metadata option \<Rightarrow> s_action_ctx \<Rightarrow> bool" where
  "action_ctx_inv md c \<longleftrightarrow>
     (if 0xdb \<in> set (received_tags c)
      then 0xd0 \<in> set (received_tags c) \<and> action_wf md (action c) \<and> payload_only (action c) = action c
      else payload_zero (action c) \<and> subcontexts_zero c)"

lemma action_handlerE:
  assumes "find_handler (ACTION_TAGS L md) t = Some h"
  obtains (stype) "t = 0x01" "h = action_handle_struct_type L"
  | (version) "t = 0x02" "h = action_handle_struct_version L"
  | (atype) "t = 0xd0" "h = handle_action_type L"
  | (nonce) "t = 0xda" "h = handle_nonce L"
  | (body) "t = 0xdb" "h = handle_action L md"
  using assms by (auto simp: ACTION_TAGS_def split: if_splits)

lemma payload_zero_update:
  "payload_zero a \<Longrightarrow> payload_zero (a\<lparr>act_type := t\<rparr>)"
  "payload_zero a \<Longrightarrow> payload_zero (a\<lparr>act_nonce := n\<rparr>)"
  by (cases a; simp add: payload_zero_def s_action_0_def)+

lemma payload_only_nonce: "payload_only a = a \<Longrightarrow> payload_only (a\<lparr>act_nonce := n\<rparr>) = a\<lparr>act_nonce := n\<rparr>"
  by (cases a; cases "act_type a") (simp_all add: payload_only_def Let_def s_action_0_def)

lemma action_wf_nonce [simp]: "action_wf md (a\<lparr>act_nonce := n\<rparr>) = action_wf md a"
  by (simp add: action_wf_def split: e_action_type.splits)

text \<open>The sub-parser is entered with a wiped context that points at a zeroed payload.\<close>

lemma subcontexts_wiped:
  assumes "payload_zero (action c)" "subcontexts_zero c"
  shows "(ac_bulk_order_ctx c)\<lparr>bulk_order := act_bulk_order (action c)\<rparr> = s_bulk_order_ctx_0"
    "(ac_bulk_modify_ctx c)\<lparr>bulk_modify := act_bulk_modify (action c)\<rparr> = s_bulk_modify_ctx_0"
    "(ac_bulk_cancel_ctx c)\<lparr>bulk_cancel := act_bulk_cancel (action c)\<rparr> = s_bulk_cancel_ctx_0"
    "(ac_update_leverage_ctx c)\<lparr>update_leverage := act_update_leverage (action c)\<rparr> = s_update_leverage_ctx_0"
    "(ac_approve_builder_fee_ctx c)\<lparr>approve_builder_fee := act_approve_builder_fee (action c)\<rparr>
       = s_approve_builder_fee_ctx_0"
    "(ac_update_isolated_margin_ctx c)\<lparr>update_isolated_margin := act_update_isolated_margin (action c)\<rparr>
       = s_update_isolated_margin_ctx_0"
    "(ac_user_set_abstraction_ctx c)\<lparr>user_set_abstraction := act_user_set_abstraction (action c)\<rparr>
       = s_user_set_abstraction_ctx_0"
  using assms
  by (cases "action c"; simp add: payload_zero_def subcontexts_zero_def zero_defs)+

lemma payload_zero_only:
  assumes "payload_zero a"
  shows "act_type a = ACTION_TYPE_BULK_ORDER \<Longrightarrow> payload_only (a\<lparr>act_bulk_order := x1\<rparr>) = a\<lparr>act_bulk_order := x1\<rparr>"
    "act_type a = ACTION_TYPE_BULK_MODIFY \<Longrightarrow> payload_only (a\<lparr>act_bulk_modify := x2\<rparr>) = a\<lparr>act_bulk_modify := x2\<rparr>"
    "act_type a = ACTION_TYPE_BULK_CANCEL \<Longrightarrow> payload_only (a\<lparr>act_bulk_cancel := x3\<rparr>) = a\<lparr>act_bulk_cancel := x3\<rparr>"
    "act_type a = ACTION_TYPE_UPDATE_LEVERAGE \<Longrightarrow>
       payload_only (a\<lparr>act_update_leverage := x4\<rparr>) = a\<lparr>act_update_leverage := x4\<rparr>"
    "act_type a = ACTION_TYPE_APPROVE_BUILDER_FEE \<Longrightarrow>
       payload_only (a\<lparr>act_approve_builder_fee := x5\<rparr>) = a\<lparr>act_approve_builder_fee := x5\<rparr>"
    "act_type a = ACTION_TYPE_UPDATE_ISOLATED_MARGIN \<Longrightarrow>
       payload_only (a\<lparr>act_update_isolated_margin := x6\<rparr>) = a\<lparr>act_update_isolated_margin := x6\<rparr>"
    "act_type a = ACTION_TYPE_USER_SET_ABSTRACTION \<Longrightarrow>
       payload_only (a\<lparr>act_user_set_abstraction := x7\<rparr>) = a\<lparr>act_user_set_abstraction := x7\<rparr>"
  using assms by (cases a; simp add: payload_zero_def payload_only_def s_action_0_def)+

lemma handle_action_spec:
  assumes L: "tlv_lib_ok L" and md: "md \<noteq> None" and z: "payload_zero (action c)" "subcontexts_zero c"
  shows "no_ub (handle_action L md d c)"
    and "handle_action L md d c = Inr c' \<Longrightarrow>
      0xd0 \<in> set (received_tags c) \<and> received_tags c' = received_tags c \<and>
      action_wf md (action c') \<and> payload_only (action c') = action c' \<and>
      act_type (action c') = act_type (action c) \<and> act_nonce (action c') = act_nonce (action c)"
proof -
  note enter = subcontexts_wiped [OF z]
  show "no_ub (handle_action L md d c)"
    using L md by (auto simp: handle_action_def Let_def enter
        intro!: no_ub_rbind parse_bulk_order_no_ub parse_bulk_modify_no_ub parse_bulk_cancel_no_ub
          parse_update_leverage_no_ub parse_approve_builder_fee_no_ub
          parse_update_isolated_margin_no_ub parse_user_set_abstraction_no_ub
        split: e_action_type.splits)
  assume run: "handle_action L md d c = Inr c'"
  then have typed: "0xd0 \<in> set (received_tags c)" by (auto simp: handle_action_def Let_def split: if_splits)
  note wf = parse_bulk_order_wf [OF L md] parse_bulk_modify_wf [OF L md] parse_bulk_cancel_wf [OF L md]
    parse_update_leverage_wf parse_approve_builder_fee_wf [OF L] parse_update_isolated_margin_wf
    parse_user_set_abstraction_wf
  from run typed show "0xd0 \<in> set (received_tags c) \<and> received_tags c' = received_tags c \<and>
      action_wf md (action c') \<and> payload_only (action c') = action c' \<and>
      act_type (action c') = act_type (action c) \<and> act_nonce (action c') = act_nonce (action c)"
    by (cases "act_type (action c)")
      (auto simp: handle_action_def Let_def enter rbind_Inr_conv action_wf_def payload_zero_only [OF z(1)]
        dest!: wf)
qed

lemmas action_handler_defs = action_handle_struct_type_def action_handle_struct_version_def
  handle_action_type_def handle_nonce_def

lemma action_unique: "find_handler (ACTION_TAGS L md) t = Some h \<Longrightarrow> unique_tag (ACTION_TAGS L md) t"
  by (erule action_handlerE) (simp_all add: ACTION_TAGS_def)

interpretation action_tlv:
  tlv_struct "ACTION_TAGS L md" no_common "action_ctx_inv md" "tlv_lib_ok L \<and> md \<noteq> None" for L md
proof (unfold_locales, goal_cases)
  case (1 d h c c1 c2)
  from 1(1) show ?case
    by (cases rule: action_handlerE)
       (use 1(2,3) in \<open>auto simp: action_handler_defs handle_action_def Let_def rbind_Inr_conv
          split: if_splits e_action_type.splits\<close>)
next
  case (2 c d h c1 c2)
  have fresh: "td_tag d \<notin> set (received_tags c)" using 2(3,4) by (auto dest: action_unique)
  from 2(5,6) have run: "h d c = Inr c2" by simp
  from 2(3) show ?case
  proof (cases rule: action_handlerE)
    case stype
    with 2(2) run show ?thesis
      by (auto simp: action_handler_defs rbind_Inr_conv action_ctx_inv_def subcontexts_zero_def split: if_splits)
  next
    case version
    with 2(2) run show ?thesis
      by (auto simp: action_handler_defs rbind_Inr_conv action_ctx_inv_def subcontexts_zero_def split: if_splits)
  next
    case atype
    with 2(2) run fresh show ?thesis
      by (auto simp: action_handler_defs rbind_Inr_conv action_ctx_inv_def subcontexts_zero_def
          payload_zero_update split: if_splits)
  next
    case nonce
    with 2(2) run show ?thesis
      by (auto simp: action_handler_defs rbind_Inr_conv action_ctx_inv_def subcontexts_zero_def
          payload_zero_update payload_only_nonce split: if_splits)
  next
    case body
    with 2(2) fresh have "payload_zero (action c)" "subcontexts_zero c" by (auto simp: action_ctx_inv_def)
    with handle_action_spec(2) [of L md c d c2] 2(1) run body show ?thesis
      by (auto simp: action_ctx_inv_def)
  qed
next
  case (3 c d h)
  have fresh: "td_tag d \<notin> set (received_tags c)" using 3(3,4) by (auto dest: action_unique)
  from 3(3) show ?case
  proof (cases rule: action_handlerE)
    case body
    with 3(2) fresh have "payload_zero (action c)" "subcontexts_zero c" by (auto simp: action_ctx_inv_def)
    with handle_action_spec(1) [of L md c d] 3(1) body show ?thesis by simp
  qed (auto simp: action_handler_defs intro!: no_ub_rbind split: if_splits)
qed

lemma action_ctx_inv_0: "action_ctx_inv md s_action_ctx_0"
  by (simp add: action_ctx_inv_def payload_zero_def subcontexts_zero_def zero_defs)

text \<open>An accepted action is well formed and compatible, and the context grows by it.\<close>

lemma parse_action_spec:
  assumes L: "tlv_lib_ok L" and inv: "ctx_inv g"
  shows "no_ub (parse_action L payload g)"
    and "parse_action L payload g = Inr g' \<Longrightarrow>
      (\<exists>md a. ctx_get_action_metadata g = Some md \<and> action_wf (Some md) a \<and> payload_only a = a \<and>
        is_action_compatible (act_type a) (md_op_type md) g \<and> ctx_push_action a g = Inr g')"
proof -
  show "no_ub (parse_action L payload g)"
    unfolding parse_action_def using L inv
    by (intro no_ub_rbind)
       (auto intro!: action_tlv.parser_spec(1) ctx.push_no_ub simp: action_ctx_inv_0 tlv_lib_okD s_action_ctx_0_def
         [THEN arg_cong [of _ _ received_tags]])
  assume "parse_action L payload g = Inr g'"
  then obtain p md out where "ctx_get_action_metadata g = Some md"
    and run: "tlv_parser L (ACTION_TAGS L (Some md)) no_common p s_action_ctx_0 = Inr out"
    and ver: "verify_action out" and rest: "is_action_compatible (act_type (action out)) (md_op_type md) g"
      "ctx_push_action (action out) g = Inr g'"
    by (auto simp: parse_action_def rbind_Inr_conv split: if_splits)
  moreover have "action_ctx_inv (Some md) out"
    using L by (intro action_tlv.parser_spec(2) [OF _ _ action_ctx_inv_0 _ run])
      (simp_all add: tlv_lib_okD s_action_ctx_0_def)
  ultimately show "\<exists>md a. ctx_get_action_metadata g = Some md \<and> action_wf (Some md) a \<and> payload_only a = a \<and>
        is_action_compatible (act_type a) (md_op_type md) g \<and> ctx_push_action a g = Inr g'"
    by (auto simp: action_ctx_inv_def verify_action_def)
qed

section \<open>The MessagePack value of an action and its hashes\<close>

definition action_mp :: "s_action \<Rightarrow> mp" where
  "action_mp a = (case act_type a of
       ACTION_TYPE_BULK_MODIFY \<Rightarrow> bulk_modify_mp (act_bulk_modify a)
     | ACTION_TYPE_BULK_CANCEL \<Rightarrow> bulk_cancel_mp (act_bulk_cancel a)
     | ACTION_TYPE_UPDATE_LEVERAGE \<Rightarrow> update_leverage_mp (act_update_leverage a)
     | ACTION_TYPE_UPDATE_ISOLATED_MARGIN \<Rightarrow> update_isolated_margin_mp (act_update_isolated_margin a)
     | _ \<Rightarrow> bulk_order_mp (act_bulk_order a))"

text \<open>The five kinds of action that are signed through their serialization.\<close>

definition l1_action :: "s_action \<Rightarrow> bool" where
  "l1_action a \<longleftrightarrow> act_type a \<noteq> ACTION_TYPE_APPROVE_BUILDER_FEE \<and> act_type a \<noteq> ACTION_TYPE_USER_SET_ABSTRACTION"

definition action_counts :: "s_action \<Rightarrow> bool" where
  "action_counts a \<longleftrightarrow> bulk_order_counts (act_bulk_order a) \<and> bulk_modify_counts (act_bulk_modify a) \<and>
     bulk_cancel_counts (act_bulk_cancel a)"

interpretation action_ser:
  serializer "action_serialize C" action_mp C "\<lambda>a. l1_action a \<and> action_counts a \<and> cmp_int_agrees C" for C
  by unfold_locales
     (auto simp: action_serialize_def action_mp_def l1_action_def action_counts_def
        intro: bulk_order_ser.writes_value bulk_modify_ser.writes_value bulk_cancel_ser.writes_value
          update_leverage_ser.writes_value update_isolated_margin_ser.writes_value
        split: e_action_type.splits)

lemma action_wf_counts: "action_wf md a \<Longrightarrow> payload_only a = a \<Longrightarrow> action_counts a"
proof -
  assume wf: "action_wf md a" and only: "payload_only a = a"
  have z: "bulk_order_counts s_bulk_order_0" "bulk_modify_counts s_bulk_modify_0" "bulk_cancel_counts s_bulk_cancel_0"
    by (simp_all add: zero_defs bulk_order_counts_def bulk_modify_counts_def bulk_cancel_counts_def)
  have "action_counts (payload_only a)"
    using wf z by (cases "act_type a")
      (simp_all add: action_counts_def payload_only_def Let_def action_wf_def bulk_order_wf_counts
         bulk_modify_wf_counts bulk_cancel_wf_counts s_action_0_def)
  with only show ?thesis by simp
qed

definition connection_preimage :: "cmp_lib \<Rightarrow> s_action \<Rightarrow> byte list" where
  "connection_preimage C a = mp_bytes C (action_mp a) @ be_bytes 8 (unat (act_nonce a)) @ [0]"

definition scratch :: "byte list \<Rightarrow> buffer_t" where
  "scratch raw = \<lparr>buf_ptr = raw, buf_size = MAX_SERIALIZED_ACTION_SIZE, buf_offset = 0\<rparr>"

lemma scratch_wf: "length raw = MAX_SERIALIZED_ACTION_SIZE \<Longrightarrow> buf_wf (scratch raw)"
  by (simp add: scratch_def buf_wf_def)

lemma connection_id_run:
  assumes raw: "length raw = MAX_SERIALIZED_ACTION_SIZE"
    and ok: "l1_action a" "action_counts a" "cmp_int_agrees C"
  shows "compute_connection_id_in C B X raw a e =
    (if length (mp_bytes C (action_mp a)) \<le> MAX_SERIALIZED_ACTION_SIZE
     then keccak_of X [cx_update X (mp_bytes C (action_mp a)), cx_update X (write_u64_be B (act_nonce a)),
            cx_update X [e]]
     else Inl Reject)"
proof (cases "length (mp_bytes C (action_mp a)) \<le> MAX_SERIALIZED_ACTION_SIZE")
  case True
  with action_ser.fits [of a C "scratch raw"] ok scratch_wf [OF raw]
  obtain b' where "action_serialize C a (Some (scratch raw)) = (True, Some b')"
    and "written b' = written (scratch raw) @ mp_bytes C (action_mp a)"
    by (auto simp: scratch_def)
  with True show ?thesis
    by (simp add: compute_connection_id_in_def scratch_def written_def)
next
  case False
  with action_ser.overflows [of a C "scratch raw"] ok scratch_wf [OF raw]
  have "\<not> fst (action_serialize C a (Some (scratch raw)))" by (simp add: scratch_def)
  with False show ?thesis
    by (cases "action_serialize C a (Some (scratch raw))") (simp add: compute_connection_id_in_def scratch_def)
qed

lemma connection_id_spec:
  assumes "cx_hashes X K S" "bytes_ok B"
    and ok: "l1_action a" "action_counts a" "cmp_int_agrees C"
    and run: "compute_connection_id C B X a 0 = Inr cid"
  shows "cid = K (connection_preimage C a)"
proof -
  from assms(1) obtain ab where ab: "absorbs X K S ab" by (auto simp: cx_hashes_def)
  have run': "keccak_of X [cx_update X (mp_bytes C (action_mp a)), cx_update X (write_u64_be B (act_nonce a)),
            cx_update X [0]] = Inr cid"
    using run connection_id_run [of "replicate MAX_SERIALIZED_ACTION_SIZE 0" a C B X 0] ok
    by (simp add: compute_connection_id_def split: if_splits)
  show ?thesis
    by (rule keccak_of_spec [OF ab _ run', THEN trans])
      ((rule feeds_intros ab)+, simp add: connection_preimage_def bytes_okD(2) [OF assms(2)])
qed

text \<open>The pair of hashes that EIP-712 assigns to an action, for a wallet and a network.\<close>

definition action_struct_hashes ::
  "cmp_lib \<Rightarrow> (byte list \<Rightarrow> byte list) \<Rightarrow> e_network \<Rightarrow> byte list \<Rightarrow> s_action \<Rightarrow> byte list \<times> byte list" where
  "action_struct_hashes C K net wallet a = (case act_type a of
       ACTION_TYPE_APPROVE_BUILDER_FEE \<Rightarrow>
         (let f = act_approve_builder_fee a in
          (domain_separator K ''HyperliquidSignTransaction'' (unat (ab_signature_chain_id f)),
           builder_fee_struct K (network_name net) (ab_max_fee_rate f) (ab_builder f) (act_nonce a)))
     | ACTION_TYPE_USER_SET_ABSTRACTION \<Rightarrow>
         (let u = act_user_set_abstraction a in
          (domain_separator K ''HyperliquidSignTransaction'' (unat (ua_signature_chain_id u)),
           abstraction_struct K (network_name net) wallet (the (get_abstraction_string u)) (act_nonce a)))
     | _ \<Rightarrow>
         (domain_separator K ''Exchange'' 1337,
          agent_struct K (network_source net) (K (connection_preimage C a))))"

lemma action_hash_no_ub: "action_counts a \<Longrightarrow> cmp_int_agrees C \<Longrightarrow> no_ub (action_hash C B X (Some a) md wallet)"
  using connection_id_run [of "replicate MAX_SERIALIZED_ACTION_SIZE 0" a C B X 0]
  by (auto simp: action_hash_def Let_def eip712_no_ub l1_action_def compute_connection_id_def
      intro!: no_ub_rbind no_ub_keccak_of split: e_action_type.splits if_splits)

lemma action_hash_spec:
  assumes cx: "cx_hashes X K S" "cx_sizes X" and B: "bytes_ok B" and C: "cmp_int_agrees C"
    and wf: "action_wf md' a" "payload_only a = a" and wallet: "length wallet = 20"
    and run: "action_hash C B X (Some a) (Some md) wallet = Inr h"
  shows "h = action_struct_hashes C K (md_network md) wallet a"
proof (cases "l1_action a")
  case True
  from True run obtain cid where cid: "compute_connection_id C B X a 0 = Inr cid"
    and h: "eip712_cid_hash B X (network_source (md_network md)) cid = Inr h"
    by (auto simp: action_hash_def l1_action_def rbind_Inr_conv split: e_action_type.splits)
  have "cid = K (connection_preimage C a)"
    using connection_id_spec [OF cx(1) B True action_wf_counts [OF wf] C cid] .
  moreover have "length cid = 32"
    using cid True connection_id_run [of "replicate MAX_SERIALIZED_ACTION_SIZE 0" a C B X 0]
      action_wf_counts [OF wf] C
    by (auto simp: compute_connection_id_def split: if_splits dest: keccak_of_length [OF cx(2)])
  ultimately show ?thesis
    using eip712_cid_hash_spec [OF cx(1) B, of cid "network_source (md_network md)" "fst h" "snd h"] h True
    by (auto simp: action_struct_hashes_def l1_action_def prod_eq_iff split: e_action_type.splits)
next
  case False
  then consider (fee) "act_type a = ACTION_TYPE_APPROVE_BUILDER_FEE"
    | (mode) "act_type a = ACTION_TYPE_USER_SET_ABSTRACTION" by (auto simp: l1_action_def)
  then show ?thesis
  proof cases
    case fee
    then have "eip712_builder_fee_hash B X (ab_signature_chain_id (act_approve_builder_fee a))
        (network_name (md_network md)) (ab_max_fee_rate (act_approve_builder_fee a))
        (ab_builder (act_approve_builder_fee a)) (act_nonce a) = Inr (fst h, snd h)"
      and "length (ab_builder (act_approve_builder_fee a)) = 20"
      using run wf by (auto simp: action_hash_def Let_def action_wf_def fee_wf_def)
    from eip712_builder_fee_hash_spec [OF cx(1) B this(2) this(1)] fee show ?thesis
      by (simp add: action_struct_hashes_def Let_def prod_eq_iff)
  next
    case mode
    then have "eip712_abstraction_hash B X (ua_signature_chain_id (act_user_set_abstraction a))
        (network_name (md_network md)) wallet (get_abstraction_string (act_user_set_abstraction a))
        (act_nonce a) = Inr (fst h, snd h)"
      using run by (auto simp: action_hash_def Let_def)
    from eip712_abstraction_hash_spec [OF cx(1) B wallet this] mode show ?thesis
      by (auto simp: action_struct_hashes_def Let_def prod_eq_iff)
  qed
qed

end
