(* ===== verification/Client_Encoding.thy ===== *)
theory Client_Encoding
  imports Tlv_Encoding Action
begin

text \<open>
  The payloads a client sends, written field by field with the helpers of
  \<open>unit-tests/tlv_helpers.h\<close> in the layout of the tag tables, and the proof that the parsers of the
  application read every well-formed value back. So the well-formedness conditions that the parsers
  establish are not stronger than what a client can ask for.
\<close>

section \<open>Reading the fields\<close>

lemma field_item_simps [simp]:
  "td_tag (field_item (t, v)) = unat t" "td_value (field_item (t, v)) = v"
  by (simp_all add: field_item_def)

named_theorems item_reads \<open>what the readers return on a field of a helper\<close>

lemma item_reads_uint [item_reads]:
  "get_uint8 der_tlv (field_item (t, encode_int_be (ucast (b :: u8)))) = Some b"
  "get_uint32 der_tlv (field_item (t, encode_int_be (ucast (a :: u32)))) = Some a"
  "get_uint64 der_tlv (field_item (t, encode_int_be v)) = Some v"
  "get_uint64 der_tlv (field_item (t, int64_bytes v)) = Some v"
  by (rule helper_readers; simp)+

lemma item_reads_one [item_reads]: "get_uint8 der_tlv (field_item (t, encode_int_be 1)) = Some 1"
  using item_reads_uint(1) [of t 1] by simp

lemma item_reads_bool [item_reads]:
  "get_bool der_tlv (field_item (t, [if b then 1 else 0])) = Some b"
  by (rule helper_readers) simp

lemma item_reads_string [item_reads]:
  "num_str s \<Longrightarrow> get_string der_tlv (field_item (t, bytes_of s)) 1 22 = Some s"
  "num_str s \<Longrightarrow> get_string der_tlv (field_item (t, bytes_of s)) (Suc 0) 22 = Some s"
  by (rule helper_readers; simp add: num_str_def)+

lemma item_reads_buffer [item_reads]:
  "length b = n \<Longrightarrow> get_buffer der_tlv (field_item (t, b)) n n = Some b"
  by (rule helper_readers) simp_all

lemma enum_reads [item_reads]:
  shows "enum_of order_type_code [ORDER_TYPE_LIMIT, ORDER_TYPE_TRIGGER] (order_type_code x1) = Some x1"
    and "enum_of tif_code [TIF_ALO, TIF_IOC, TIF_GTC] (tif_code x2) = Some x2"
    and "enum_of trigger_type_code [TRIGGER_TYPE_TP, TRIGGER_TYPE_SL] (trigger_type_code x3) = Some x3"
    and "enum_of grouping_code [GROUPING_NA, GROUPING_NORMAL_TPSL, GROUPING_POSITION_TPSL] (grouping_code x4) = Some x4"
  subgoal by (cases x1) (simp_all add: enum_of_def)
  subgoal by (cases x2) (simp_all add: enum_of_def)
  subgoal by (cases x3) (simp_all add: enum_of_def)
  subgoal by (cases x4) (simp_all add: enum_of_def)
  done

lemma encode_int_be_small [simp]: "length (encode_int_be v) < 16777216"
  using encode_int_be_length(1) [of v] by simp

lemma encode_int_be_le: "length (encode_int_be v) \<le> 8"
  by (rule encode_int_be_length(1))

lemma int64_bytes_length [simp]: "length (int64_bytes v) = 8"
  by (simp add: int64_bytes_def)

lemma dispatch_item:
  "find_handler T (unat t) = Some h \<Longrightarrow> h (field_item (t, v)) c = Inr c1 \<Longrightarrow>
   tlv_dispatch T no_common (field_item (t, v) # ds) c = tlv_dispatch T no_common ds (mark_received (unat t) c1)"
  by simp

section \<open>Client order identifiers\<close>

definition nibble_of :: "char \<Rightarrow> u8" where
  "nibble_of c = word_of_nat (length (takeWhile (\<lambda>d. d \<noteq> c) ''0123456789abcdef''))"

fun bytes_of_hex :: "string \<Rightarrow> byte list" where
  "bytes_of_hex (a # b # cs) = or (push_bit 4 (nibble_of a)) (take_bit 4 (nibble_of b)) # bytes_of_hex cs"
| "bytes_of_hex cs = []"

lemma hex_digit_nibble: "c \<in> set ''0123456789abcdef'' \<Longrightarrow> hex_digit (nibble_of c) = c"
proof -
  let ?xs = "''0123456789abcdef''" and ?n = "length (takeWhile (\<lambda>d. d \<noteq> c) ''0123456789abcdef'')"
  assume c: "c \<in> set ?xs"
  then have "takeWhile (\<lambda>d. d \<noteq> c) ?xs \<noteq> ?xs" unfolding takeWhile_eq_all_conv by blast
  then have "?n < length ?xs"
    by (metis length_takeWhile_le nless_le takeWhile_eq_take take_all_iff linorder_le_less_linear)
  then have "?xs ! ?n = c" "?n < 16" using nth_length_takeWhile [of "\<lambda>d. d \<noteq> c" ?xs] by simp_all
  moreover have "unat (take_bit 4 (word_of_nat n :: u8)) = n" if "n < 16" for n
    using that unfolding unsigned_take_bit_eq by (simp add: unat_of_nat take_bit_eq_mod)
  ultimately show ?thesis by (simp add: nibble_of_def hex_digit_def del: takeWhile.simps nth_Cons_numeral)
qed

lemma hex_of_bytes_of_hex:
  "even (length s) \<Longrightarrow> list_all (\<lambda>c. c \<in> set ''0123456789abcdef'') s \<Longrightarrow> hex_of_bytes (bytes_of_hex s) = s"
proof (induction s rule: bytes_of_hex.induct)
  case (1 a b cs)
  have "take_bit 4 (drop_bit 4 (or (push_bit 4 x) (take_bit 4 y))) = take_bit 4 x"
    "take_bit 4 (or (push_bit 4 x) (take_bit 4 y)) = take_bit 4 y" for x y :: u8
    by (rule bit_word_eqI, auto simp: bit_simps)+
  then have "hex_digit (drop_bit 4 (or (push_bit 4 x) (take_bit 4 y))) = hex_digit x"
    "hex_digit (or (push_bit 4 x) (take_bit 4 y)) = hex_digit y" for x y :: u8
    by (simp_all add: hex_digit_inject)
  with 1 show ?case by (simp add: hex_digit_nibble del: set_simps)
qed simp_all

lemma bytes_of_hex_length: "length (bytes_of_hex s) = length s div 2"
  by (induction s rule: bytes_of_hex.induct) simp_all

lemma cloid_bytes:
  assumes "cloid_ok s"
  shows "length (bytes_of_hex (drop 2 s)) = 16" "''0x'' @ hex_of_bytes (bytes_of_hex (drop 2 s)) = s"
proof -
  show "length (bytes_of_hex (drop 2 s)) = 16" using assms by (simp add: bytes_of_hex_length cloid_ok_def)
  have "hex_of_bytes (bytes_of_hex (drop 2 s)) = drop 2 s"
    using assms by (intro hex_of_bytes_of_hex) (simp_all add: cloid_ok_def del: set_simps)
  then show "''0x'' @ hex_of_bytes (bytes_of_hex (drop 2 s)) = s"
    using assms by (metis append_take_drop_id cloid_ok_def)
qed

section \<open>Orders\<close>

definition flag :: "bool \<Rightarrow> byte list" where
  "flag b = [if b then 1 else 0]"

definition body_payload :: "s_order_request \<Rightarrow> byte list" where
  "body_payload r = tlv_fields (case or_order_type r of
       ORDER_TYPE_LIMIT \<Rightarrow> [(0xe6, encode_int_be (ucast (tif_code (tif (or_limit r)))))]
     | ORDER_TYPE_TRIGGER \<Rightarrow>
         [(0xe7, flag (is_market (or_trigger r))),
          (0xe8, bytes_of (trigger_px (or_trigger r))),
          (0xe9, encode_int_be (ucast (trigger_type_code (tpsl (or_trigger r)))))])"

definition order_fields :: "s_order_request \<Rightarrow> (u32 \<times> byte list) list" where
  "order_fields r =
     [(0xe0, encode_int_be (ucast (order_type_code (or_order_type r)))),
      (0xd1, encode_int_be (ucast (or_asset r))),
      (0xe2, flag (or_is_buy r)),
      (0xe3, bytes_of (or_limit_px r)),
      (0xe4, bytes_of (or_sz r)),
      (0xe5, flag (or_reduce_only r)),
      (0xd7, body_payload r)] @
     (if or_has_cloid r then [(0xee, bytes_of_hex (drop 2 (or_cloid r)))] else [])"

definition order_payload :: "s_order_request \<Rightarrow> byte list" where
  "order_payload r = tlv_fields (order_fields r)"

text \<open>The member of the union that is not in use, and an absent identifier, are zero.\<close>

definition order_canonical :: "s_order_request \<Rightarrow> bool" where
  "order_canonical r \<longleftrightarrow>
     (case or_order_type r of ORDER_TYPE_LIMIT \<Rightarrow> or_trigger r = s_trigger_0 | ORDER_TYPE_TRIGGER \<Rightarrow> or_limit r = s_limit_0) \<and>
     (\<not> or_has_cloid r \<longrightarrow> or_cloid r = [])"

lemma item_reads_flag [item_reads]: "get_bool der_tlv (field_item (t, flag b)) = Some b"
  by (simp add: flag_def item_reads)

lemma length_flag [simp]: "length (flag b) = 1"
  by (simp add: flag_def)

lemma body_payload_bound:
  assumes "order_wf a r"
  shows "length (body_payload r) \<le> 60"
proof -
  let ?n = "\<lambda>fs. sum_list (map (\<lambda>f. 8 + length (snd f)) fs)"
  show ?thesis
  proof (cases "or_order_type r")
    case ORDER_TYPE_LIMIT
    let ?fs = "[(0xe6 :: u32, encode_int_be (ucast (tif_code (tif (or_limit r)))))]"
    have "?n ?fs \<le> 60" using encode_int_be_le [of "ucast (tif_code (tif (or_limit r)))"] by simp
    with tlv_fields_bound [of ?fs] show ?thesis by (simp add: body_payload_def ORDER_TYPE_LIMIT)
  next
    case ORDER_TYPE_TRIGGER
    let ?fs = "[(0xe7 :: u32, flag (is_market (or_trigger r))), (0xe8, bytes_of (trigger_px (or_trigger r))),
          (0xe9, encode_int_be (ucast (trigger_type_code (tpsl (or_trigger r)))))]"
    have "length (trigger_px (or_trigger r)) \<le> 21"
      using assms ORDER_TYPE_TRIGGER num_str_length by (auto simp: order_wf_def)
    then have "?n ?fs \<le> 60"
      using encode_int_be_le [of "ucast (trigger_type_code (tpsl (or_trigger r)))"] by simp
    with tlv_fields_bound [of ?fs] show ?thesis by (simp add: body_payload_def ORDER_TYPE_TRIGGER)
  qed
qed

lemma order_payload_bound:
  assumes "order_wf a r"
  shows "length (order_payload r) \<le> 210"
proof -
  have s: "length (or_limit_px r) \<le> 21" "length (or_sz r) \<le> 21"
    using assms num_str_length by (auto simp: order_wf_def)
  have "sum_list (map (\<lambda>f. 8 + length (snd f)) (order_fields r)) \<le> 210"
    using s body_payload_bound [OF assms] encode_int_be_le [of "ucast (or_asset r)"]
      encode_int_be_le [of "ucast (order_type_code (or_order_type r))"] cloid_bytes(1) [of "or_cloid r"] assms
    by (cases "or_has_cloid r") (simp_all add: order_fields_def order_wf_def)
  with tlv_fields_bound [of "order_fields r"] show ?thesis by (simp add: order_payload_def)
qed

text \<open>The body handlers.\<close>

lemma parse_limit_payload:
  assumes "or_order_type r = ORDER_TYPE_LIMIT"
  shows "\<exists>c. parse_limit_order der_tlv (body_payload r) s_limit_ctx_0 = Inr c \<and> limit c = or_limit r"
proof -
  have "fields_ok (tag_names (LIMIT_ORDER_TAGS der_tlv)) [(0xe6, encode_int_be (ucast (tif_code (tif (or_limit r)))))]"
    by (simp add: fields_ok_def field_ok_def LIMIT_ORDER_TAGS_def)
  from tlv_parser_fields [OF this] show ?thesis
    by (simp add: parse_limit_order_def body_payload_def assms LIMIT_ORDER_TAGS_def handle_tif_def item_reads
        verify_limit_order_def s_limit_ctx_0_def s_limit_0_def)
qed

lemma parse_trigger_payload:
  assumes "or_order_type r = ORDER_TYPE_TRIGGER" "num_str (trigger_px (or_trigger r))"
  shows "\<exists>c. parse_trigger_order der_tlv (body_payload r) s_trigger_ctx_0 = Inr c \<and> trigger c = or_trigger r"
proof -
  have "length (trigger_px (or_trigger r)) \<le> 21" using num_str_length [OF assms(2)] by simp
  then have "fields_ok (tag_names (TRIGGER_ORDER_TAGS der_tlv))
      [(0xe7, flag (is_market (or_trigger r))), (0xe8, bytes_of (trigger_px (or_trigger r))),
       (0xe9, encode_int_be (ucast (trigger_type_code (tpsl (or_trigger r)))))]"
    by (simp add: fields_ok_def field_ok_def TRIGGER_ORDER_TAGS_def)
  from tlv_parser_fields [OF this] assms(2) show ?thesis
    by (simp add: parse_trigger_order_def body_payload_def assms(1) TRIGGER_ORDER_TAGS_def handle_is_market_def
        handle_trigger_px_def handle_tpsl_def item_reads verify_trigger_order_def s_trigger_ctx_0_def s_trigger_0_def)
qed

lemma order_fields_ok:
  assumes "order_wf a r"
  shows "fields_ok (tag_names (ORDER_REQUEST_TAGS der_tlv)) (order_fields r)"
proof -
  have "length (or_limit_px r) \<le> 21" "length (or_sz r) \<le> 21" "length (body_payload r) \<le> 60"
    using assms num_str_length body_payload_bound by (auto simp: order_wf_def)
  then show ?thesis
    using cloid_bytes(1) [of "or_cloid r"] assms
    by (cases "or_has_cloid r") (simp_all add: fields_ok_def field_ok_def ORDER_REQUEST_TAGS_def order_fields_def order_wf_def)
qed

lemma cloid_hex:
  assumes "cloid_ok s"
  shows "bytes_to_lowercase_hex 33 (bytes_of_hex (drop 2 s)) = (0, hex_of_bytes (bytes_of_hex (drop 2 s)))"
  using cloid_bytes(1) [OF assms] by (simp add: bytes_to_lowercase_hex_def)

lemma order_request_fields:
  "or_asset r' = or_asset r \<Longrightarrow> or_is_buy r' = or_is_buy r \<Longrightarrow> or_limit_px r' = or_limit_px r \<Longrightarrow> or_sz r' = or_sz r \<Longrightarrow>
   or_reduce_only r' = or_reduce_only r \<Longrightarrow> or_order_type r' = or_order_type r \<Longrightarrow> or_limit r' = or_limit r \<Longrightarrow>
   or_trigger r' = or_trigger r \<Longrightarrow> or_has_cloid r' = or_has_cloid r \<Longrightarrow> or_cloid r' = or_cloid r \<Longrightarrow>
   r' = (r :: s_order_request)"
  by (cases r; cases r') simp

lemmas order_parse_defs = ORDER_REQUEST_TAGS_def order_handler_defs handle_order_def

lemma parse_order_payload:
  assumes wf: "order_wf (md_asset_id md) r" and canon: "order_canonical r"
  shows "\<exists>c. parse_order_request der_tlv (Some md) (order_payload r) s_order_request_ctx_0 = Inr c \<and> order_request c = r"
proof -
  have px: "num_str (or_limit_px r)" "num_str (or_sz r)" and asset: "or_asset r = md_asset_id md"
    and cloid: "or_has_cloid r \<Longrightarrow> cloid_ok (or_cloid r)"
    and tpx: "or_order_type r = ORDER_TYPE_TRIGGER \<Longrightarrow> num_str (trigger_px (or_trigger r))"
    using wf by (auto simp: order_wf_def)
  let ?head = "\<lparr>or_asset = or_asset r, or_is_buy = or_is_buy r, or_limit_px = or_limit_px r, or_sz = or_sz r,
     or_reduce_only = or_reduce_only r, or_order_type = or_order_type r, or_limit = s_limit_0,
     or_trigger = s_trigger_0, or_has_cloid = False, or_cloid = []\<rparr>"
  let ?tags = "[0xe5, 0xe4, 0xe3, 0xe2, 0xd1, 0xe0] :: nat list"
  let ?mid = "\<lparr>received_tags = ?tags, order_request = ?head, limit_ctx = s_limit_ctx_0, trigger_ctx = s_trigger_ctx_0\<rparr>"
  let ?T = "ORDER_REQUEST_TAGS der_tlv"
  let ?items = "map field_item (order_fields r)"
  have head: "tlv_dispatch ?T no_common (take 6 ?items) s_order_request_ctx_0 = Inr ?mid"
    using px by (simp add: order_fields_def order_parse_defs item_reads mark_received_def zero_defs)
  have body: "\<exists>c. handle_order der_tlv (field_item (0xd7, body_payload r)) ?mid = Inr c \<and>
      received_tags c = ?tags \<and> order_request c = r\<lparr>or_has_cloid := False, or_cloid := []\<rparr>"
  proof (cases "or_order_type r")
    case ORDER_TYPE_LIMIT
    from parse_limit_payload [OF this] obtain lc where
      "parse_limit_order der_tlv (body_payload r) s_limit_ctx_0 = Inr lc" "limit lc = or_limit r" by blast
    moreover have "s_limit_ctx_0\<lparr>limit := s_limit_0\<rparr> = s_limit_ctx_0" by (simp add: s_limit_ctx_0_def)
    ultimately show ?thesis
      using canon ORDER_TYPE_LIMIT by (cases r) (simp add: handle_order_def order_canonical_def)
  next
    case ORDER_TYPE_TRIGGER
    from parse_trigger_payload [OF this tpx [OF this]] obtain tc where
      "parse_trigger_order der_tlv (body_payload r) s_trigger_ctx_0 = Inr tc" "trigger tc = or_trigger r" by blast
    moreover have "s_trigger_ctx_0\<lparr>trigger := s_trigger_0\<rparr> = s_trigger_ctx_0" by (simp add: s_trigger_ctx_0_def)
    ultimately show ?thesis
      using canon ORDER_TYPE_TRIGGER by (cases r) (simp add: handle_order_def order_canonical_def)
  qed
  then obtain c where c: "handle_order der_tlv (field_item (0xd7, body_payload r)) ?mid = Inr c"
    "received_tags c = ?tags" "order_request c = r\<lparr>or_has_cloid := False, or_cloid := []\<rparr>" by (elim exE conjE)
  let ?tail = "if or_has_cloid r then [field_item (0xee, bytes_of_hex (drop 2 (or_cloid r)))] else []"
  have items: "?items = take 6 ?items @ field_item (0xd7, body_payload r) # ?tail"
    by (simp add: order_fields_def)
  have find: "find_handler ?T 0xd7 = Some (handle_order der_tlv)" "find_handler ?T 0xee = Some handle_cloid"
    by (simp_all add: ORDER_REQUEST_TAGS_def)
  have "\<exists>c'. tlv_dispatch ?T no_common ?tail (mark_received 0xd7 c) = Inr c' \<and> order_request c' = r \<and>
    {0xe0, 0xd1, 0xe2, 0xe3, 0xe4, 0xe5, 0xd7} \<subseteq> set (received_tags c')"
  proof (cases "or_has_cloid r")
    case True
    note cl = cloid_bytes [OF cloid [OF True]]
    have "handle_cloid (field_item (0xee, bytes_of_hex (drop 2 (or_cloid r)))) (mark_received 0xd7 c) =
      Inr ((mark_received 0xd7 c)\<lparr>order_request := r\<rparr>)"
    proof -
      have "(order_request c)\<lparr>or_cloid := or_cloid r, or_has_cloid := True\<rparr> = r" using c(3) True by (cases r) simp
      then show ?thesis using cl cloid_hex [OF cloid [OF True]] by (simp add: handle_cloid_def)
    qed
    then show ?thesis using True find(2) c(2) by simp
  next
    case False
    then have "or_cloid r = []" using canon by (simp add: order_canonical_def)
    then have "order_request c = r" using c(3) False by (cases r) simp
    then show ?thesis using False c(2) by simp
  qed
  then obtain c' where c': "tlv_dispatch ?T no_common ?tail (mark_received 0xd7 c) = Inr c'" "order_request c' = r"
    "{0xe0, 0xd1, 0xe2, 0xe3, 0xe4, 0xe5, 0xd7} \<subseteq> set (received_tags c')" by (elim exE conjE)
  have "tlv_dispatch ?T no_common (take 6 ?items @ field_item (0xd7, body_payload r) # ?tail) s_order_request_ctx_0 = Inr c'"
  proof -
    have t: "unat (0xd7 :: u32) = 0xd7" by simp
    have "find_handler ?T (unat (0xd7 :: u32)) = Some (handle_order der_tlv)" unfolding t by (rule find(1))
    from dispatch_item [OF this c(1), of ?tail]
    show ?thesis unfolding tlv_dispatch_append head rbind_simps t c'(1) .
  qed
  then have "tlv_dispatch ?T no_common ?items s_order_request_ctx_0 = Inr c'"
    unfolding items [symmetric] .
  then have "tlv_parser der_tlv ?T no_common (order_payload r) s_order_request_ctx_0 = Inr c'"
    using tlv_parser_fields [OF order_fields_ok [OF wf]] by (simp add: order_payload_def)
  then show ?thesis
    using c'(2,3) asset by (simp add: parse_order_request_def verify_order_request_def)
qed

section \<open>Bulks\<close>

text \<open>An array of the bulk size with its free slots at their initial value.\<close>

definition padded :: "'a \<Rightarrow> 'a list \<Rightarrow> 'a list" where
  "padded z xs = xs @ replicate (BULK_MAX_SIZE - length xs) z"

lemma padded_simps [simp]:
  "length xs \<le> 5 \<Longrightarrow> length (padded z xs) = 5"
  "length xs < 5 \<Longrightarrow> padded z xs ! length xs = z"
  "length xs < 5 \<Longrightarrow> (padded z xs)[length xs := x] = padded z (xs @ [x])"
  by (simp_all add: padded_def nth_append list_update_append Suc_diff_Suc [symmetric])

lemma padded_Nil: "padded z [] = replicate BULK_MAX_SIZE z"
  by (simp add: padded_def)

text \<open>The elements of a bulk, handled one after the other by a handler that fills the next slot.\<close>

lemma dispatch_bulk:
  assumes find: "find_handler T (unat t) = Some h"
    and step: "\<And>xs x c. I xs c \<Longrightarrow> length xs < 5 \<Longrightarrow> ok x \<Longrightarrow>
      \<exists>c1. h (field_item (t, enc x)) c = Inr c1 \<and> I (xs @ [x]) (mark_received (unat t) c1)"
  shows "I xs c \<Longrightarrow> list_all ok ys \<Longrightarrow> length xs + length ys \<le> 5 \<Longrightarrow>
    \<exists>c'. tlv_dispatch T no_common (map (\<lambda>x. field_item (t, enc x)) ys) c = Inr c' \<and> I (xs @ ys) c'"
proof (induction ys arbitrary: xs c)
  case (Cons y ys)
  then obtain c1 where c1: "h (field_item (t, enc y)) c = Inr c1" "I (xs @ [y]) (mark_received (unat t) c1)"
    using step [of xs c y] by auto
  from Cons.IH [OF c1(2)] Cons.prems(2,3)
  have "\<exists>c'. tlv_dispatch T no_common (map (\<lambda>x. field_item (t, enc x)) ys) (mark_received (unat t) c1) = Inr c' \<and>
    I (xs @ y # ys) c'" by (simp del: no_common_simp)
  then show ?case unfolding list.map dispatch_item [OF find c1(1)] .
qed simp

lemma fields_ok_bulk:
  assumes "(unat t, ALLOW_MULTIPLE_TAG) \<in> set T" "(unat t, ENFORCE_UNIQUE_TAG) \<notin> set T" "unat t < 2 ^ 24"
    "list_all (\<lambda>x. length (enc x) < 2 ^ 24) xs" "fields_ok T fs"
  shows "fields_ok T (map (\<lambda>x. (t, enc x)) xs @ fs)"
proof -
  have count: "count_list (map (\<lambda>f. unat (fst f)) (map (\<lambda>x. (t, enc x)) xs @ fs)) u = count_list (map (\<lambda>f. unat (fst f)) fs) u"
    if "u \<noteq> unat t" for u
    using that by (induction xs) auto
  have "unat t \<in> fst ` set T" using assms(1) by force
  then have "list_all (\<lambda>f. unat (fst f) \<in> fst ` set T) (map (\<lambda>x. (t, enc x)) xs @ fs)"
    "list_all field_ok (map (\<lambda>x. (t, enc x)) xs @ fs)"
    using assms(3-5) by (simp_all add: fields_ok_def list_all_iff field_ok_def ball_Un)
  moreover have "count_list (map (\<lambda>f. unat (fst f)) (map (\<lambda>x. (t, enc x)) xs @ fs)) u \<le> 1"
    if u: "(u, ENFORCE_UNIQUE_TAG) \<in> set T" for u
  proof -
    have ne: "u \<noteq> unat t" using u assms(2) by blast
    have "count_list (map (\<lambda>f. unat (fst f)) fs) u \<le> 1"
      using u assms(5) unfolding fields_ok_def list_all_iff by blast
    then show ?thesis unfolding count [OF ne] .
  qed
  ultimately show ?thesis unfolding fields_ok_def list_all_iff by blast
qed

subsection \<open>Orders\<close>

definition builder_payload :: "s_builder_info \<Rightarrow> byte list" where
  "builder_payload b = tlv_fields [(0xd3, bi_builder b), (0xec, encode_int_be (bi_fee b))]"

definition bulk_order_payload :: "s_bulk_order \<Rightarrow> byte list" where
  "bulk_order_payload b = tlv_fields
     (map (\<lambda>r. (0xdd, order_payload r)) (take (bo_order_count b) (bo_orders b)) @
      (0xea, encode_int_be (ucast (grouping_code (bo_grouping b)))) #
      (if bo_has_builder b then [(0xeb, builder_payload (bo_builder b))] else []))"

definition bulk_order_canonical :: "s_bulk_order \<Rightarrow> bool" where
  "bulk_order_canonical b \<longleftrightarrow> list_all order_canonical (take (bo_order_count b) (bo_orders b)) \<and>
     bo_orders b = padded s_order_request_0 (take (bo_order_count b) (bo_orders b)) \<and>
     (\<not> bo_has_builder b \<longrightarrow> bo_builder b = s_builder_info_0)"

lemma parse_builder_payload:
  assumes "length (bi_builder b) = 20"
  shows "\<exists>c. parse_builder_info der_tlv (builder_payload b) s_builder_info_ctx_0 = Inr c \<and> builder_info c = b"
proof -
  have "fields_ok (tag_names (BUILDER_INFO_TAGS der_tlv)) [(0xd3, bi_builder b), (0xec, encode_int_be (bi_fee b))]"
    using assms by (simp add: fields_ok_def field_ok_def BUILDER_INFO_TAGS_def)
  from tlv_parser_fields [OF this] assms show ?thesis
    by (cases b) (simp add: parse_builder_info_def builder_payload_def BUILDER_INFO_TAGS_def handle_builder_address_def
        handle_builder_fee_def item_reads verify_builder_info_def s_builder_info_ctx_0_def)
qed

lemma builder_payload_bound: "length (bi_builder b) = 20 \<Longrightarrow> length (builder_payload b) \<le> 44"
  using tlv_fields_bound [of "[(0xd3, bi_builder b), (0xec, encode_int_be (bi_fee b))]"]
    encode_int_be_le [of "bi_fee b"]
  by (simp add: builder_payload_def)

definition bulk_order_upto :: "s_order_request list \<Rightarrow> s_bulk_order_ctx \<Rightarrow> bool" where
  "bulk_order_upto xs c \<longleftrightarrow> received_tags c = replicate (length xs) 0xdd \<and> builder_info_ctx c = s_builder_info_ctx_0 \<and>
     bulk_order c = s_bulk_order_0\<lparr>bo_order_count := length xs, bo_orders := padded s_order_request_0 xs\<rparr>"

lemma bulk_order_step:
  assumes "bulk_order_upto xs c" "length xs < 5" "order_wf (md_asset_id md) x \<and> order_canonical x"
  shows "\<exists>c1. bulk_handle_order der_tlv (Some md) (field_item (0xdd, order_payload x)) c = Inr c1 \<and>
    bulk_order_upto (xs @ [x]) (mark_received (unat (0xdd :: u32)) c1)"
proof -
  from parse_order_payload [of md x] assms(3) obtain oc where oc:
    "parse_order_request der_tlv (Some md) (order_payload x) s_order_request_ctx_0 = Inr oc" "order_request oc = x"
    by blast
  have "s_order_request_ctx_0\<lparr>order_request := s_order_request_0\<rparr> = s_order_request_ctx_0"
    by (simp add: s_order_request_ctx_0_def)
  with oc assms(1,2) show ?thesis
    by (simp add: bulk_handle_order_def bulk_order_upto_def Let_def s_bulk_order_0_def)
qed

lemma parse_bulk_order_payload:
  assumes wf: "bulk_order_wf (Some md) b" and canon: "bulk_order_canonical b"
  shows "\<exists>c. parse_bulk_order der_tlv (Some md) (bulk_order_payload b) s_bulk_order_ctx_0 = Inr c \<and> bulk_order c = b"
proof -
  let ?os = "take (bo_order_count b) (bo_orders b)" and ?T = "BULK_ORDER_TAGS der_tlv (Some md)"
  let ?rest = "(0xea, encode_int_be (ucast (grouping_code (bo_grouping b)))) #
      (if bo_has_builder b then [(0xeb, builder_payload (bo_builder b))] else []) :: (u32 \<times> byte list) list"
  have n: "length ?os = bo_order_count b" "1 \<le> bo_order_count b" "bo_order_count b \<le> 5"
    and ok: "list_all (\<lambda>x. order_wf (md_asset_id md) x \<and> order_canonical x) ?os"
    and bl: "length (bi_builder (bo_builder b)) = 20"
    using wf canon by (auto simp: bulk_order_wf_def bulk_order_canonical_def list_all_iff order_wf_md_def)
  have start: "bulk_order_upto [] s_bulk_order_ctx_0"
    by (simp add: bulk_order_upto_def s_bulk_order_ctx_0_def s_bulk_order_0_def padded_Nil)
  obtain c where c: "tlv_dispatch ?T no_common (map (\<lambda>x. field_item (0xdd, order_payload x)) ?os) s_bulk_order_ctx_0 = Inr c"
    "bulk_order_upto ?os c"
    using dispatch_bulk [of ?T "0xdd" "bulk_handle_order der_tlv (Some md)" bulk_order_upto
        "\<lambda>x. order_wf (md_asset_id md) x \<and> order_canonical x" order_payload "[]" s_bulk_order_ctx_0 ?os]
      bulk_order_step start ok n
    by (auto simp: BULK_ORDER_TAGS_def)
  have tags: "0xdd \<in> set (received_tags c)" using c(2) n by (simp add: bulk_order_upto_def)
  have "\<exists>c'. tlv_dispatch ?T no_common (map field_item ?rest) c = Inr c' \<and> bulk_order c' = b \<and>
    {0xdd, 0xea} \<subseteq> set (received_tags c')"
  proof (cases "bo_has_builder b")
    case True
    from parse_builder_payload [OF bl] obtain bc where
      "parse_builder_info der_tlv (builder_payload (bo_builder b)) s_builder_info_ctx_0 = Inr bc" "builder_info bc = bo_builder b"
      by blast
    moreover have "s_builder_info_ctx_0\<lparr>builder_info := s_builder_info_0\<rparr> = s_builder_info_ctx_0"
      by (simp add: s_builder_info_ctx_0_def)
    ultimately show ?thesis using True c(2) n canon tags
      by (cases b) (simp add: BULK_ORDER_TAGS_def handle_grouping_def handle_builder_def item_reads bulk_order_upto_def
          s_bulk_order_0_def bulk_order_canonical_def)
  next
    case False
    then show ?thesis using c(2) n canon tags
      by (cases b) (simp add: BULK_ORDER_TAGS_def handle_grouping_def item_reads bulk_order_upto_def
          s_bulk_order_0_def bulk_order_canonical_def)
  qed
  then obtain c' where c': "tlv_dispatch ?T no_common (map field_item ?rest) c = Inr c'" "bulk_order c' = b"
    "{0xdd, 0xea} \<subseteq> set (received_tags c')" by (elim exE conjE)
  have "fields_ok (tag_names ?T) ?rest"
    using builder_payload_bound [OF bl] by (simp add: fields_ok_def field_ok_def BULK_ORDER_TAGS_def)
  then have "fields_ok (tag_names ?T) (map (\<lambda>x. (0xdd, order_payload x)) ?os @ ?rest)"
    using ok order_payload_bound by (intro fields_ok_bulk) (fastforce simp: BULK_ORDER_TAGS_def list_all_iff)+
  from tlv_parser_fields [OF this, of no_common s_bulk_order_ctx_0]
  have "tlv_parser der_tlv ?T no_common (bulk_order_payload b) s_bulk_order_ctx_0 = Inr c'"
    unfolding bulk_order_payload_def map_append map_map comp_def tlv_dispatch_append c(1) rbind_simps c'(1) .
  then show ?thesis
    using c'(2,3) by (simp add: parse_bulk_order_def verify_bulk_order_def)
qed

subsection \<open>Modifications\<close>

definition modify_payload :: "s_modify_request \<Rightarrow> byte list" where
  "modify_payload m = tlv_fields [(0xdd, order_payload (mr_order m)), (0xdc, encode_int_be (mr_oid m))]"

definition bulk_modify_payload :: "s_bulk_modify \<Rightarrow> byte list" where
  "bulk_modify_payload b = tlv_fields (map (\<lambda>m. (0xd8, modify_payload m)) (take (bm_modify_count b) (bm_modifies b)))"

definition bulk_modify_canonical :: "s_bulk_modify \<Rightarrow> bool" where
  "bulk_modify_canonical b \<longleftrightarrow> list_all (\<lambda>m. order_canonical (mr_order m)) (take (bm_modify_count b) (bm_modifies b)) \<and>
     bm_modifies b = padded s_modify_request_0 (take (bm_modify_count b) (bm_modifies b))"

lemma parse_modify_payload:
  assumes wf: "order_wf (md_asset_id md) (mr_order m)" and canon: "order_canonical (mr_order m)"
  shows "\<exists>c. parse_modify_request der_tlv (Some md) (modify_payload m) s_modify_request_ctx_0 = Inr c \<and> modify_request c = m"
proof -
  from parse_order_payload [OF assms] obtain oc where
    "parse_order_request der_tlv (Some md) (order_payload (mr_order m)) s_order_request_ctx_0 = Inr oc"
    "order_request oc = mr_order m" by blast
  moreover have "s_order_request_ctx_0\<lparr>order_request := s_order_request_0\<rparr> = s_order_request_ctx_0"
    by (simp add: s_order_request_ctx_0_def)
  moreover have "fields_ok (tag_names (MODIFY_REQUEST_TAGS der_tlv (Some md)))
      [(0xdd, order_payload (mr_order m)), (0xdc, encode_int_be (mr_oid m))]"
    using order_payload_bound [OF wf] by (simp add: fields_ok_def field_ok_def MODIFY_REQUEST_TAGS_def)
  from tlv_parser_fields [OF this] calculation show ?thesis
    by (cases m) (simp add: parse_modify_request_def modify_payload_def MODIFY_REQUEST_TAGS_def modify_handle_order_def
        modify_handle_oid_def item_reads verify_modify_request_def s_modify_request_ctx_0_def s_modify_request_0_def)
qed

lemma modify_payload_bound: "order_wf a (mr_order m) \<Longrightarrow> length (modify_payload m) \<le> 240"
  using tlv_fields_bound [of "[(0xdd, order_payload (mr_order m)), (0xdc, encode_int_be (mr_oid m))]"]
    encode_int_be_le [of "mr_oid m"] order_payload_bound [of a "mr_order m"]
  by (simp add: modify_payload_def)

definition bulk_modify_upto :: "s_modify_request list \<Rightarrow> s_bulk_modify_ctx \<Rightarrow> bool" where
  "bulk_modify_upto xs c \<longleftrightarrow> received_tags c = replicate (length xs) 0xd8 \<and>
     bulk_modify c = \<lparr>bm_modify_count = length xs, bm_modifies = padded s_modify_request_0 xs\<rparr>"

lemma bulk_modify_step:
  assumes "bulk_modify_upto xs c" "length xs < 5" "order_wf (md_asset_id md) (mr_order x) \<and> order_canonical (mr_order x)"
  shows "\<exists>c1. handle_modify_request der_tlv (Some md) (field_item (0xd8, modify_payload x)) c = Inr c1 \<and>
    bulk_modify_upto (xs @ [x]) (mark_received (unat (0xd8 :: u32)) c1)"
proof -
  from parse_modify_payload [of md x] assms(3) obtain mc where mc:
    "parse_modify_request der_tlv (Some md) (modify_payload x) s_modify_request_ctx_0 = Inr mc" "modify_request mc = x"
    by blast
  have "s_modify_request_ctx_0\<lparr>modify_request := s_modify_request_0\<rparr> = s_modify_request_ctx_0"
    by (simp add: s_modify_request_ctx_0_def)
  with mc assms(1,2) show ?thesis by (simp add: handle_modify_request_def bulk_modify_upto_def Let_def)
qed

lemma parse_bulk_modify_payload:
  assumes wf: "bulk_modify_wf (Some md) b" and canon: "bulk_modify_canonical b"
  shows "\<exists>c. parse_bulk_modify der_tlv (Some md) (bulk_modify_payload b) s_bulk_modify_ctx_0 = Inr c \<and> bulk_modify c = b"
proof -
  let ?ms = "take (bm_modify_count b) (bm_modifies b)" and ?T = "BULK_MODIFY_TAGS der_tlv (Some md)"
  let ?ok = "\<lambda>x. order_wf (md_asset_id md) (mr_order x) \<and> order_canonical (mr_order x)"
  have n: "length ?ms = bm_modify_count b" "1 \<le> bm_modify_count b" "bm_modify_count b \<le> 5" and ok: "list_all ?ok ?ms"
    using wf canon by (auto simp: bulk_modify_wf_def bulk_modify_canonical_def list_all_iff order_wf_md_def)
  have start: "bulk_modify_upto [] s_bulk_modify_ctx_0"
    by (simp add: bulk_modify_upto_def s_bulk_modify_ctx_0_def s_bulk_modify_0_def padded_Nil)
  obtain c where c: "tlv_dispatch ?T no_common (map (\<lambda>x. field_item (0xd8, modify_payload x)) ?ms) s_bulk_modify_ctx_0 = Inr c"
    "bulk_modify_upto ?ms c"
    using dispatch_bulk [of ?T "0xd8" "handle_modify_request der_tlv (Some md)" bulk_modify_upto ?ok modify_payload "[]"
        s_bulk_modify_ctx_0 ?ms] bulk_modify_step start ok n
    by (auto simp: BULK_MODIFY_TAGS_def)
  have "fields_ok (tag_names ?T) []" by (simp add: fields_ok_def BULK_MODIFY_TAGS_def)
  then have "fields_ok (tag_names ?T) (map (\<lambda>x. (0xd8, modify_payload x)) ?ms @ [])"
    using ok modify_payload_bound by (intro fields_ok_bulk) (fastforce simp: BULK_MODIFY_TAGS_def list_all_iff)+
  from tlv_parser_fields [OF this, of no_common s_bulk_modify_ctx_0]
  have "tlv_parser der_tlv ?T no_common (bulk_modify_payload b) s_bulk_modify_ctx_0 = Inr c"
    unfolding bulk_modify_payload_def append_Nil2 map_map comp_def c(1) .
  moreover have "bulk_modify c = b" using c(2) n canon by (cases b) (simp add: bulk_modify_upto_def bulk_modify_canonical_def)
  ultimately show ?thesis
    using c(2) n by (simp add: parse_bulk_modify_def verify_bulk_modify_def bulk_modify_upto_def)
qed

subsection \<open>Cancellations\<close>

definition cancel_payload :: "s_cancel_request \<Rightarrow> byte list" where
  "cancel_payload r = tlv_fields [(0xd1, encode_int_be (ucast (cr_asset r))), (0xdc, encode_int_be (cr_oid r))]"

definition bulk_cancel_payload :: "s_bulk_cancel \<Rightarrow> byte list" where
  "bulk_cancel_payload b = tlv_fields (map (\<lambda>r. (0xd9, cancel_payload r)) (take (bc_cancel_count b) (bc_cancels b)))"

definition bulk_cancel_canonical :: "s_bulk_cancel \<Rightarrow> bool" where
  "bulk_cancel_canonical b \<longleftrightarrow> bc_cancels b = padded s_cancel_request_0 (take (bc_cancel_count b) (bc_cancels b))"

lemma parse_cancel_payload:
  assumes "cancel_wf_md (Some md) r"
  shows "\<exists>c. parse_cancel_request der_tlv (Some md) (cancel_payload r) s_cancel_request_ctx_0 = Inr c \<and> cancel_request c = r"
proof -
  have "fields_ok (tag_names (CANCEL_REQUEST_TAGS der_tlv))
      [(0xd1, encode_int_be (ucast (cr_asset r))), (0xdc, encode_int_be (cr_oid r))]"
    by (simp add: fields_ok_def field_ok_def CANCEL_REQUEST_TAGS_def)
  from tlv_parser_fields [OF this] assms show ?thesis
    by (cases r) (simp add: parse_cancel_request_def cancel_payload_def CANCEL_REQUEST_TAGS_def cancel_handle_asset_def
        cancel_handle_oid_def item_reads verify_cancel_request_def s_cancel_request_ctx_0_def cancel_wf_md_def)
qed

lemma cancel_payload_bound: "length (cancel_payload r) \<le> 32"
  using tlv_fields_bound [of "[(0xd1, encode_int_be (ucast (cr_asset r))), (0xdc, encode_int_be (cr_oid r))]"]
    encode_int_be_le [of "cr_oid r"] encode_int_be_le [of "ucast (cr_asset r)"]
  by (simp add: cancel_payload_def)

definition bulk_cancel_upto :: "s_cancel_request list \<Rightarrow> s_bulk_cancel_ctx \<Rightarrow> bool" where
  "bulk_cancel_upto xs c \<longleftrightarrow> received_tags c = replicate (length xs) 0xd9 \<and>
     bulk_cancel c = \<lparr>bc_cancel_count = length xs, bc_cancels = padded s_cancel_request_0 xs\<rparr>"

lemma bulk_cancel_step:
  assumes "bulk_cancel_upto xs c" "length xs < 5" "cancel_wf_md (Some md) x"
  shows "\<exists>c1. handle_cancel_request der_tlv (Some md) (field_item (0xd9, cancel_payload x)) c = Inr c1 \<and>
    bulk_cancel_upto (xs @ [x]) (mark_received (unat (0xd9 :: u32)) c1)"
proof -
  from parse_cancel_payload [OF assms(3)] obtain mc where mc:
    "parse_cancel_request der_tlv (Some md) (cancel_payload x) s_cancel_request_ctx_0 = Inr mc" "cancel_request mc = x"
    by blast
  have "s_cancel_request_ctx_0\<lparr>cancel_request := s_cancel_request_0\<rparr> = s_cancel_request_ctx_0"
    by (simp add: s_cancel_request_ctx_0_def)
  with mc assms(1,2) show ?thesis by (simp add: handle_cancel_request_def bulk_cancel_upto_def Let_def)
qed

lemma parse_bulk_cancel_payload:
  assumes wf: "bulk_cancel_wf (Some md) b" and canon: "bulk_cancel_canonical b"
  shows "\<exists>c. parse_bulk_cancel der_tlv (Some md) (bulk_cancel_payload b) s_bulk_cancel_ctx_0 = Inr c \<and> bulk_cancel c = b"
proof -
  let ?cs = "take (bc_cancel_count b) (bc_cancels b)" and ?T = "BULK_CANCEL_TAGS der_tlv (Some md)"
  have n: "length ?cs = bc_cancel_count b" "1 \<le> bc_cancel_count b" "bc_cancel_count b \<le> 5"
    and ok: "list_all (cancel_wf_md (Some md)) ?cs"
    using wf by (auto simp: bulk_cancel_wf_def)
  have start: "bulk_cancel_upto [] s_bulk_cancel_ctx_0"
    by (simp add: bulk_cancel_upto_def s_bulk_cancel_ctx_0_def s_bulk_cancel_0_def padded_Nil)
  obtain c where c: "tlv_dispatch ?T no_common (map (\<lambda>x. field_item (0xd9, cancel_payload x)) ?cs) s_bulk_cancel_ctx_0 = Inr c"
    "bulk_cancel_upto ?cs c"
    using dispatch_bulk [of ?T "0xd9" "handle_cancel_request der_tlv (Some md)" bulk_cancel_upto "cancel_wf_md (Some md)"
        cancel_payload "[]" s_bulk_cancel_ctx_0 ?cs] bulk_cancel_step start ok n
    by (auto simp: BULK_CANCEL_TAGS_def)
  have small: "length (cancel_payload r) < 16777216" for r using cancel_payload_bound [of r] by simp
  have "fields_ok (tag_names ?T) []" by (simp add: fields_ok_def BULK_CANCEL_TAGS_def)
  then have "fields_ok (tag_names ?T) (map (\<lambda>x. (0xd9, cancel_payload x)) ?cs @ [])"
    using small by (intro fields_ok_bulk) (auto simp: BULK_CANCEL_TAGS_def list_all_iff)
  from tlv_parser_fields [OF this, of no_common s_bulk_cancel_ctx_0]
  have "tlv_parser der_tlv ?T no_common (bulk_cancel_payload b) s_bulk_cancel_ctx_0 = Inr c"
    unfolding bulk_cancel_payload_def append_Nil2 map_map comp_def c(1) .
  moreover have "bulk_cancel c = b" using c(2) n canon by (cases b) (simp add: bulk_cancel_upto_def bulk_cancel_canonical_def)
  ultimately show ?thesis
    using c(2) n by (simp add: parse_bulk_cancel_def verify_bulk_cancel_def bulk_cancel_upto_def)
qed

section \<open>Single actions\<close>

definition leverage_payload :: "s_update_leverage \<Rightarrow> byte list" where
  "leverage_payload u = tlv_fields
     [(0xd1, encode_int_be (ucast (ul_asset u))), (0xde, flag (ul_is_cross u)), (0xed, encode_int_be (ucast (ul_leverage u)))]"

lemma parse_leverage_payload:
  assumes "leverage_wf_md (Some md) u"
  shows "\<exists>c. parse_update_leverage der_tlv (Some md) (leverage_payload u) s_update_leverage_ctx_0 = Inr c \<and>
    update_leverage c = u"
proof -
  have "fields_ok (tag_names (UPDATE_LEVERAGE_TAGS der_tlv))
     [(0xd1, encode_int_be (ucast (ul_asset u))), (0xde, flag (ul_is_cross u)), (0xed, encode_int_be (ucast (ul_leverage u)))]"
    by (simp add: fields_ok_def field_ok_def UPDATE_LEVERAGE_TAGS_def)
  from tlv_parser_fields [OF this] assms show ?thesis
    by (cases u) (simp add: parse_update_leverage_def leverage_payload_def UPDATE_LEVERAGE_TAGS_def leverage_handle_asset_def
        handle_is_cross_def handle_leverage_def item_reads verify_update_leverage_def s_update_leverage_ctx_0_def leverage_wf_md_def)
qed

definition margin_payload :: "s_update_isolated_margin \<Rightarrow> byte list" where
  "margin_payload u = tlv_fields
     [(0xd1, encode_int_be (ucast (um_asset u))), (0xe2, flag (um_is_buy u)), (0xd6, int64_bytes (um_ntli u))]"

lemma parse_margin_payload:
  assumes "margin_wf_md (Some md) u"
  shows "\<exists>c. parse_update_isolated_margin der_tlv (Some md) (margin_payload u) s_update_isolated_margin_ctx_0 = Inr c \<and>
    update_isolated_margin c = u"
proof -
  have "fields_ok (tag_names (UPDATE_ISOLATED_MARGIN_TAGS der_tlv))
     [(0xd1, encode_int_be (ucast (um_asset u))), (0xe2, flag (um_is_buy u)), (0xd6, int64_bytes (um_ntli u))]"
    by (simp add: fields_ok_def field_ok_def UPDATE_ISOLATED_MARGIN_TAGS_def)
  from tlv_parser_fields [OF this] assms show ?thesis
    by (cases u) (simp add: parse_update_isolated_margin_def margin_payload_def UPDATE_ISOLATED_MARGIN_TAGS_def
        margin_handle_asset_def margin_handle_is_buy_def handle_ntli_def item_reads verify_update_isolated_margin_def
        s_update_isolated_margin_ctx_0_def margin_wf_md_def)
qed

definition fee_payload :: "s_approve_builder_fee \<Rightarrow> byte list" where
  "fee_payload u = tlv_fields
     [(0x23, encode_int_be (ab_signature_chain_id u)), (0xb0, bytes_of (ab_max_fee_rate u)), (0xd3, ab_builder u)]"

lemma parse_fee_payload:
  assumes "fee_wf u"
  shows "\<exists>c. parse_approve_builder_fee der_tlv (fee_payload u) s_approve_builder_fee_ctx_0 = Inr c \<and>
    approve_builder_fee c = u"
proof -
  have "length (ab_max_fee_rate u) \<le> 21" "num_str (ab_max_fee_rate u)" "length (ab_builder u) = 20"
    using assms num_str_length by (auto simp: fee_wf_def)
  moreover from this have "fields_ok (tag_names (APPROVE_BUILDER_FEE_TAGS der_tlv))
     [(0x23, encode_int_be (ab_signature_chain_id u)), (0xb0, bytes_of (ab_max_fee_rate u)), (0xd3, ab_builder u)]"
    by (simp add: fields_ok_def field_ok_def APPROVE_BUILDER_FEE_TAGS_def)
  from tlv_parser_fields [OF this] calculation show ?thesis
    by (cases u) (simp add: parse_approve_builder_fee_def fee_payload_def APPROVE_BUILDER_FEE_TAGS_def fee_handler_defs
        item_reads verify_approve_builder_fee_def s_approve_builder_fee_ctx_0_def)
qed

definition abstraction_payload :: "s_user_set_abstraction \<Rightarrow> byte list" where
  "abstraction_payload u = tlv_fields
     [(0x23, encode_int_be (ua_signature_chain_id u)), (0xdf, encode_int_be (ucast (ua_abstraction u)))]"

lemma parse_abstraction_payload:
  assumes "abstraction_wf u"
  shows "\<exists>c. parse_user_set_abstraction der_tlv (abstraction_payload u) s_user_set_abstraction_ctx_0 = Inr c \<and>
    user_set_abstraction c = u"
proof -
  have "fields_ok (tag_names (USER_SET_ABSTRACTION_TAGS der_tlv))
     [(0x23, encode_int_be (ua_signature_chain_id u)), (0xdf, encode_int_be (ucast (ua_abstraction u)))]"
    by (simp add: fields_ok_def field_ok_def USER_SET_ABSTRACTION_TAGS_def)
  from tlv_parser_fields [OF this] assms show ?thesis
    by (cases u) (simp add: parse_user_set_abstraction_def abstraction_payload_def USER_SET_ABSTRACTION_TAGS_def
        abstraction_handle_signature_chain_id_def handle_abstraction_def item_reads verify_user_set_abstraction_def
        s_user_set_abstraction_ctx_0_def abstraction_wf_def)
qed

section \<open>An action\<close>

definition action_body :: "s_action \<Rightarrow> byte list" where
  "action_body a = (case act_type a of
       ACTION_TYPE_BULK_ORDER \<Rightarrow> bulk_order_payload (act_bulk_order a)
     | ACTION_TYPE_BULK_MODIFY \<Rightarrow> bulk_modify_payload (act_bulk_modify a)
     | ACTION_TYPE_BULK_CANCEL \<Rightarrow> bulk_cancel_payload (act_bulk_cancel a)
     | ACTION_TYPE_UPDATE_LEVERAGE \<Rightarrow> leverage_payload (act_update_leverage a)
     | ACTION_TYPE_APPROVE_BUILDER_FEE \<Rightarrow> fee_payload (act_approve_builder_fee a)
     | ACTION_TYPE_UPDATE_ISOLATED_MARGIN \<Rightarrow> margin_payload (act_update_isolated_margin a)
     | ACTION_TYPE_USER_SET_ABSTRACTION \<Rightarrow> abstraction_payload (act_user_set_abstraction a))"

definition action_payload :: "s_action \<Rightarrow> byte list" where
  "action_payload a = tlv_fields
     [(0x01, encode_int_be (ucast ACTION_STRUCT_TYPE)), (0x02, encode_int_be 1),
      (0xd0, encode_int_be (ucast (action_type_code (act_type a)))), (0xda, encode_int_be (act_nonce a)),
      (0xdb, action_body a)]"

text \<open>Well formed, and zero wherever nothing was asked for.\<close>

definition action_canonical :: "s_action \<Rightarrow> bool" where
  "action_canonical a \<longleftrightarrow> payload_only a = a \<and>
     (case act_type a of
        ACTION_TYPE_BULK_ORDER \<Rightarrow> bulk_order_canonical (act_bulk_order a)
      | ACTION_TYPE_BULK_MODIFY \<Rightarrow> bulk_modify_canonical (act_bulk_modify a)
      | ACTION_TYPE_BULK_CANCEL \<Rightarrow> bulk_cancel_canonical (act_bulk_cancel a)
      | _ \<Rightarrow> True)"

lemma fields_bound_bulk:
  assumes "list_all (\<lambda>x. length (enc x) \<le> m) xs" "length xs \<le> 5"
  shows "sum_list (map (\<lambda>f. 8 + length (snd f)) (map (\<lambda>x. (t, enc x)) xs)) \<le> 5 * (8 + m)"
proof -
  have "sum_list (map (\<lambda>x. 8 + length (enc x)) xs) \<le> sum_list (map (\<lambda>x. 8 + m) xs)"
    using assms(1) by (intro sum_list_mono) (auto simp: list_all_iff)
  also have "\<dots> = length xs * (8 + m)" by (simp add: sum_list_triv)
  also have "\<dots> \<le> 5 * (8 + m)" using assms(2) by (intro mult_right_mono) simp_all
  finally show ?thesis by (simp add: comp_def)
qed

lemma action_body_bound:
  assumes "action_wf (Some md) a"
  shows "length (action_body a) < 2 ^ 24"
proof (cases "act_type a")
  case ACTION_TYPE_BULK_ORDER
  let ?b = "act_bulk_order a"
  let ?os = "take (bo_order_count ?b) (bo_orders ?b)"
  have b: "length ?os \<le> 5" "list_all (\<lambda>x. length (order_payload x) \<le> 210) ?os" "length (bi_builder (bo_builder ?b)) = 20"
    using assms order_payload_bound ACTION_TYPE_BULK_ORDER
    by (auto simp: action_wf_def bulk_order_wf_def list_all_iff order_wf_md_def)
  have "length (bulk_order_payload ?b) \<le> 5 * (8 + 210) + (8 + 8) + (8 + 44)"
    unfolding bulk_order_payload_def
    using fields_bound_bulk [OF b(2,1), of "0xdd :: u32"] builder_payload_bound [OF b(3)]
      encode_int_be_le [of "ucast (grouping_code (bo_grouping ?b))"]
    by (intro order_trans [OF tlv_fields_bound]) (simp split: if_splits)
  then show ?thesis by (simp add: action_body_def ACTION_TYPE_BULK_ORDER)
next
  case ACTION_TYPE_BULK_MODIFY
  let ?b = "act_bulk_modify a"
  let ?ms = "take (bm_modify_count ?b) (bm_modifies ?b)"
  have b: "length ?ms \<le> 5" "list_all (\<lambda>x. length (modify_payload x) \<le> 240) ?ms"
    using assms modify_payload_bound ACTION_TYPE_BULK_MODIFY
    by (auto simp: action_wf_def bulk_modify_wf_def list_all_iff order_wf_md_def)
  from order_trans [OF tlv_fields_bound fields_bound_bulk [OF b(2,1)]] show ?thesis
    by (simp add: action_body_def ACTION_TYPE_BULK_MODIFY bulk_modify_payload_def) (rule le_less_trans, assumption, simp)
next
  case ACTION_TYPE_BULK_CANCEL
  let ?b = "act_bulk_cancel a"
  let ?cs = "take (bc_cancel_count ?b) (bc_cancels ?b)"
  have b: "length ?cs \<le> 5" "list_all (\<lambda>x. length (cancel_payload x) \<le> 32) ?cs"
    using assms cancel_payload_bound ACTION_TYPE_BULK_CANCEL
    by (auto simp: action_wf_def bulk_cancel_wf_def list_all_iff)
  from order_trans [OF tlv_fields_bound fields_bound_bulk [OF b(2,1)]] show ?thesis
    by (simp add: action_body_def ACTION_TYPE_BULK_CANCEL bulk_cancel_payload_def) (rule le_less_trans, assumption, simp)
next
  case ACTION_TYPE_UPDATE_LEVERAGE
  let ?u = "act_update_leverage a"
  have "length (leverage_payload ?u) \<le> 100"
    unfolding leverage_payload_def
    using encode_int_be_le [of "ucast (ul_asset ?u)"] encode_int_be_le [of "ucast (ul_leverage ?u)"]
    by (intro order_trans [OF tlv_fields_bound]) simp
  then show ?thesis by (simp add: action_body_def ACTION_TYPE_UPDATE_LEVERAGE)
next
  case ACTION_TYPE_APPROVE_BUILDER_FEE
  let ?u = "act_approve_builder_fee a"
  have "length (ab_max_fee_rate ?u) \<le> 21" "length (ab_builder ?u) = 20"
    using assms num_str_length ACTION_TYPE_APPROVE_BUILDER_FEE by (auto simp: action_wf_def fee_wf_def)
  then have "length (fee_payload ?u) \<le> 100"
    unfolding fee_payload_def using encode_int_be_le [of "ab_signature_chain_id ?u"]
    by (intro order_trans [OF tlv_fields_bound]) simp
  then show ?thesis by (simp add: action_body_def ACTION_TYPE_APPROVE_BUILDER_FEE)
next
  case ACTION_TYPE_UPDATE_ISOLATED_MARGIN
  let ?u = "act_update_isolated_margin a"
  have "length (margin_payload ?u) \<le> 100"
    unfolding margin_payload_def using encode_int_be_le [of "ucast (um_asset ?u)"]
    by (intro order_trans [OF tlv_fields_bound]) simp
  then show ?thesis by (simp add: action_body_def ACTION_TYPE_UPDATE_ISOLATED_MARGIN)
next
  case ACTION_TYPE_USER_SET_ABSTRACTION
  let ?u = "act_user_set_abstraction a"
  have "length (abstraction_payload ?u) \<le> 100"
    unfolding abstraction_payload_def
    using encode_int_be_le [of "ua_signature_chain_id ?u"] encode_int_be_le [of "ucast (ua_abstraction ?u)"]
    by (intro order_trans [OF tlv_fields_bound]) simp
  then show ?thesis by (simp add: action_body_def ACTION_TYPE_USER_SET_ABSTRACTION)
qed

text \<open>The handler of the body, entered with a type and a nonce and everything else zero.\<close>

lemma handle_action_body:
  assumes wf: "action_wf (Some md) a" and canon: "action_canonical a"
    and c: "0xd0 \<in> set (received_tags c)" "action c = s_action_0\<lparr>act_type := act_type a, act_nonce := act_nonce a\<rparr>"
      "subcontexts_zero c"
  shows "\<exists>c'. handle_action der_tlv (Some md) (field_item (0xdb, action_body a)) c = Inr c' \<and>
    received_tags c' = received_tags c \<and> action c' = a"
proof -
  have z: "payload_zero (action c)" by (simp add: payload_zero_def c(2))
  note enter = subcontexts_wiped [OF z c(3)]
  have a: "payload_only a = a" using canon by (simp add: action_canonical_def)
  show ?thesis
  proof (cases "act_type a")
    case ACTION_TYPE_BULK_ORDER
    from parse_bulk_order_payload [of md "act_bulk_order a"] wf canon obtain x where
      "parse_bulk_order der_tlv (Some md) (bulk_order_payload (act_bulk_order a)) s_bulk_order_ctx_0 = Inr x"
      "bulk_order x = act_bulk_order a" by (auto simp: ACTION_TYPE_BULK_ORDER action_wf_def action_canonical_def)
    with a c enter(1) show ?thesis
      by (simp add: handle_action_def Let_def ACTION_TYPE_BULK_ORDER action_body_def payload_only_def)
  next
    case ACTION_TYPE_BULK_MODIFY
    from parse_bulk_modify_payload [of md "act_bulk_modify a"] wf canon obtain x where
      "parse_bulk_modify der_tlv (Some md) (bulk_modify_payload (act_bulk_modify a)) s_bulk_modify_ctx_0 = Inr x"
      "bulk_modify x = act_bulk_modify a" by (auto simp: ACTION_TYPE_BULK_MODIFY action_wf_def action_canonical_def)
    with a c enter(2) show ?thesis
      by (simp add: handle_action_def Let_def ACTION_TYPE_BULK_MODIFY action_body_def payload_only_def)
  next
    case ACTION_TYPE_BULK_CANCEL
    from parse_bulk_cancel_payload [of md "act_bulk_cancel a"] wf canon obtain x where
      "parse_bulk_cancel der_tlv (Some md) (bulk_cancel_payload (act_bulk_cancel a)) s_bulk_cancel_ctx_0 = Inr x"
      "bulk_cancel x = act_bulk_cancel a" by (auto simp: ACTION_TYPE_BULK_CANCEL action_wf_def action_canonical_def)
    with a c enter(3) show ?thesis
      by (simp add: handle_action_def Let_def ACTION_TYPE_BULK_CANCEL action_body_def payload_only_def)
  next
    case ACTION_TYPE_UPDATE_LEVERAGE
    from parse_leverage_payload [of md "act_update_leverage a"] wf obtain x where
      "parse_update_leverage der_tlv (Some md) (leverage_payload (act_update_leverage a)) s_update_leverage_ctx_0 = Inr x"
      "update_leverage x = act_update_leverage a" by (auto simp: ACTION_TYPE_UPDATE_LEVERAGE action_wf_def)
    with a c enter(4) show ?thesis
      by (simp add: handle_action_def Let_def ACTION_TYPE_UPDATE_LEVERAGE action_body_def payload_only_def)
  next
    case ACTION_TYPE_APPROVE_BUILDER_FEE
    from parse_fee_payload [of "act_approve_builder_fee a"] wf obtain x where
      "parse_approve_builder_fee der_tlv (fee_payload (act_approve_builder_fee a)) s_approve_builder_fee_ctx_0 = Inr x"
      "approve_builder_fee x = act_approve_builder_fee a" by (auto simp: ACTION_TYPE_APPROVE_BUILDER_FEE action_wf_def)
    with a c enter(5) show ?thesis
      by (simp add: handle_action_def Let_def ACTION_TYPE_APPROVE_BUILDER_FEE action_body_def payload_only_def)
  next
    case ACTION_TYPE_UPDATE_ISOLATED_MARGIN
    from parse_margin_payload [of md "act_update_isolated_margin a"] wf obtain x where
      "parse_update_isolated_margin der_tlv (Some md) (margin_payload (act_update_isolated_margin a))
         s_update_isolated_margin_ctx_0 = Inr x"
      "update_isolated_margin x = act_update_isolated_margin a" by (auto simp: ACTION_TYPE_UPDATE_ISOLATED_MARGIN action_wf_def)
    with a c enter(6) show ?thesis
      by (simp add: handle_action_def Let_def ACTION_TYPE_UPDATE_ISOLATED_MARGIN action_body_def payload_only_def)
  next
    case ACTION_TYPE_USER_SET_ABSTRACTION
    from parse_abstraction_payload [of "act_user_set_abstraction a"] wf obtain x where
      "parse_user_set_abstraction der_tlv (abstraction_payload (act_user_set_abstraction a)) s_user_set_abstraction_ctx_0 = Inr x"
      "user_set_abstraction x = act_user_set_abstraction a" by (auto simp: ACTION_TYPE_USER_SET_ABSTRACTION action_wf_def)
    with a c enter(7) show ?thesis
      by (simp add: handle_action_def Let_def ACTION_TYPE_USER_SET_ABSTRACTION action_body_def payload_only_def)
  qed
qed

lemma enum_reads_action [item_reads]:
  "enum_of action_type_code
     [ACTION_TYPE_BULK_ORDER, ACTION_TYPE_BULK_MODIFY, ACTION_TYPE_BULK_CANCEL,
      ACTION_TYPE_UPDATE_LEVERAGE, ACTION_TYPE_APPROVE_BUILDER_FEE,
      ACTION_TYPE_UPDATE_ISOLATED_MARGIN, ACTION_TYPE_USER_SET_ABSTRACTION] (action_type_code t) = Some t"
  by (cases t) (simp_all add: enum_of_def)

text \<open>
  A well-formed action of a type the session admits is pushed as it was asked for.
\<close>

lemma parse_action_payload:
  assumes md: "ctx_get_action_metadata g = Some md" and wf: "action_wf (Some md) a" and canon: "action_canonical a"
    and compat: "is_action_compatible (act_type a) (md_op_type md) g"
  shows "parse_action der_tlv (Some (action_payload a)) g = ctx_push_action a g"
proof -
  let ?T = "ACTION_TAGS der_tlv (Some md)"
  let ?head = "[(0x01, encode_int_be (ucast ACTION_STRUCT_TYPE)), (0x02, encode_int_be 1),
      (0xd0, encode_int_be (ucast (action_type_code (act_type a)))), (0xda, encode_int_be (act_nonce a))] :: (u32 \<times> byte list) list"
  let ?c = "s_action_ctx_0\<lparr>received_tags := [0xda, 0xd0, 0x02, 0x01],
      action := s_action_0\<lparr>act_type := act_type a, act_nonce := act_nonce a\<rparr>\<rparr>"
  have ok: "fields_ok (tag_names ?T) (?head @ [(0xdb, action_body a)])"
    using action_body_bound [OF wf] by (simp add: fields_ok_def field_ok_def ACTION_TAGS_def)
  have head: "tlv_dispatch ?T no_common (map field_item ?head) s_action_ctx_0 = Inr ?c"
    by (simp add: ACTION_TAGS_def action_handle_struct_type_def action_handle_struct_version_def handle_action_type_def
        handle_nonce_def item_reads mark_received_def s_action_ctx_0_def)
  have "subcontexts_zero ?c" by (simp add: subcontexts_zero_def s_action_ctx_0_def)
  with handle_action_body [OF wf canon, of ?c] obtain c' where c':
    "handle_action der_tlv (Some md) (field_item (0xdb, action_body a)) ?c = Inr c'"
    "received_tags c' = [0xda, 0xd0, 0x02, 0x01]" "action c' = a" by auto
  have "find_handler ?T (unat (0xdb :: u32)) = Some (handle_action der_tlv (Some md))" by (simp add: ACTION_TAGS_def)
  from dispatch_item [OF this c'(1), of "[]"]
  have "tlv_dispatch ?T no_common (map field_item (?head @ [(0xdb, action_body a)])) s_action_ctx_0 =
    Inr (mark_received (unat (0xdb :: u32)) c')"
    unfolding map_append tlv_dispatch_append head rbind_simps
    unfolding list.map tlv_dispatch.simps(1) .
  with tlv_parser_fields [OF ok, of no_common s_action_ctx_0]
  have "tlv_parser der_tlv ?T no_common (action_payload a) s_action_ctx_0 = Inr (mark_received (unat (0xdb :: u32)) c')"
    by (simp add: action_payload_def)
  then show ?thesis
    using md compat c'(2,3) by (simp add: parse_action_def verify_action_def)
qed

end
