(* ===== verification/Action_Metadata.thy ===== *)
theory Action_Metadata
  imports Hl_Context Sdk
begin

text \<open>
  The action metadata (\<open>action_metadata.c\<close>): its parser, the check of its signature against the PKI
  certificate loaded in the OS, and the start of a new session with it.

  Every item except the signature is hashed as it was received, before its handler runs
  (\<open>handle_common\<close>). Parsing ends in \<open>ctx_reset\<close> in two ways: a new session, or the refusal to start
  one while a signing flow is under way.
\<close>

record 'h s_action_metadata_ctx = tlv_ctx +
  am_hash_ctx :: 'h
  am_signature :: "byte list"
  am_metadata :: s_action_metadata

lemma action_metadata_ctx_simps [simp]:
  "received_tags (c\<lparr>am_hash_ctx := h\<rparr>) = received_tags c"
  "received_tags (c\<lparr>am_signature := s\<rparr>) = received_tags c"
  "received_tags (c\<lparr>am_metadata := m\<rparr>) = received_tags c"
  "am_hash_ctx (mark_received t c) = am_hash_ctx c"
  "am_signature (mark_received t c) = am_signature c"
  "am_metadata (mark_received t c) = am_metadata c"
  by (cases c; simp add: mark_received_def)+

section \<open>Handlers\<close>

definition METADATA_STRUCT_TYPE :: u8 where "METADATA_STRUCT_TYPE = 0x2b"

definition CERTIFICATE_PUBLIC_KEY_USAGE_PERPS_DATA :: u8 where
  "CERTIFICATE_PUBLIC_KEY_USAGE_PERPS_DATA = 0x11"

definition metadata_handle_struct_type :: "tlv_lib \<Rightarrow> 'h s_action_metadata_ctx handler" where
  "metadata_handle_struct_type L d out = rbind (of_opt (get_uint8 L d)) (\<lambda>struct_type.
     if struct_type \<noteq> METADATA_STRUCT_TYPE then Inl Reject else Inr out)"

definition metadata_handle_struct_version :: "tlv_lib \<Rightarrow> 'h s_action_metadata_ctx handler" where
  "metadata_handle_struct_version L d out = rbind (of_opt (get_uint8 L d)) (\<lambda>struct_version.
     if struct_version \<noteq> 1 then Inl Reject else Inr out)"

text \<open>\<open>OP_TYPE_UPDATE_LEVERAGE\<close> is an enumerator, but its \<open>case\<close> falls into the refusal.\<close>

definition handle_operation_type :: "tlv_lib \<Rightarrow> 'h s_action_metadata_ctx handler" where
  "handle_operation_type L d out = rbind (of_opt (get_uint8 L d)) (\<lambda>b.
     rbind (of_opt (enum_of op_type_code
       [OP_TYPE_ORDER, OP_TYPE_MODIFY, OP_TYPE_CANCEL, OP_TYPE_CLOSE, OP_TYPE_UPDATE_MARGIN,
        OP_TYPE_CANCEL_SL, OP_TYPE_CANCEL_TP, OP_TYPE_CANCEL_TP_SL] b)) (\<lambda>t.
     Inr (out\<lparr>am_metadata := (am_metadata out)\<lparr>md_op_type := t\<rparr>\<rparr>)))"

definition handle_asset_id :: "tlv_lib \<Rightarrow> 'h s_action_metadata_ctx handler" where
  "handle_asset_id L d out = rbind (of_opt (get_uint32 L d)) (\<lambda>a.
     Inr (out\<lparr>am_metadata := (am_metadata out)\<lparr>md_asset_id := a\<rparr>\<rparr>))"

definition handle_asset_ticker :: "tlv_lib \<Rightarrow> 'h s_action_metadata_ctx handler" where
  "handle_asset_ticker L d out = rbind (of_opt (get_string L d 1 (ASSET_TICKER_LENGTH + 1))) (\<lambda>s.
     Inr (out\<lparr>am_metadata := (am_metadata out)\<lparr>md_asset_ticker := s\<rparr>\<rparr>))"

definition handle_network :: "tlv_lib \<Rightarrow> 'h s_action_metadata_ctx handler" where
  "handle_network L d out = rbind (of_opt (get_uint8 L d)) (\<lambda>b.
     rbind (of_opt (enum_of network_code [NETWORK_MAINNET, NETWORK_TESTNET] b)) (\<lambda>n.
     Inr (out\<lparr>am_metadata := (am_metadata out)\<lparr>md_network := n\<rparr>\<rparr>)))"

definition handle_builder_addr :: "tlv_lib \<Rightarrow> 'h s_action_metadata_ctx handler" where
  "handle_builder_addr L d out =
     rbind (of_opt (get_buffer L d ADDRESS_LENGTH ADDRESS_LENGTH)) (\<lambda>buf.
     rbind (read_bytes ADDRESS_LENGTH buf) (\<lambda>a.
     Inr (out\<lparr>am_metadata := (am_metadata out)\<lparr>md_builder_addr := a, md_has_builder_addr := True\<rparr>\<rparr>)))"

definition handle_margin :: "tlv_lib \<Rightarrow> 'h s_action_metadata_ctx handler" where
  "handle_margin L d out = rbind (of_opt (get_uint64 L d)) (\<lambda>m.
     Inr (out\<lparr>am_metadata := (am_metadata out)\<lparr>md_margin := m, md_has_margin := True\<rparr>\<rparr>))"

definition metadata_handle_leverage :: "tlv_lib \<Rightarrow> 'h s_action_metadata_ctx handler" where
  "metadata_handle_leverage L d out = rbind (of_opt (get_uint32 L d)) (\<lambda>m.
     Inr (out\<lparr>am_metadata := (am_metadata out)\<lparr>md_leverage := m, md_has_leverage := True\<rparr>\<rparr>))"

definition handle_signature :: "tlv_lib \<Rightarrow> 'h s_action_metadata_ctx handler" where
  "handle_signature L d out = rbind (of_opt (get_buffer L d 70 72)) (\<lambda>s.
     Inr (out\<lparr>am_signature := s\<rparr>))"

definition METADATA_TAGS :: "tlv_lib \<Rightarrow> 'h s_action_metadata_ctx tag_table" where
  "METADATA_TAGS L =
     [(0x01, metadata_handle_struct_type L, ENFORCE_UNIQUE_TAG),
      (0x02, metadata_handle_struct_version L, ENFORCE_UNIQUE_TAG),
      (0xd0, handle_operation_type L, ENFORCE_UNIQUE_TAG),
      (0xd1, handle_asset_id L, ENFORCE_UNIQUE_TAG),
      (0x24, handle_asset_ticker L, ENFORCE_UNIQUE_TAG),
      (0xd2, handle_network L, ENFORCE_UNIQUE_TAG),
      (0xd3, handle_builder_addr L, ENFORCE_UNIQUE_TAG),
      (0xd4, handle_margin L, ENFORCE_UNIQUE_TAG),
      (0xd5, metadata_handle_leverage L, ENFORCE_UNIQUE_TAG),
      (0x15, handle_signature L, ENFORCE_UNIQUE_TAG)]"

definition handle_common :: "'h cx_lib \<Rightarrow> 'h s_action_metadata_ctx handler" where
  "handle_common X d out =
     (if td_tag d \<noteq> 0x15
      then rbind (of_opt (cx_hash_update X (am_hash_ctx out) (td_raw d))) (\<lambda>h.
           Inr (out\<lparr>am_hash_ctx := h\<rparr>))
      else Inr out)"

definition verify_action_metadata :: "'h cx_lib \<Rightarrow> 'h s_action_metadata_ctx \<Rightarrow> bool" where
  "verify_action_metadata X out \<longleftrightarrow>
     (if \<not> tlv_check_received [0x01, 0x02, 0xd0, 0xd1, 0x24, 0xd2, 0x15] out then False
      else case cx_hash_final X (am_hash_ctx out) of
        None \<Rightarrow> False
      | Some hash \<Rightarrow>
          check_signature_with_pki X hash CERTIFICATE_PUBLIC_KEY_USAGE_PERPS_DATA (am_signature out))"

text \<open>The status and the context left behind, which changes in one of the failures too.\<close>

definition parse_action_metadata ::
  "tlv_lib \<Rightarrow> 'h cx_lib \<Rightarrow> byte list option \<Rightarrow> s_hl_context \<Rightarrow> unit result \<times> s_hl_context" where
  "parse_action_metadata L X payload g =
     (case rbind (of_opt payload) (\<lambda>p.
           rbind (of_opt (cx_sha256_init X)) (\<lambda>h.
           rbind (tlv_parser L (METADATA_TAGS L) (handle_common X) p
                    \<lparr>received_tags = [], am_hash_ctx = h, am_signature = [],
                     am_metadata = s_action_metadata_0\<rparr>) (\<lambda>out.
           check (verify_action_metadata X out) out))) of
        Inl e \<Rightarrow> (Inl e, g)
      | Inr out \<Rightarrow>
          if \<not> ctx_current_action_is_first g then (Inl Reject, ctx_reset g)
          else (Inr (), ctx_save_action_metadata (Some (am_metadata out)) (ctx_reset g)))"

section \<open>What a parsed metadata satisfies\<close>

definition metadata_ctx_inv :: "'h s_action_metadata_ctx \<Rightarrow> bool" where
  "metadata_ctx_inv c \<longleftrightarrow> (let m = am_metadata c; R = set (received_tags c) in
     md_op_type m \<noteq> OP_TYPE_UPDATE_LEVERAGE \<and>
     (0x24 \<in> R \<longrightarrow> 1 \<le> length (md_asset_ticker m) \<and> cstr_fits (ASSET_TICKER_LENGTH + 1) (md_asset_ticker m)) \<and>
     length (md_builder_addr m) = ADDRESS_LENGTH)"

lemma metadata_handlerE:
  assumes "find_handler (METADATA_TAGS L) t = Some h"
  obtains (stype) "t = 0x01" "h = metadata_handle_struct_type L"
  | (version) "t = 0x02" "h = metadata_handle_struct_version L"
  | (op) "t = 0xd0" "h = handle_operation_type L"
  | (asset) "t = 0xd1" "h = handle_asset_id L"
  | (ticker) "t = 0x24" "h = handle_asset_ticker L"
  | (network) "t = 0xd2" "h = handle_network L"
  | (builder) "t = 0xd3" "h = handle_builder_addr L"
  | (margin) "t = 0xd4" "h = handle_margin L"
  | (leverage) "t = 0xd5" "h = metadata_handle_leverage L"
  | (signature) "t = 0x15" "h = handle_signature L"
  using assms by (auto simp: METADATA_TAGS_def split: if_splits)

lemmas metadata_handler_defs = metadata_handle_struct_type_def metadata_handle_struct_version_def
  handle_operation_type_def handle_asset_id_def handle_asset_ticker_def handle_network_def
  handle_builder_addr_def handle_margin_def metadata_handle_leverage_def handle_signature_def

lemma handle_common_spec:
  "no_ub (handle_common X d c)"
  "handle_common X d c = Inr c1 \<Longrightarrow> received_tags c1 = received_tags c \<and> am_metadata c1 = am_metadata c \<and>
     am_signature c1 = am_signature c"
  by (auto simp: handle_common_def rbind_Inr_conv intro!: no_ub_rbind split: if_splits)

lemma metadata_handler_frame:
  "find_handler (METADATA_TAGS L) t = Some h \<Longrightarrow> h d c = Inr c' \<Longrightarrow>
   received_tags c' = received_tags c \<and> am_hash_ctx c' = am_hash_ctx c"
  by (erule metadata_handlerE) (auto simp: metadata_handler_defs rbind_Inr_conv split: if_splits)

lemma metadata_handler_inv:
  assumes L: "tlv_lib_ok L" and inv: "metadata_ctx_inv c"
    and h: "find_handler (METADATA_TAGS L) t = Some h" "h d c = Inr c'"
  shows "metadata_ctx_inv (mark_received t c')"
  using h(1)
proof (cases rule: metadata_handlerE)
  case op
  with h inv show ?thesis
    by (auto simp: metadata_handler_defs rbind_Inr_conv metadata_ctx_inv_def Let_def dest: enum_of_Some)
next
  case ticker
  with h inv get_string_ok [OF L, of d 1 49] show ?thesis
    by (auto simp: metadata_handler_defs rbind_Inr_conv metadata_ctx_inv_def Let_def)
next
  case builder
  with h inv show ?thesis
    by (auto simp: metadata_handler_defs rbind_Inr_conv metadata_ctx_inv_def Let_def dest: read_bytes_length)
qed (use h(2) inv in \<open>auto simp: metadata_handler_defs rbind_Inr_conv metadata_ctx_inv_def Let_def split: if_splits\<close>)

interpretation metadata_tlv:
  tlv_struct "METADATA_TAGS L" "handle_common X" metadata_ctx_inv "tlv_lib_ok L" for L X
proof (unfold_locales, goal_cases)
  case (1 d h c c1 c2)
  then show ?case using handle_common_spec(2) metadata_handler_frame by metis
next
  case (2 c d h c1 c2)
  from 2(2,5) have "metadata_ctx_inv c1"
    by (auto simp: metadata_ctx_inv_def Let_def dest: handle_common_spec(2))
  from metadata_handler_inv [OF 2(1) this 2(3,6)] show ?case .
next
  case (3 c d h)
  from 3(3) have "no_ub (h d c1)" for c1
    by (cases rule: metadata_handlerE)
      (auto simp: metadata_handler_defs intro!: no_ub_rbind get_buffer_read [OF 3(1)] split: if_splits)
  then show ?case by (intro no_ub_rbind handle_common_spec(1))
qed

text \<open>
  What the fields say about the items of the payload: each was read from the item with its tag,
  and a missing optional item leaves its flag down.
\<close>

definition read_from :: "tlv_data list \<Rightarrow> nat \<Rightarrow> (tlv_data \<Rightarrow> bool) \<Rightarrow> bool" where
  "read_from ds t P \<longleftrightarrow> (\<exists>d \<in> set ds. td_tag d = t \<and> P d)"

definition read_if :: "bool \<Rightarrow> tlv_data list \<Rightarrow> nat \<Rightarrow> (tlv_data \<Rightarrow> bool) \<Rightarrow> bool" where
  "read_if flag ds t P \<longleftrightarrow> (if flag then read_from ds t P else t \<notin> td_tag ` set ds)"

definition metadata_reads :: "tlv_lib \<Rightarrow> tlv_data list \<Rightarrow> s_action_metadata \<Rightarrow> bool" where
  "metadata_reads L ds m \<longleftrightarrow>
     read_from ds 0xd0 (\<lambda>d. get_uint8 L d = Some (op_type_code (md_op_type m))) \<and>
     read_from ds 0xd1 (\<lambda>d. get_uint32 L d = Some (md_asset_id m)) \<and>
     read_from ds 0x24 (\<lambda>d. get_string L d 1 49 = Some (md_asset_ticker m)) \<and>
     read_from ds 0xd2 (\<lambda>d. get_uint8 L d = Some (network_code (md_network m))) \<and>
     read_if (md_has_margin m) ds 0xd4 (\<lambda>d. get_uint64 L d = Some (md_margin m)) \<and>
     read_if (md_has_leverage m) ds 0xd5 (\<lambda>d. get_uint32 L d = Some (md_leverage m))"

text \<open>The part of the payload the signature covers.\<close>

definition signed_part :: "tlv_data list \<Rightarrow> byte list" where
  "signed_part ds = concat (map td_raw (filter (\<lambda>d. td_tag d \<noteq> 0x15) ds))"

definition traced :: "tlv_data list \<Rightarrow> nat \<Rightarrow> (tlv_data \<Rightarrow> bool) \<Rightarrow> bool" where
  "traced ds t P \<longleftrightarrow> read_if (t \<in> td_tag ` set ds) ds t P"

definition metadata_trace :: "tlv_lib \<Rightarrow> tlv_data list \<Rightarrow> 'h s_action_metadata_ctx \<Rightarrow> bool" where
  "metadata_trace L ds c \<longleftrightarrow> (let m = am_metadata c in
     set (received_tags c) = td_tag ` set ds \<and>
     traced ds 0xd0 (\<lambda>d. get_uint8 L d = Some (op_type_code (md_op_type m))) \<and>
     traced ds 0xd1 (\<lambda>d. get_uint32 L d = Some (md_asset_id m)) \<and>
     traced ds 0x24 (\<lambda>d. get_string L d 1 49 = Some (md_asset_ticker m)) \<and>
     traced ds 0xd2 (\<lambda>d. get_uint8 L d = Some (network_code (md_network m))) \<and>
     read_if (md_has_margin m) ds 0xd4 (\<lambda>d. get_uint64 L d = Some (md_margin m)) \<and>
     read_if (md_has_leverage m) ds 0xd5 (\<lambda>d. get_uint32 L d = Some (md_leverage m)) \<and>
     traced ds 0x15 (\<lambda>d. get_buffer L d 70 72 = Some (am_signature c)))"

lemma read_if_snoc [simp]:
  "td_tag d \<noteq> t \<Longrightarrow> read_if f (ds @ [d]) t P = read_if f ds t P"
  "td_tag d = t \<Longrightarrow> P d \<Longrightarrow> read_if True (ds @ [d]) t P"
  by (auto simp: read_if_def read_from_def)

lemma traced_snoc [simp]:
  "td_tag d \<noteq> t \<Longrightarrow> traced (ds @ [d]) t P = traced ds t P"
  "td_tag d = t \<Longrightarrow> P d \<Longrightarrow> traced (ds @ [d]) t P"
  by (auto simp: traced_def read_if_def read_from_def)

lemma traced_Nil [simp]: "traced [] t P" "read_if False [] t P"
  by (simp_all add: traced_def read_if_def)

lemma traced_read: "traced ds t P \<Longrightarrow> t \<in> td_tag ` set ds \<Longrightarrow> read_from ds t P"
  by (simp add: traced_def read_if_def)

lemma metadata_trace_step:
  assumes tr: "metadata_trace L ds c" and h: "find_handler (METADATA_TAGS L) (td_tag d) = Some h"
    and com: "handle_common X d c = Inr c1" and run: "h d c1 = Inr c2"
  shows "metadata_trace L (ds @ [d]) (mark_received (td_tag d) c2)"
proof -
  from com have eq: "received_tags c1 = received_tags c" "am_metadata c1 = am_metadata c"
    "am_signature c1 = am_signature c" by (auto dest: handle_common_spec(2))
  then have tr1: "metadata_trace L ds c1" using tr by (simp add: metadata_trace_def)
  from h show ?thesis
    by (cases rule: metadata_handlerE)
       (use tr1 run in \<open>auto simp: metadata_handler_defs rbind_Inr_conv metadata_trace_def Let_def
          dest!: enum_of_Some split: if_splits\<close>)
qed

lemma signed_part_trace:
  assumes ab: "absorbs X K S ab" and init: "cx_sha256_init X = Some h0"
    and run: "tlv_dispatch (METADATA_TAGS L) (handle_common X) ds c = Inr c'" and c: "am_hash_ctx c = h0"
  shows "ab (am_hash_ctx c') = (Sha256, signed_part ds)"
proof -
  have "ab (am_hash_ctx c') = (Sha256, signed_part ([] @ ds))"
  proof (rule tlv_dispatch_trace [where P = "\<lambda>xs c. ab (am_hash_ctx c) = (Sha256, signed_part xs)", OF _ _ run])
    fix xs d c h c1 c2
    assume old: "ab (am_hash_ctx c) = (Sha256, signed_part xs)"
      and h: "find_handler (METADATA_TAGS L) (td_tag d) = Some h"
      and com: "handle_common X d c = Inr c1" and step: "h d c1 = Inr c2"
    have "ab (am_hash_ctx c1) = (Sha256, signed_part (xs @ [d]))"
      using com old ab
      by (auto simp: handle_common_def signed_part_def rbind_Inr_conv absorbs_def split: if_splits)
    then show "ab (am_hash_ctx (mark_received (td_tag d) c2)) = (Sha256, signed_part (xs @ [d]))"
      using metadata_handler_frame [OF h step] by simp
  qed (use ab init c in \<open>simp add: absorbs_def signed_part_def\<close>)
  then show ?thesis by simp
qed

text \<open>The state a metadata payload leads to.\<close>

definition metadata_accepted ::
  "tlv_lib \<Rightarrow> 'h cx_lib \<Rightarrow> (byte list \<Rightarrow> byte list) \<Rightarrow> byte list \<Rightarrow> s_action_metadata \<Rightarrow> bool" where
  "metadata_accepted L X S p m \<longleftrightarrow> metadata_wf m \<and>
     (\<exists>ds sig. tlv_items L (tag_names (METADATA_TAGS L :: 'h s_action_metadata_ctx tag_table)) p = (ds, True) \<and>
        metadata_reads L ds m \<and> read_from ds 0x15 (\<lambda>d. get_buffer L d 70 72 = Some sig) \<and>
        check_signature_with_pki X (S (signed_part ds)) CERTIFICATE_PUBLIC_KEY_USAGE_PERPS_DATA sig)"

lemma metadata_parse_accepted:
  assumes L: "tlv_lib_ok L" and cx: "cx_hashes X K S"
    and init: "cx_sha256_init X = Some h0"
    and run: "tlv_parser L (METADATA_TAGS L) (handle_common X) p
       \<lparr>received_tags = [], am_hash_ctx = h0, am_signature = [], am_metadata = s_action_metadata_0\<rparr> = Inr out"
    and ver: "verify_action_metadata X out"
  shows "metadata_accepted L X S p (am_metadata out)"
proof -
  let ?c = "\<lparr>received_tags = [], am_hash_ctx = h0, am_signature = [], am_metadata = s_action_metadata_0\<rparr>"
  from cx obtain ab where ab: "absorbs X K S ab" by (auto simp: cx_hashes_def)
  have inv: "metadata_ctx_inv out"
    by (rule metadata_tlv.parser_spec(2) [OF L tlv_lib_okD [OF L] _ _ run])
       (simp_all add: metadata_ctx_inv_def zero_defs)
  have start: "metadata_trace L [] ?c" by (simp add: metadata_trace_def zero_defs)
  obtain ds where items: "tlv_items L (tag_names (METADATA_TAGS L :: 'a s_action_metadata_ctx tag_table)) p = (ds, True)"
    and tr: "metadata_trace L ds out"
    using tlv_parser_trace [OF run, of "metadata_trace L", OF start] metadata_trace_step by metis
  then have "tlv_dispatch (METADATA_TAGS L) (handle_common X) ds ?c = Inr out"
    using run by (simp add: tlv_parser_items)
  from signed_part_trace [OF ab init this] have absd: "ab (am_hash_ctx out) = (Sha256, signed_part ds)" by simp
  from ver obtain hash where fin: "cx_hash_final X (am_hash_ctx out) = Some hash"
    and pki: "check_signature_with_pki X hash CERTIFICATE_PUBLIC_KEY_USAGE_PERPS_DATA (am_signature out)"
    and tags: "{0x01, 0x02, 0xd0, 0xd1, 0x24, 0xd2, 0x15} \<subseteq> set (received_tags out)"
    by (auto simp: verify_action_metadata_def split: if_splits option.splits)
  have "hash = S (signed_part ds)" using ab fin absd by (fastforce simp: absorbs_def)
  moreover have "metadata_wf (am_metadata out)"
    using inv tags by (simp add: metadata_ctx_inv_def metadata_wf_def Let_def)
  moreover have "metadata_reads L ds (am_metadata out)"
    "read_from ds 0x15 (\<lambda>d. get_buffer L d 70 72 = Some (am_signature out))"
    using tr tags by (auto simp: metadata_trace_def metadata_reads_def Let_def intro: traced_read)
  ultimately show ?thesis using items pki unfolding metadata_accepted_def by blast
qed

lemma parse_action_metadata_spec:
  assumes L: "tlv_lib_ok L" and run: "parse_action_metadata L X payload g = (r, g')"
  shows "no_ub r"
    and "r = Inr () \<Longrightarrow> cx_hashes X K S \<Longrightarrow> ss_pos (ctx_session g) = 0 \<and>
      (\<exists>p m. payload = Some p \<and> metadata_accepted L X S p m \<and>
         ctx_session g' = empty_session\<lparr>ss_metadata := Some m\<rparr>)"
    and "r = Inl e \<Longrightarrow> g' = g \<or> (ss_pos (ctx_session g) \<noteq> 0 \<and> g' = ctx_reset g)"
    and "ctx_inv g \<Longrightarrow> ctx_inv g'"
proof -
  have ub: "no_ub (tlv_parser L (METADATA_TAGS L) (handle_common X) p
       \<lparr>received_tags = [], am_hash_ctx = h0, am_signature = [], am_metadata = s_action_metadata_0\<rparr>)" for p h0
    by (rule metadata_tlv.parser_spec(1) [OF L tlv_lib_okD [OF L]]) (simp_all add: metadata_ctx_inv_def zero_defs)
  have first: "ctx_current_action_is_first g \<longleftrightarrow> ss_pos (ctx_session g) = 0"
    by (simp add: ctx_current_action_is_first_def ctx_session_def unat_eq_zero)
  show "no_ub r"
    using run ub by (auto simp: parse_action_metadata_def rbind_Inl_conv no_ub_def split: sum.splits if_splits)
  show "r = Inl e \<Longrightarrow> g' = g \<or> (ss_pos (ctx_session g) \<noteq> 0 \<and> g' = ctx_reset g)"
    using run first by (auto simp: parse_action_metadata_def split: sum.splits if_splits)
  show "ctx_inv g \<Longrightarrow> ctx_inv g'"
    using run ctx.reset_law(1) [of g] ctx.save_law(1) [OF ctx.reset_law(1) [of g]]
    by (auto simp: parse_action_metadata_def split: sum.splits if_splits)
  assume "r = Inr ()" and cx: "cx_hashes X K S"
  with run obtain p h0 out where p: "payload = Some p" and "cx_sha256_init X = Some h0"
    and "tlv_parser L (METADATA_TAGS L) (handle_common X) p
       \<lparr>received_tags = [], am_hash_ctx = h0, am_signature = [], am_metadata = s_action_metadata_0\<rparr> = Inr out"
    and "verify_action_metadata X out" and g': "ctx_current_action_is_first g"
      "g' = ctx_save_action_metadata (Some (am_metadata out)) (ctx_reset g)"
    by (auto simp: parse_action_metadata_def rbind_Inr_conv split: sum.splits if_splits)
  then have "metadata_accepted L X S p (am_metadata out)"
    using metadata_parse_accepted [OF L cx] by blast
  then show "ss_pos (ctx_session g) = 0 \<and> (\<exists>p m. payload = Some p \<and> metadata_accepted L X S p m \<and>
         ctx_session g' = empty_session\<lparr>ss_metadata := Some m\<rparr>)"
    using p g' first ctx.save_law(2) [of _ "ctx_reset g"] ctx.reset_law(2) by auto
qed

end
