(* ===== verification/Action_Size.thy ===== *)
theory Action_Size
  imports Action
begin

text \<open>
  The serialization buffer of \<open>compute_connection_id\<close> (\<open>action.c\<close>) has 1024 bytes. For an encoder that
  uses the sizes of the MessagePack format, no action that the parsers accept needs more: the hash of a
  well-formed action is always produced when the cryptographic services deliver.
\<close>

section \<open>Sizes of MessagePack values\<close>

definition str_size :: "nat \<Rightarrow> nat" where
  "str_size n = (if n < 32 then 1 else if n < 256 then 2 else if n < 65536 then 3 else 5) + n"

definition container_size :: "nat \<Rightarrow> nat" where
  "container_size n = (if n < 16 then 1 else if n < 65536 then 3 else 5)"

definition int_size :: "int \<Rightarrow> nat" where
  "int_size i = (if 0 \<le> i \<and> i < 2 ^ 32 then 5 else 9)"

text \<open>The longest encodings the format documents for the values the application writes.\<close>

definition cmp_sizes :: "cmp_lib \<Rightarrow> bool" where
  "cmp_sizes C \<longleftrightarrow>
     (\<forall>s. length (concat (cmp_str C s)) \<le> str_size (length s)) \<and>
     (\<forall>b. length (concat (cmp_bool C b)) \<le> 1) \<and>
     (\<forall>n. length (concat (cmp_uint C n)) \<le> int_size (uint n)) \<and>
     (\<forall>n. length (concat (cmp_int C n)) \<le> 9) \<and>
     (\<forall>n. length (concat (cmp_array C n)) \<le> container_size n) \<and>
     (\<forall>n. length (concat (cmp_map C n)) \<le> container_size n)"

primrec mp_size :: "mp \<Rightarrow> nat" where
  "mp_size (MStr s) = str_size (length s)"
| "mp_size (MBool b) = 1"
| "mp_size (MInt i) = int_size i"
| "mp_size (MArr xs) = container_size (length xs) + sum_list (map mp_size xs)"
| "mp_size (MMap kvs) = container_size (length kvs) +
     sum_list (map (\<lambda>kn. str_size (length (fst kn)) + snd kn) (map (map_prod id mp_size) kvs))"

text \<open>Integers as the code has them: of 32 bits, of 64 bits, or signed of 64 bits.\<close>

primrec mp_ints :: "mp \<Rightarrow> bool" where
  "mp_ints (MStr s) = True"
| "mp_ints (MBool b) = True"
| "mp_ints (MInt i) = (- (2 ^ 63) \<le> i \<and> i < 2 ^ 64)"
| "mp_ints (MArr xs) = list_all (\<lambda>b. b) (map mp_ints xs)"
| "mp_ints (MMap kvs) = list_all snd (map (map_prod id mp_ints) kvs)"

lemma sum_list_bound: "(\<And>x. x \<in> set xs \<Longrightarrow> f x \<le> b) \<Longrightarrow> length xs \<le> n \<Longrightarrow> sum_list (map f xs) \<le> n * b"
proof -
  assume le: "\<And>x. x \<in> set xs \<Longrightarrow> f x \<le> b" and n: "length xs \<le> n"
  have "sum_list (map f xs) \<le> sum_list (map (\<lambda>_. b) xs)" using le by (rule sum_list_mono)
  also have "\<dots> \<le> n * b" using n by (simp add: sum_list_triv)
  finally show ?thesis .
qed

lemma mp_bytes_size: "cmp_sizes C \<Longrightarrow> mp_ints v \<Longrightarrow> length (mp_bytes C v) \<le> mp_size v"
proof (induction v)
  case (MInt i)
  then have bounds: "- (2 ^ 63) \<le> i" "i < 2 ^ 64" by simp_all
  show ?case
  proof (cases "0 \<le> i")
    case True
    then have "uint (word_of_int i :: u64) = i" using bounds by (simp add: uint_word_of_int)
    with True MInt(1) show ?thesis by (simp add: cmp_sizes_def) metis
  qed (use MInt in \<open>auto simp: cmp_sizes_def int_size_def\<close>)
next
  case (MArr xs)
  have "length (concat (map (mp_bytes C) xs)) = sum_list (map (length \<circ> mp_bytes C) xs)"
    by (simp add: length_concat comp_def)
  also have "\<dots> \<le> sum_list (map mp_size xs)"
    using MArr by (intro sum_list_mono) (auto simp: list_all_iff)
  finally show ?case using MArr(2) by (simp add: cmp_sizes_def add_mono)
next
  case (MMap kvs)
  have "length (concat (map (kv_bytes C) kvs)) = sum_list (map (length \<circ> kv_bytes C) kvs)"
    by (simp add: length_concat comp_def)
  also have "\<dots> \<le> sum_list (map (\<lambda>kv. str_size (length (fst kv)) + mp_size (snd kv)) kvs)"
  proof (rule sum_list_mono)
    fix kv assume kv: "kv \<in> set kvs"
    have "snd kv \<in> Basic_BNFs.snds kv" by (cases kv) (simp add: prod_set_simps)
    with MMap(1) [OF kv, of "snd kv"] MMap(2,3) kv
    have "length (mp_bytes C (snd kv)) \<le> mp_size (snd kv)" by (simp add: list_all_iff)
    moreover have "length (tok_bytes C (TStr (fst kv))) \<le> str_size (length (fst kv))"
      using MMap(2) by (auto simp: cmp_sizes_def dest: spec [of _ "bytes_of (fst kv)"])
    ultimately show "(length \<circ> kv_bytes C) kv \<le> str_size (length (fst kv)) + mp_size (snd kv)"
      by (simp add: kv_bytes_def)
  qed
  finally show ?case
    using MMap(2) by (simp add: mp_bytes_MMap cmp_sizes_def add_mono comp_def)
qed (auto simp: cmp_sizes_def dest: spec [of _ "bytes_of _"])

section \<open>Sizes of actions\<close>

lemma uint_bounds:
  "- (2 ^ 63) \<le> uint (a :: u32)" "uint (a :: u32) < 2 ^ 64" "int_size (uint (a :: u32)) = 5"
  "- (2 ^ 63) \<le> uint (b :: u64)" "uint (b :: u64) < 2 ^ 64" "int_size (uint (b :: u64)) \<le> 9"
  "- (2 ^ 63) \<le> sint (b :: u64)" "sint (b :: u64) < 2 ^ 64" "int_size (sint (b :: u64)) \<le> 9"
proof -
  have a: "0 \<le> uint a" "uint a < 2 ^ 32" using unsigned_less [of a] by simp_all
  have b: "0 \<le> uint b" "uint b < 2 ^ 64" using unsigned_less [of b] by simp_all
  have s: "- (2 ^ 63) \<le> sint b" "sint b < 2 ^ 63" using sint_greater_eq [of b] sint_less [of b] by simp_all
  show "- (2 ^ 63) \<le> uint a" by (rule order_trans [OF _ a(1)]) simp
  show "- (2 ^ 63) \<le> uint b" by (rule order_trans [OF _ b(1)]) simp
  show "uint a < 2 ^ 64" "uint b < 2 ^ 64" "- (2 ^ 63) \<le> sint b" "sint b < 2 ^ 64"
    using a(2) b(2) s by simp_all
  show "int_size (uint a) = 5" "int_size (uint b) \<le> 9" "int_size (sint b) \<le> 9"
    using a by (simp_all add: int_size_def)
qed

lemmas int_bounds = uint_bounds(1-5,7,8) [simplified]

lemmas size_simps = str_size_def container_size_def int_bounds

lemma str_size_1: "str_size (Suc 0) = 2"
  by (simp add: str_size_def)

lemma str_size_lits: "n < 32 \<Longrightarrow> str_size n = Suc n"
  by (simp add: str_size_def)

lemma order_size:
  assumes "order_wf asset r"
  shows "mp_ints (order_request_mp r)" "mp_size (order_request_mp r) \<le> 167"
proof -
  have len: "length (or_limit_px r) \<le> 21" "length (or_sz r) \<le> 21"
    "or_order_type r = ORDER_TYPE_TRIGGER \<Longrightarrow> length (trigger_px (or_trigger r)) \<le> 21"
    "or_has_cloid r \<Longrightarrow> length (or_cloid r) = 34"
    using assms num_str_length by (auto simp: order_wf_def cloid_ok_def)
  show "mp_ints (order_request_mp r)"
    by (simp add: order_request_mp_def order_body_entry_def limit_entry_def trigger_entry_def int_bounds
        split: e_order_type.split)
  have body: "mp_size (MMap [order_body_entry r]) \<le> 65"
  proof (cases "or_order_type r")
    case ORDER_TYPE_LIMIT
    then show ?thesis
      by (cases "tif (or_limit r)") (simp_all add: order_body_entry_def limit_entry_def size_simps)
  next
    case ORDER_TYPE_TRIGGER
    with len(3) show ?thesis
      by (cases "tpsl (or_trigger r)") (simp_all add: order_body_entry_def trigger_entry_def size_simps)
  qed
  have px: "str_size (length (or_limit_px r)) \<le> 22" "str_size (length (or_sz r)) \<le> 22"
    "or_has_cloid r \<Longrightarrow> str_size (length (or_cloid r)) = 36"
    using len by (simp_all add: str_size_def)
  show "mp_size (order_request_mp r) \<le> 167"
    using px body by (simp add: order_request_mp_def container_size_def int_bounds str_size_1)
qed

lemma modify_size:
  "order_wf asset (mr_order m) \<Longrightarrow> mp_ints (modify_request_mp m) \<and> mp_size (modify_request_mp m) \<le> 187"
  using order_size [of asset "mr_order m"] uint_bounds(6) [of "mr_oid m"]
  by (simp add: modify_request_mp_def size_simps)

lemma cancel_size: "mp_ints (cancel_request_mp c) \<and> mp_size (cancel_request_mp c) \<le> 19"
  using uint_bounds(6) [of "cr_oid c"] by (simp add: cancel_request_mp_def size_simps)

lemma array_size:
  assumes "length xs \<le> 5" "\<And>x. x \<in> set xs \<Longrightarrow> mp_ints (f x) \<and> mp_size (f x) \<le> b"
  shows "mp_ints (MArr (map f xs))" "mp_size (MArr (map f xs)) \<le> 1 + 5 * b"
  using assms sum_list_bound [of xs "mp_size \<circ> f" b 5]
  by (auto simp: list_all_iff container_size_def comp_def)

lemma builder_addr_length: "length a = 20 \<Longrightarrow> length (builder_addr_str a) = 42"
  by (simp add: builder_addr_str_def bytes_to_lowercase_hex_def)

lemma bulk_order_size:
  assumes "bulk_order_wf (Some md) b"
  shows "mp_ints (bulk_order_mp b)" "mp_size (bulk_order_mp b) \<le> 1024"
proof -
  let ?os = "take (bo_order_count b) (bo_orders b)"
  have len: "length ?os \<le> 5" and os: "\<And>r. r \<in> set ?os \<Longrightarrow> order_wf (md_asset_id md) r"
    using assms by (auto simp: bulk_order_wf_def list_all_iff order_wf_md_def)
  have arr: "mp_ints (MArr (map order_request_mp ?os))" "mp_size (MArr (map order_request_mp ?os)) \<le> 836"
    using array_size [of ?os order_request_mp 167, OF len] order_size [OF os] by auto
  have addr: "str_size (length (builder_addr_str (bi_builder (bo_builder b)))) = 44"
    using assms by (simp add: bulk_order_wf_def builder_addr_length str_size_def)
  note key = arr addr uint_bounds(6) [of "bi_fee (bo_builder b)"]
  show "mp_ints (bulk_order_mp b)"
    using arr(1) by (simp add: bulk_order_mp_def builder_entry_def int_bounds del: mp_ints.simps(4))
  show "mp_size (bulk_order_mp b) \<le> 1024"
    using key by (cases "bo_grouping b")
      (simp_all add: bulk_order_mp_def builder_entry_def str_size_lits container_size_def del: mp_size.simps(4))
qed

lemma bulk_modify_size:
  assumes "bulk_modify_wf (Some md) b"
  shows "mp_ints (bulk_modify_mp b)" "mp_size (bulk_modify_mp b) \<le> 1024"
proof -
  let ?ms = "take (bm_modify_count b) (bm_modifies b)"
  have len: "length ?ms \<le> 5" and ms: "\<And>m. m \<in> set ?ms \<Longrightarrow> order_wf (md_asset_id md) (mr_order m)"
    using assms by (auto simp: bulk_modify_wf_def list_all_iff order_wf_md_def)
  have arr: "mp_ints (MArr (map modify_request_mp ?ms))" "mp_size (MArr (map modify_request_mp ?ms)) \<le> 936"
    using array_size [of ?ms modify_request_mp 187, OF len] modify_size [OF ms] by auto
  show "mp_ints (bulk_modify_mp b)"
    using arr(1) by (simp add: bulk_modify_mp_def del: mp_ints.simps(4))
  show "mp_size (bulk_modify_mp b) \<le> 1024"
    using arr(2) by (simp add: bulk_modify_mp_def str_size_lits container_size_def del: mp_size.simps(4))
qed

lemma bulk_cancel_size:
  assumes "bulk_cancel_wf (Some md) b"
  shows "mp_ints (bulk_cancel_mp b)" "mp_size (bulk_cancel_mp b) \<le> 1024"
proof -
  let ?cs = "take (bc_cancel_count b) (bc_cancels b)"
  have len: "length ?cs \<le> 5" using assms by (simp add: bulk_cancel_wf_def)
  have arr: "mp_ints (MArr (map cancel_request_mp ?cs))" "mp_size (MArr (map cancel_request_mp ?cs)) \<le> 96"
    using array_size [of ?cs cancel_request_mp 19, OF len] cancel_size by auto
  show "mp_ints (bulk_cancel_mp b)"
    using arr(1) by (simp add: bulk_cancel_mp_def del: mp_ints.simps(4))
  show "mp_size (bulk_cancel_mp b) \<le> 1024"
    using arr(2) by (simp add: bulk_cancel_mp_def str_size_lits container_size_def del: mp_size.simps(4))
qed

lemma update_size:
  "mp_ints (update_leverage_mp u)" "mp_size (update_leverage_mp u) \<le> 1024"
  "mp_ints (update_isolated_margin_mp v)" "mp_size (update_isolated_margin_mp v) \<le> 1024"
  using uint_bounds(9) [of "um_ntli v"]
  by (simp_all add: update_leverage_mp_def update_isolated_margin_mp_def size_simps)

lemma action_fits:
  assumes "cmp_sizes C" "action_wf (Some md) a" "l1_action a"
  shows "length (mp_bytes C (action_mp a)) \<le> MAX_SERIALIZED_ACTION_SIZE"
proof -
  have "mp_ints (action_mp a) \<and> mp_size (action_mp a) \<le> 1024"
    using assms(2,3) bulk_order_size bulk_modify_size bulk_cancel_size update_size
    by (cases "act_type a") (auto simp: action_wf_def action_mp_def l1_action_def)
  with mp_bytes_size [OF assms(1), of "action_mp a"] show ?thesis
    by (simp add: MAX_SERIALIZED_ACTION_SIZE_def)
qed

section \<open>The hash is always produced\<close>

text \<open>Cryptographic services that deliver: no call returns an error.\<close>

definition cx_delivers :: "'h cx_lib \<Rightarrow> bool" where
  "cx_delivers X \<longleftrightarrow> cx_keccak_init X \<noteq> None \<and> cx_sha256_init X \<noteq> None \<and>
     (\<forall>h d. cx_hash_update X h d \<noteq> None) \<and> (\<forall>h. cx_hash_final X h \<noteq> None) \<and>
     (\<forall>d. cx_keccak_256_hash X d \<noteq> None) \<and> (\<forall>p. bip32_derive_pubkey X p \<noteq> None) \<and>
     (\<forall>p d. bip32_ecdsa_sign X p d \<noteq> None)"

lemma accepted_rbind: "accepted m \<Longrightarrow> (\<And>a. m = Inr a \<Longrightarrow> accepted (f a)) \<Longrightarrow> accepted (rbind m f)"
  by (cases m) auto

lemma accepted_of_opt [simp]: "accepted (of_opt m) \<longleftrightarrow> m \<noteq> None"
  by (cases m) auto

lemma feeds_accepted:
  assumes "cx_delivers X"
  shows "accepted (cx_update X d h)" "accepted (eip712_encode_dyn_val X d h)"
    "length d \<le> 32 \<Longrightarrow> accepted (eip712_encode_val X d h)"
  using assms
  by (auto simp: cx_update_def eip712_encode_dyn_val_def eip712_hash_then_feed_def eip712_encode_val_def
      cx_delivers_def intro!: accepted_rbind)

lemma feed_all_accepted: "(\<And>f h. f \<in> set fs \<Longrightarrow> accepted (f h)) \<Longrightarrow> accepted (feed_all fs h)"
  by (induction fs arbitrary: h) (auto intro!: accepted_rbind)

lemma keccak_of_accepted:
  "cx_delivers X \<Longrightarrow> (\<And>f h. f \<in> set fs \<Longrightarrow> accepted (f h)) \<Longrightarrow> accepted (keccak_of X fs)"
  unfolding keccak_of_def by (intro accepted_rbind feed_all_accepted) (auto simp: cx_delivers_def)

lemma eip712_hashes_accepted:
  assumes "cx_delivers X" "bytes_ok B"
  shows "length cid \<le> 32 \<Longrightarrow> accepted (eip712_cid_hash B X source cid)"
    "length builder = 20 \<Longrightarrow> accepted (eip712_builder_fee_hash B X chain_id chain rate builder nonce)"
    "length user = 20 \<Longrightarrow> accepted (eip712_abstraction_hash B X chain_id chain user (Some mode) nonce)"
  using assms bytes_okD(2) [OF assms(2)]
  by (auto simp: eip712_cid_hash_def eip712_builder_fee_hash_def eip712_abstraction_hash_def
      eip712_compute_domain_hash_def cid_message_hash_def builder_fee_message_hash_def
      abstraction_message_hash_def zero_contract_def
      intro!: accepted_rbind keccak_of_accepted feeds_accepted)

lemma eip712_sign_accepted: "cx_delivers X \<Longrightarrow> accepted (eip712_sign X path domh msg)"
  by (auto simp: eip712_sign_def Let_def cx_delivers_def split: prod.splits
      intro!: accepted_rbind keccak_of_accepted feeds_accepted)

lemma derive_addr_accepted: "cx_delivers X \<Longrightarrow> accepted (derive_addr_from_path X path)"
  by (auto simp: derive_addr_from_path_def cx_delivers_def intro!: accepted_rbind)

lemma action_hash_accepted:
  assumes X: "cx_delivers X" "cx_sizes X" and B: "bytes_ok B" and C: "cmp_int_agrees C" "cmp_sizes C"
    and wf: "action_wf (Some md) a" "payload_only a = a" and wallet: "length wallet = 20"
  shows "accepted (action_hash C B X (Some a) (Some md) wallet)"
proof (cases "l1_action a")
  case True
  note run = connection_id_run [of "replicate MAX_SERIALIZED_ACTION_SIZE 0" a C B X 0,
      OF length_replicate True action_wf_counts [OF wf] C(1)]
  have "accepted (compute_connection_id C B X a 0)"
    using action_fits [OF C(2) wf(1) True] X(1)
    by (auto simp: compute_connection_id_def run intro!: keccak_of_accepted feeds_accepted)
  then obtain cid where cid: "compute_connection_id C B X a 0 = Inr cid" by (auto simp: accepted_conv)
  then have "length cid = 32"
    by (auto simp: compute_connection_id_def run split: if_splits dest: keccak_of_length [OF X(2)])
  then show ?thesis
    using cid True eip712_hashes_accepted(1) [OF X(1) B, of cid]
    by (auto simp: action_hash_def l1_action_def split: e_action_type.splits)
next
  case False
  then consider (fee) "act_type a = ACTION_TYPE_APPROVE_BUILDER_FEE"
    | (mode) "act_type a = ACTION_TYPE_USER_SET_ABSTRACTION" by (auto simp: l1_action_def)
  then show ?thesis
  proof cases
    case fee
    with wf eip712_hashes_accepted(2) [OF X(1) B] show ?thesis
      by (simp add: action_hash_def Let_def action_wf_def fee_wf_def)
  next
    case mode
    with wf abstraction_wf_string [of "act_user_set_abstraction a"] obtain s
      where "get_abstraction_string (act_user_set_abstraction a) = Some s" by (auto simp: action_wf_def)
    with mode eip712_hashes_accepted(3) [OF X(1) B wallet] show ?thesis
      by (simp add: action_hash_def Let_def)
  qed
qed

text \<open>The connection id does not depend on what the scratch buffer held before.\<close>

lemma connection_id_ignores_scratch:
  assumes "length raw = 1024" "length raw' = 1024" "l1_action a" "action_counts a" "cmp_int_agrees C"
  shows "compute_connection_id_in C B X raw a e = compute_connection_id_in C B X raw' a e"
  using connection_id_run [of raw a C B X e] connection_id_run [of raw' a C B X e] assms
  by (simp add: MAX_SERIALIZED_ACTION_SIZE_def)

end
