(* ===== verification/Client_Session.thy ===== *)
theory Client_Session
  imports Client_Encoding Action_Metadata Action_Size
begin

text \<open>
  The metadata a backend signs, in the layout of \<open>METADATA_TAGS\<close>, and the proof that
  \<open>parse_action_metadata\<close> reads it back and starts a session with it, whenever the certificate
  accepts the signature of the hash of all the items before it.
\<close>

definition metadata_fields :: "s_action_metadata \<Rightarrow> (u32 \<times> byte list) list" where
  "metadata_fields m =
     [(0x01, encode_int_be (ucast METADATA_STRUCT_TYPE)),
      (0x02, encode_int_be 1),
      (0xd0, encode_int_be (ucast (op_type_code (md_op_type m)))),
      (0xd1, encode_int_be (ucast (md_asset_id m))),
      (0x24, bytes_of (md_asset_ticker m)),
      (0xd2, encode_int_be (ucast (network_code (md_network m))))] @
     (if md_has_builder_addr m then [(0xd3, md_builder_addr m)] else []) @
     (if md_has_margin m then [(0xd4, encode_int_be (md_margin m))] else []) @
     (if md_has_leverage m then [(0xd5, encode_int_be (ucast (md_leverage m)))] else [])"

definition metadata_payload :: "s_action_metadata \<Rightarrow> byte list \<Rightarrow> byte list" where
  "metadata_payload m s = tlv_fields (metadata_fields m @ [(0x15, s)])"

definition metadata_canonical :: "s_action_metadata \<Rightarrow> bool" where
  "metadata_canonical m \<longleftrightarrow> (\<not> md_has_builder_addr m \<longrightarrow> md_builder_addr m = replicate ADDRESS_LENGTH 0) \<and>
     (\<not> md_has_margin m \<longrightarrow> md_margin m = 0) \<and> (\<not> md_has_leverage m \<longrightarrow> md_leverage m = 0)"

text \<open>The hash context after some items, when the hash functions deliver.\<close>

definition hash_after :: "'h cx_lib \<Rightarrow> 'h \<Rightarrow> byte list \<Rightarrow> 'h" where
  "hash_after X h d = the (cx_hash_update X h d)"

lemma hash_after_update: "cx_delivers X \<Longrightarrow> cx_hash_update X h d = Some (hash_after X h d)"
  by (simp add: cx_delivers_def hash_after_def)

lemma absorbed_hash_after:
  assumes X: "cx_delivers X" and ab: "absorbs X K S ab"
  shows "ab (foldl (hash_after X) h ds) = (fst (ab h), snd (ab h) @ concat ds)"
proof (induction ds arbitrary: h)
  case (Cons d ds)
  have "ab (hash_after X h d) = (fst (ab h), snd (ab h) @ d)"
    using ab hash_after_update [OF X, of h d] by (simp add: absorbs_def)
  with Cons show ?case by simp
qed simp

lemma enum_reads_metadata [item_reads]:
  "t \<noteq> OP_TYPE_UPDATE_LEVERAGE \<Longrightarrow> enum_of op_type_code
     [OP_TYPE_ORDER, OP_TYPE_MODIFY, OP_TYPE_CANCEL, OP_TYPE_CLOSE, OP_TYPE_UPDATE_MARGIN,
      OP_TYPE_CANCEL_SL, OP_TYPE_CANCEL_TP, OP_TYPE_CANCEL_TP_SL] (op_type_code t) = Some t"
  "enum_of network_code [NETWORK_MAINNET, NETWORK_TESTNET] (network_code n) = Some n"
  subgoal by (cases t) (simp_all add: enum_of_def)
  subgoal by (cases n) (simp_all add: enum_of_def)
  done

lemma metadata_fields_ok:
  assumes "metadata_wf m" "length s \<le> 72"
  shows "fields_ok (tag_names (METADATA_TAGS der_tlv :: 'h s_action_metadata_ctx tag_table)) (metadata_fields m @ [(0x15, s)])"
  using assms
  by (cases "md_has_builder_addr m"; cases "md_has_margin m"; cases "md_has_leverage m")
     (simp_all add: fields_ok_def field_ok_def METADATA_TAGS_def metadata_fields_def metadata_wf_def cstr_fits_def)

lemma metadata_eq:
  "md_op_type m' = md_op_type m \<Longrightarrow> md_asset_id m' = md_asset_id m \<Longrightarrow> md_asset_ticker m' = md_asset_ticker m \<Longrightarrow>
   md_network m' = md_network m \<Longrightarrow> md_has_builder_addr m' = md_has_builder_addr m \<Longrightarrow> md_builder_addr m' = md_builder_addr m \<Longrightarrow>
   md_has_margin m' = md_has_margin m \<Longrightarrow> md_margin m' = md_margin m \<Longrightarrow> md_has_leverage m' = md_has_leverage m \<Longrightarrow>
   md_leverage m' = md_leverage m \<Longrightarrow> m' = (m :: s_action_metadata)"
  by (cases m; cases m') simp

lemma td_raw_field [simp]: "td_raw (field_item f) = field_bytes f"
  by (simp add: field_item_def)

text \<open>The items one by one: the metadata as far as it has been read, and the hash so far.\<close>

lemma metadata_dispatch:
  fixes c :: "'h s_action_metadata_ctx"
  assumes X: "cx_delivers X" and wf: "metadata_wf m" and canon: "metadata_canonical m"
    and c: "c = \<lparr>received_tags = [], am_hash_ctx = h, am_signature = [], am_metadata = s_action_metadata_0\<rparr>"
  shows "\<exists>c'. tlv_dispatch (METADATA_TAGS der_tlv) (handle_common X) (map field_item (metadata_fields m)) c = Inr c' \<and>
    am_metadata c' = m \<and> am_hash_ctx c' = foldl (hash_after X) h (map field_bytes (metadata_fields m)) \<and>
    {0x01, 0x02, 0xd0, 0xd1, 0x24, 0xd2} \<subseteq> set (received_tags c')"
proof -
  have s: "get_string der_tlv (field_item (t, bytes_of (md_asset_ticker m))) 1 (ASSET_TICKER_LENGTH + 1) = Some (md_asset_ticker m)" for t
    using wf by (intro get_string_append) (simp_all add: metadata_wf_def)
  have op: "md_op_type m \<noteq> OP_TYPE_UPDATE_LEVERAGE" and bl: "length (md_builder_addr m) = 20"
    using wf by (simp_all add: metadata_wf_def)
  let ?T = "METADATA_TAGS der_tlv :: 'h s_action_metadata_ctx tag_table"
  let ?base = "take 6 (metadata_fields m)"
  let ?c = "\<lparr>received_tags = [0xd2, 0x24, 0xd1, 0xd0, 0x02, 0x01],
      am_hash_ctx = foldl (hash_after X) h (map field_bytes ?base), am_signature = [],
      am_metadata = s_action_metadata_0\<lparr>md_op_type := md_op_type m, md_asset_id := md_asset_id m,
        md_asset_ticker := md_asset_ticker m, md_network := md_network m\<rparr>\<rparr>"
  have base: "tlv_dispatch ?T (handle_common X) (map field_item ?base) c = Inr ?c"
    using s op
    by (simp add: c metadata_fields_def METADATA_TAGS_def metadata_handler_defs handle_common_def
        hash_after_update [OF X] item_reads mark_received_def)
  let ?opts = "drop 6 (metadata_fields m)"
  have opts: "\<exists>c'. tlv_dispatch ?T (handle_common X) (map field_item ?opts) ?c = Inr c' \<and>
    am_metadata c' = m \<and> am_hash_ctx c' = foldl (hash_after X) (am_hash_ctx ?c) (map field_bytes ?opts) \<and>
    set (received_tags ?c) \<subseteq> set (received_tags c')"
    using bl canon
    by (cases "md_has_builder_addr m"; cases "md_has_margin m"; cases "md_has_leverage m"; cases m)
       (simp_all add: metadata_fields_def METADATA_TAGS_def metadata_handler_defs handle_common_def metadata_canonical_def
        hash_after_update [OF X] item_reads mark_received_def s_action_metadata_0_def)
  have split: "metadata_fields m = ?base @ ?opts" by simp
  have "tlv_dispatch ?T (handle_common X) (map field_item (metadata_fields m)) c =
      tlv_dispatch ?T (handle_common X) (map field_item ?opts) ?c"
    by (subst split) (simp only: map_append tlv_dispatch_append base rbind_simps)
  moreover have "foldl (hash_after X) h (map field_bytes (metadata_fields m)) =
      foldl (hash_after X) (am_hash_ctx ?c) (map field_bytes ?opts)"
    by (subst split) (simp only: map_append foldl_append s_action_metadata_ctx.simps)
  ultimately show ?thesis using opts by auto
qed

text \<open>A signature the certificate accepts for this metadata.\<close>

definition metadata_signature :: "'h cx_lib \<Rightarrow> (byte list \<Rightarrow> byte list) \<Rightarrow> s_action_metadata \<Rightarrow> byte list \<Rightarrow> bool" where
  "metadata_signature X S m s \<longleftrightarrow> 70 \<le> length s \<and> length s \<le> 72 \<and>
     check_signature_with_pki X (S (tlv_fields (metadata_fields m))) CERTIFICATE_PUBLIC_KEY_USAGE_PERPS_DATA s"

lemma parse_metadata_payload:
  assumes X: "cx_delivers X" "cx_hashes X K S" and wf: "metadata_wf m" and canon: "metadata_canonical m"
    and sig: "metadata_signature X S m s"
  shows "parse_action_metadata der_tlv X (Some (metadata_payload m s)) g =
    (if ctx_current_action_is_first g then (Inr (), ctx_save_action_metadata (Some m) (ctx_reset g))
     else (Inl Reject, ctx_reset g))"
proof -
  let ?T = "METADATA_TAGS der_tlv"
  from X(1) obtain h where h: "cx_sha256_init X = Some h" by (auto simp: cx_delivers_def)
  from X(2) obtain ab where ab: "absorbs X K S ab" by (auto simp: cx_hashes_def)
  let ?c = "\<lparr>received_tags = [], am_hash_ctx = h, am_signature = [], am_metadata = s_action_metadata_0\<rparr>"
  from metadata_dispatch [OF X(1) wf canon refl, of h] obtain c where
    c: "tlv_dispatch ?T (handle_common X) (map field_item (metadata_fields m)) ?c = Inr c" "am_metadata c = m"
    "am_hash_ctx c = foldl (hash_after X) h (map field_bytes (metadata_fields m))"
    "{0x01, 0x02, 0xd0, 0xd1, 0x24, 0xd2} \<subseteq> set (received_tags c)" by (elim exE conjE)
  let ?c' = "mark_received 0x15 (c\<lparr>am_signature := s\<rparr>)"
  have get: "get_buffer der_tlv (field_item (0x15, s)) 70 72 = Some s"
    using sig by (intro get_buffer_append) (simp_all add: metadata_signature_def)
  have "tlv_dispatch ?T (handle_common X) [field_item (0x15, s)] c = Inr ?c'"
    by (simp add: METADATA_TAGS_def handle_common_def handle_signature_def get)
  then have "tlv_dispatch ?T (handle_common X) (map field_item (metadata_fields m @ [(0x15, s)])) ?c = Inr ?c'"
    by (simp only: map_append list.map tlv_dispatch_append c(1) rbind_simps)
  moreover have "fields_ok (tag_names ?T) (metadata_fields m @ [(0x15, s)])"
    using sig by (intro metadata_fields_ok [OF wf]) (simp add: metadata_signature_def)
  ultimately have parse: "tlv_parser der_tlv ?T (handle_common X) (metadata_payload m s) ?c = Inr ?c'"
    using tlv_parser_fields by (metis metadata_payload_def)
  obtain out where out: "cx_hash_final X (am_hash_ctx c) = Some out" using X(1) unfolding cx_delivers_def by blast
  have "ab (am_hash_ctx c) = (Sha256, tlv_fields (metadata_fields m))"
    using absorbed_hash_after [OF X(1) ab, of h "map field_bytes (metadata_fields m)"] ab h
    by (simp add: c(3) tlv_fields_concat absorbs_def)
  then have "out = S (tlv_fields (metadata_fields m))" using out ab unfolding absorbs_def by fastforce
  then have "verify_action_metadata X ?c'"
    using c(4) sig out by (simp add: verify_action_metadata_def metadata_signature_def)
  then show ?thesis using parse h c(2) by (simp add: parse_action_metadata_def)
qed

end
