(* ===== verification/Chunked_Payload.thy ===== *)
theory Chunked_Payload
  imports Sdk
begin

text \<open>
  Reassembly of payloads sent in several commands (\<open>chunked_payload.c\<close>). The static buffer
  \<open>g_payload\<close> is threaded as a record; \<open>size\<close> and \<open>received\<close> are 16 bits wide. The payload handlers
  are function pointers that the code stores and compares: the two that exist are named by a
  datatype, and calling one is the parameter \<open>call\<close>, with the rest of the application's state \<open>'g\<close>.

  The abstract view is the list of bytes received so far with the announced length;
  \<open>chunk_step\<close> specifies a step on it.
\<close>

definition PAYLOAD_BUFFER_SIZE :: nat where "PAYLOAD_BUFFER_SIZE = 0xff * 4"

datatype f_payload_handler = PARSE_ACTION_METADATA | PARSE_ACTION

record s_chunked_payload =
  cp_buffer :: "byte list"
  cp_size :: u16
  cp_received :: u16
  cp_handler :: "f_payload_handler option"

definition s_chunked_payload_0 :: s_chunked_payload where [zero_defs]:
  "s_chunked_payload_0 = \<lparr>cp_buffer = replicate PAYLOAD_BUFFER_SIZE 0, cp_size = 0, cp_received = 0,
     cp_handler = None\<rparr>"

type_synonym 'g handler_call = "f_payload_handler \<Rightarrow> byte list option \<Rightarrow> 'g \<Rightarrow> unit result \<times> 'g"

section \<open>The code\<close>

text \<open>The part up to the copy: the offset of the payload bytes in the chunk and the new header.\<close>

definition chunk_header ::
  "byte_lib \<Rightarrow> bool \<Rightarrow> byte list \<Rightarrow> f_payload_handler \<Rightarrow> s_chunked_payload \<Rightarrow>
   (nat \<times> s_chunked_payload) result" where
  "chunk_header B first data handler payload =
     (if first then
        if cp_handler payload \<noteq> None then Inl Reject
        else if length data < 2 then Inl Reject
        else
          let payload = payload\<lparr>cp_size := read_u16_be B data\<rparr> in
          if cp_size payload = 0 \<or> unat (cp_size payload) > PAYLOAD_BUFFER_SIZE then Inl Reject
          else Inr (2, payload\<lparr>cp_received := 0, cp_handler := Some handler\<rparr>)
      else
        if length data = 0 then Inl Reject
        else if Some handler \<noteq> cp_handler payload then Inl Reject
        else Inr (0, payload))"

definition process_chunked_payload_internal ::
  "byte_lib \<Rightarrow> 'g handler_call \<Rightarrow> bool \<Rightarrow> byte list option \<Rightarrow> f_payload_handler \<Rightarrow> s_chunked_payload \<Rightarrow> 'g \<Rightarrow>
   unit result \<times> s_chunked_payload \<times> 'g" where
  "process_chunked_payload_internal B call first data_p handler payload g =
     (case rbind (of_opt data_p) (\<lambda>data.
           rbind (chunk_header B first data handler payload) (\<lambda>(offset, payload).
           let count = length data - offset in
           if unat (cp_received payload) + count > unat (cp_size payload) then Inl Reject
           else if unat (cp_received payload) + count > length (cp_buffer payload) then Inl Out_of_bounds
           else Inr (payload
             \<lparr>cp_buffer := memcpy_at (cp_buffer payload) (unat (cp_received payload)) (drop offset data),
              cp_received := cp_received payload + word_of_nat count\<rparr>))) of
        Inl e \<Rightarrow> (Inl e, payload, g)
      | Inr payload \<Rightarrow>
          if cp_received payload = cp_size payload then
            (case call handler (Some (take (unat (cp_size payload)) (cp_buffer payload))) g of
               (Inl e, g') \<Rightarrow> (Inl e, payload, g')
             | (Inr _, g') \<Rightarrow> (Inr (), s_chunked_payload_0, g'))
          else (Inr (), payload, g))"

definition process_chunked_payload ::
  "byte_lib \<Rightarrow> 'g handler_call \<Rightarrow> bool \<Rightarrow> byte list option \<Rightarrow> f_payload_handler \<Rightarrow> s_chunked_payload \<Rightarrow> 'g \<Rightarrow>
   unit result \<times> s_chunked_payload \<times> 'g" where
  "process_chunked_payload B call first data handler payload g =
     (case process_chunked_payload_internal B call first data handler payload g of
        (Inl e, payload, g') \<Rightarrow> (Inl e, s_chunked_payload_0, g')
      | (Inr u, payload, g') \<Rightarrow> (Inr u, payload, g'))"

section \<open>The specification\<close>

record transfer =
  tr_handler :: f_payload_handler
  tr_total :: nat
  tr_bytes :: "byte list"

datatype chunk_outcome = Refused | Stored transfer | Complete f_payload_handler "byte list"

definition transfer_add :: "transfer \<Rightarrow> byte list \<Rightarrow> chunk_outcome" where
  "transfer_add t bs =
     (if length (tr_bytes t @ bs) > tr_total t then Refused
      else if length (tr_bytes t @ bs) = tr_total t then Complete (tr_handler t) (tr_bytes t @ bs)
      else Stored (t\<lparr>tr_bytes := tr_bytes t @ bs\<rparr>))"

definition chunk_step ::
  "bool \<Rightarrow> byte list \<Rightarrow> f_payload_handler \<Rightarrow> transfer option \<Rightarrow> chunk_outcome" where
  "chunk_step first data h st =
     (if first then
        case data of
          b1 # b0 # bs \<Rightarrow>
            let n = unat b1 * 256 + unat b0 in
            if st \<noteq> None \<or> n = 0 \<or> n > PAYLOAD_BUFFER_SIZE then Refused
            else transfer_add \<lparr>tr_handler = h, tr_total = n, tr_bytes = []\<rparr> bs
        | _ \<Rightarrow> Refused
      else
        case st of
          None \<Rightarrow> Refused
        | Some t \<Rightarrow> if data = [] \<or> tr_handler t \<noteq> h then Refused else transfer_add t data)"

definition payload_transfer :: "s_chunked_payload \<Rightarrow> transfer option" where
  "payload_transfer p = (case cp_handler p of
       None \<Rightarrow> None
     | Some h \<Rightarrow> Some \<lparr>tr_handler = h, tr_total = unat (cp_size p),
         tr_bytes = take (unat (cp_received p)) (cp_buffer p)\<rparr>)"

definition chunk_inv :: "s_chunked_payload \<Rightarrow> bool" where
  "chunk_inv p \<longleftrightarrow> length (cp_buffer p) = PAYLOAD_BUFFER_SIZE \<and>
     (cp_handler p \<noteq> None \<longrightarrow> unat (cp_size p) \<le> PAYLOAD_BUFFER_SIZE \<and> unat (cp_received p) < unat (cp_size p))"

lemma chunk_inv_0: "chunk_inv s_chunked_payload_0" "payload_transfer s_chunked_payload_0 = None"
  by (simp_all add: chunk_inv_def zero_defs payload_transfer_def)

lemma u16_be_value:
  assumes "bytes_ok B"
  shows "unat (read_u16_be B (b1 # b0 # bs)) = unat b1 * 256 + unat b0"
proof -
  let ?n = "unat (read_u16_be B (b1 # b0 # bs))"
  have n: "?n < 65536" using unsigned_less [of "read_u16_be B (b1 # b0 # bs)"] by simp
  have "be_bytes 2 ?n = [b1, b0]" using bytes_okD(1) [OF assms, of "b1 # b0 # bs"] by simp
  then have "word_of_nat (?n div 256) = b1" "word_of_nat (?n mod 256) = b0"
    using n by (simp_all add: numeral_2_eq_2)
  moreover have "unat (word_of_nat (?n div 256) :: byte) = ?n div 256"
    using n by (simp add: unat_of_nat take_bit_eq_mod)
  moreover have "unat (word_of_nat (?n mod 256) :: byte) = ?n mod 256"
    by (simp add: unat_of_nat take_bit_eq_mod)
  ultimately show ?thesis by (metis div_mult_mod_eq)
qed

text \<open>The copy appends to the received bytes, and the 16-bit counter does not wrap.\<close>

lemma chunk_copy:
  fixes q :: s_chunked_payload and bs :: "byte list"
  assumes "length (cp_buffer q) = PAYLOAD_BUFFER_SIZE" "unat (cp_size q) \<le> PAYLOAD_BUFFER_SIZE"
    and "unat (cp_received q) + length bs \<le> unat (cp_size q)"
  defines "q' \<equiv> q\<lparr>cp_buffer := memcpy_at (cp_buffer q) (unat (cp_received q)) bs,
                  cp_received := cp_received q + word_of_nat (length bs)\<rparr>"
  shows "unat (cp_received q') = unat (cp_received q) + length bs"
    and "length (cp_buffer q') = PAYLOAD_BUFFER_SIZE"
    and "take (unat (cp_received q')) (cp_buffer q') = take (unat (cp_received q)) (cp_buffer q) @ bs"
proof -
  have "length bs < 65536" "unat (cp_received q) + length bs < 65536"
    using assms(2,3) by (simp_all add: PAYLOAD_BUFFER_SIZE_def)
  then show len: "unat (cp_received q') = unat (cp_received q) + length bs"
    by (simp add: q'_def unat_word_ariths unat_of_nat take_bit_eq_mod)
  show "length (cp_buffer q') = PAYLOAD_BUFFER_SIZE"
    "take (unat (cp_received q')) (cp_buffer q') = take (unat (cp_received q)) (cp_buffer q) @ bs"
    using assms(1-3) len by (simp_all add: q'_def)
qed

lemma chunk_header_first:
  assumes "bytes_ok B" "chunk_inv p"
  shows "chunk_header B True data h p = Inl e \<Longrightarrow> e = Reject \<and> chunk_step True data h (payload_transfer p) = Refused"
    and "chunk_header B True data h p = Inr (off, q) \<Longrightarrow>
      off = 2 \<and> off \<le> length data \<and> length (cp_buffer q) = PAYLOAD_BUFFER_SIZE \<and> cp_received q = 0 \<and>
      cp_handler q = Some h \<and> unat (cp_size q) \<le> PAYLOAD_BUFFER_SIZE \<and>
      chunk_step True data h (payload_transfer p)
        = transfer_add \<lparr>tr_handler = h, tr_total = unat (cp_size q), tr_bytes = []\<rparr> (drop 2 data)"
proof -
  have none: "payload_transfer p = None \<longleftrightarrow> cp_handler p = None"
    by (simp add: payload_transfer_def split: option.splits)
  have buf: "length (cp_buffer p) = PAYLOAD_BUFFER_SIZE" using assms(2) by (simp add: chunk_inv_def)
  have size: "unat (read_u16_be B (b1 # b0 # bs)) = unat b1 * 256 + unat b0"
    "read_u16_be B (b1 # b0 # bs) = 0 \<longleftrightarrow> unat b1 * 256 + unat b0 = 0" for b1 b0 bs
    using u16_be_value [OF assms(1), of b1 b0 bs] unat_eq_zero [of "read_u16_be B (b1 # b0 # bs)"] by simp_all
  have short: "chunk_step True data h st = Refused" if "length data < 2" for st
    using that by (auto simp: chunk_step_def split: list.splits)
  consider "length data < 2" | b1 b0 bs where "data = b1 # b0 # bs"
    by (metis (no_types, opaque_lifting) One_nat_def Suc_1 Suc_less_eq length_Cons less_Suc_eq_0_disj list.exhaust
        list.size(3) zero_less_Suc)
  then have "(\<forall>e. chunk_header B True data h p = Inl e \<longrightarrow>
      e = Reject \<and> chunk_step True data h (payload_transfer p) = Refused) \<and>
    (\<forall>off q. chunk_header B True data h p = Inr (off, q) \<longrightarrow>
      off = 2 \<and> off \<le> length data \<and> length (cp_buffer q) = PAYLOAD_BUFFER_SIZE \<and> cp_received q = 0 \<and>
      cp_handler q = Some h \<and> unat (cp_size q) \<le> PAYLOAD_BUFFER_SIZE \<and>
      chunk_step True data h (payload_transfer p)
        = transfer_add \<lparr>tr_handler = h, tr_total = unat (cp_size q), tr_bytes = []\<rparr> (drop 2 data))"
  proof cases
    case 1
    then show ?thesis by (simp add: chunk_header_def short)
  next
    case 2
    then show ?thesis
      using none buf by (auto simp: chunk_header_def chunk_step_def Let_def size simp del: add_is_0 add_eq_0_iff_both_eq_0)
  qed
  then show "chunk_header B True data h p = Inl e \<Longrightarrow> e = Reject \<and> chunk_step True data h (payload_transfer p) = Refused"
    and "chunk_header B True data h p = Inr (off, q) \<Longrightarrow>
      off = 2 \<and> off \<le> length data \<and> length (cp_buffer q) = PAYLOAD_BUFFER_SIZE \<and> cp_received q = 0 \<and>
      cp_handler q = Some h \<and> unat (cp_size q) \<le> PAYLOAD_BUFFER_SIZE \<and>
      chunk_step True data h (payload_transfer p)
        = transfer_add \<lparr>tr_handler = h, tr_total = unat (cp_size q), tr_bytes = []\<rparr> (drop 2 data)"
    by blast+
qed

lemma chunk_header_following:
  assumes "chunk_inv p"
  shows "chunk_header B False data h p = Inl e \<Longrightarrow> e = Reject \<and> chunk_step False data h (payload_transfer p) = Refused"
    and "chunk_header B False data h p = Inr (off, q) \<Longrightarrow>
      off = 0 \<and> q = p \<and> cp_handler p = Some h \<and>
      chunk_step False data h (payload_transfer p)
        = transfer_add \<lparr>tr_handler = h, tr_total = unat (cp_size p),
            tr_bytes = take (unat (cp_received p)) (cp_buffer p)\<rparr> data"
  using assms by (auto simp: chunk_header_def chunk_step_def payload_transfer_def split: if_splits option.splits)

text \<open>What the common tail of a step does once the header is settled.\<close>

definition step_result ::
  "'g handler_call \<Rightarrow> 'g \<Rightarrow> chunk_outcome \<Rightarrow> unit result \<times> s_chunked_payload \<times> 'g \<Rightarrow> bool" where
  "step_result call g out res = (case out of
       Refused \<Rightarrow> res = (Inl Reject, s_chunked_payload_0, g)
     | Stored t \<Rightarrow> (\<exists>p. res = (Inr (), p, g) \<and> chunk_inv p \<and> payload_transfer p = Some t)
     | Complete h bs \<Rightarrow> (case call h (Some bs) g of (r, g') \<Rightarrow> res = (r, s_chunked_payload_0, g')))"

lemma process_chunk_header:
  assumes hd: "chunk_header B first data h p = Inr (off, q)" and off: "off \<le> length data"
    and q: "length (cp_buffer q) = PAYLOAD_BUFFER_SIZE" "unat (cp_size q) \<le> PAYLOAD_BUFFER_SIZE"
      "unat (cp_received q) \<le> unat (cp_size q)" "cp_handler q = Some h"
  shows "step_result call g
     (transfer_add \<lparr>tr_handler = h, tr_total = unat (cp_size q),
        tr_bytes = take (unat (cp_received q)) (cp_buffer q)\<rparr> (drop off data))
     (process_chunked_payload B call first (Some data) h p g)"
proof -
  let ?bs = "drop off data"
  let ?q = "q\<lparr>cp_buffer := memcpy_at (cp_buffer q) (unat (cp_received q)) ?bs,
              cp_received := cp_received q + word_of_nat (length ?bs)\<rparr>"
  have len: "length (take (unat (cp_received q)) (cp_buffer q)) = unat (cp_received q)"
    using q by simp
  show ?thesis
  proof (cases "unat (cp_received q) + length ?bs \<le> unat (cp_size q)")
    case False
    then show ?thesis using hd len
      by (simp add: step_result_def transfer_add_def process_chunked_payload_def
          process_chunked_payload_internal_def)
  next
    case True
    note copy = chunk_copy [OF q(1,2) True]
    have eq: "cp_received ?q = cp_size q \<longleftrightarrow> unat (cp_received q) + length ?bs = unat (cp_size q)"
      using copy(1) by (simp add: word_unat_eq_iff)
    show ?thesis
    proof (cases "unat (cp_received q) + length ?bs = unat (cp_size q)")
      case True
      then have "take (unat (cp_size q)) (cp_buffer ?q) = take (unat (cp_received q)) (cp_buffer q) @ ?bs"
        using copy(1,3) by simp
      then show ?thesis using hd len True eq q(1,2)
        by (simp add: step_result_def transfer_add_def process_chunked_payload_def
            process_chunked_payload_internal_def split: prod.splits sum.splits)
    next
      case neq: False
      then have "chunk_inv ?q" using copy True q by (simp add: chunk_inv_def)
      moreover have "payload_transfer ?q = Some \<lparr>tr_handler = h, tr_total = unat (cp_size q),
          tr_bytes = take (unat (cp_received q)) (cp_buffer q) @ ?bs\<rparr>"
        using copy q(4) by (simp add: payload_transfer_def)
      ultimately show ?thesis using hd len True neq eq q(1,2)
        by (simp add: step_result_def transfer_add_def process_chunked_payload_def
            process_chunked_payload_internal_def)
    qed
  qed
qed

lemma process_chunk_refines:
  assumes B: "bytes_ok B" and inv: "chunk_inv p"
  shows "step_result call g (chunk_step first data h (payload_transfer p))
           (process_chunked_payload B call first (Some data) h p g)"
proof (cases "chunk_header B first data h p")
  case (Inl e)
  have "e = Reject \<and> chunk_step first data h (payload_transfer p) = Refused"
    using chunk_header_first(1) [OF B inv] chunk_header_following(1) [OF inv] Inl by (cases first) metis+
  then show ?thesis using Inl
    by (simp add: step_result_def process_chunked_payload_def process_chunked_payload_internal_def)
next
  case (Inr oq)
  obtain off q where oq: "oq = (off, q)" by (cases oq)
  show ?thesis
  proof (cases first)
    case True
    with Inr oq chunk_header_first(2) [OF B inv, of data h off q]
    have q: "off = 2" "off \<le> length data" "length (cp_buffer q) = PAYLOAD_BUFFER_SIZE" "cp_received q = 0"
      "cp_handler q = Some h" "unat (cp_size q) \<le> PAYLOAD_BUFFER_SIZE"
      and st: "chunk_step True data h (payload_transfer p)
        = transfer_add \<lparr>tr_handler = h, tr_total = unat (cp_size q), tr_bytes = []\<rparr> (drop 2 data)"
      by simp_all
    have "chunk_header B first data h p = Inr (off, q)" using Inr oq by simp
    from process_chunk_header [OF this q(2,3,6) _ q(5), where call = call and g = g] True q(1,4) st
    show ?thesis by simp
  next
    case False
    with Inr oq chunk_header_following(2) [OF inv, of B data h off q]
    have q: "off = 0" "q = p" "cp_handler p = Some h"
      and st: "chunk_step False data h (payload_transfer p) = transfer_add \<lparr>tr_handler = h,
        tr_total = unat (cp_size p), tr_bytes = take (unat (cp_received p)) (cp_buffer p)\<rparr> data"
      by simp_all
    have "chunk_header B first data h p = Inr (off, q)" using Inr oq by simp
    from process_chunk_header [OF this, where call = call and g = g] False q st inv
    show ?thesis by (simp add: chunk_inv_def)
  qed
qed

lemma process_chunk_stored:
  assumes "bytes_ok B" "chunk_inv p" "chunk_step first data h (payload_transfer p) = Stored t"
  obtains p' where "process_chunked_payload B call first (Some data) h p g = (Inr (), p', g)" "chunk_inv p'"
    "payload_transfer p' = Some t"
  using process_chunk_refines [OF assms(1,2), of call g first data h] assms(3) by (auto simp: step_result_def)

lemma process_chunk_complete:
  assumes "bytes_ok B" "chunk_inv p" "chunk_step first data h (payload_transfer p) = Complete h' bs"
  shows "process_chunked_payload B call first (Some data) h p g =
    (case call h' (Some bs) g of (r, g') \<Rightarrow> (r, s_chunked_payload_0, g'))"
  using process_chunk_refines [OF assms(1,2), of call g first data h] assms(3)
  by (auto simp: step_result_def split: prod.splits)

lemma process_chunk_inv:
  assumes "bytes_ok B" "chunk_inv p" "process_chunked_payload B call first (Some data) h p g = (r, p', g')"
  shows "chunk_inv p'"
  using process_chunk_refines [OF assms(1,2), of call g first data h] assms(3)
  by (auto simp: step_result_def chunk_inv_0 split: chunk_outcome.splits prod.splits)

text \<open>The application state changes only by the handler, on the bytes of a complete transfer.\<close>

lemma process_chunk_cases:
  assumes "bytes_ok B" "chunk_inv p" "process_chunked_payload B call first (Some data) h p g = (r, p', g')"
  obtains (refused) "r = Inl Reject" "g' = g" "p' = s_chunked_payload_0"
  | (stored) "r = Inr ()" "g' = g"
  | (complete) bs where "call h (Some bs) g = (r, g')" "p' = s_chunked_payload_0"
      "length bs \<le> PAYLOAD_BUFFER_SIZE" "bs \<noteq> []"
proof -
  note res = process_chunk_refines [OF assms(1,2), of call g first data h, unfolded assms(3)]
  show thesis
  proof (cases "chunk_step first data h (payload_transfer p)")
    case Refused
    with res refused show ?thesis by (simp add: step_result_def)
  next
    case (Stored t)
    with res stored show ?thesis by (simp add: step_result_def)
  next
    case (Complete h' bs)
    have "h' = h \<and> length bs \<le> PAYLOAD_BUFFER_SIZE \<and> bs \<noteq> []"
      using Complete assms(2)
      by (auto simp: chunk_step_def transfer_add_def payload_transfer_def chunk_inv_def Let_def
          split: if_splits list.splits option.splits)
    with Complete res complete show ?thesis by (auto simp: step_result_def split: prod.splits)
  qed
qed

section \<open>Sending a payload\<close>

text \<open>The command sequence of a client: the length and a first part, then the other parts.\<close>

fun send_parts ::
  "byte_lib \<Rightarrow> 'g handler_call \<Rightarrow> f_payload_handler \<Rightarrow> byte list list \<Rightarrow> s_chunked_payload \<Rightarrow> 'g \<Rightarrow>
   unit result \<times> s_chunked_payload \<times> 'g" where
  "send_parts B call h [] p g = (Inr (), p, g)"
| "send_parts B call h (x # xs) p g =
     (case process_chunked_payload B call False (Some x) h p g of
        (Inl e, p', g') \<Rightarrow> (Inl e, p', g')
      | (Inr u, p', g') \<Rightarrow> send_parts B call h xs p' g')"

definition send_payload ::
  "byte_lib \<Rightarrow> 'g handler_call \<Rightarrow> f_payload_handler \<Rightarrow> byte list list \<Rightarrow> s_chunked_payload \<Rightarrow> 'g \<Rightarrow>
   unit result \<times> s_chunked_payload \<times> 'g" where
  "send_payload B call h parts p g = (case parts of
       [] \<Rightarrow> (Inr (), p, g)
     | x # xs \<Rightarrow>
       (case process_chunked_payload B call True (Some (be_bytes 2 (length (concat parts)) @ x)) h p g of
          (Inl e, p', g') \<Rightarrow> (Inl e, p', g')
        | (Inr u, p', g') \<Rightarrow> send_parts B call h xs p' g'))"

lemma send_parts_spec:
  assumes B: "bytes_ok B"
  shows "chunk_inv p \<Longrightarrow> payload_transfer p = Some \<lparr>tr_handler = h, tr_total = n, tr_bytes = acc\<rparr> \<Longrightarrow>
    length acc < n \<Longrightarrow> n = length acc + length (concat xs) \<Longrightarrow> [] \<notin> set xs \<Longrightarrow>
    send_parts B call h xs p g =
      (case call h (Some (acc @ concat xs)) g of (r, g') \<Rightarrow> (r, s_chunked_payload_0, g'))"
proof (induction xs arbitrary: p acc)
  case (Cons x xs)
  let ?st = "payload_transfer p"
  show ?case
  proof (cases "xs = []")
    case True
    with Cons.prems have "chunk_step False x h ?st = Complete h (acc @ x)"
      by (simp add: chunk_step_def transfer_add_def)
    from process_chunk_complete [OF B Cons.prems(1) this, of call g] True show ?thesis
      by (simp split: prod.splits sum.splits)
  next
    case False
    then have more: "0 < length (concat xs)" using Cons.prems(5) by (cases xs) auto
    with Cons.prems have "chunk_step False x h ?st = Stored \<lparr>tr_handler = h, tr_total = n, tr_bytes = acc @ x\<rparr>"
      by (auto simp: chunk_step_def transfer_add_def)
    from process_chunk_stored [OF B Cons.prems(1) this, of call g] obtain p' where
      p': "process_chunked_payload B call False (Some x) h p g = (Inr (), p', g)" "chunk_inv p'"
      "payload_transfer p' = Some \<lparr>tr_handler = h, tr_total = n, tr_bytes = acc @ x\<rparr>" .
    have "send_parts B call h xs p' g =
      (case call h (Some ((acc @ x) @ concat xs)) g of (r, g') \<Rightarrow> (r, s_chunked_payload_0, g'))"
      using Cons.prems more p' by (intro Cons.IH) auto
    with p'(1) show ?thesis by simp
  qed
qed simp

lemma be_bytes_2: "n < 65536 \<Longrightarrow> \<exists>b1 b0. be_bytes 2 n = [b1, b0] \<and> unat b1 * 256 + unat b0 = n"
  by (simp add: numeral_2_eq_2 unat_of_nat take_bit_eq_mod)

lemma send_payload_spec:
  assumes B: "bytes_ok B" and parts: "parts = x # xs" "[] \<notin> set xs"
    and len: "0 < length (concat parts)" "length (concat parts) \<le> PAYLOAD_BUFFER_SIZE"
    and p: "chunk_inv p" "cp_handler p = None"
  shows "send_payload B call h parts p g =
    (case call h (Some (concat parts)) g of (r, g') \<Rightarrow> (r, s_chunked_payload_0, g'))"
proof -
  let ?n = "length (concat parts)"
  obtain b1 b0 where hd: "be_bytes 2 ?n = [b1, b0]" "unat b1 * 256 + unat b0 = ?n"
    using be_bytes_2 [of ?n] len(2) by (auto simp: PAYLOAD_BUFFER_SIZE_def)
  have none: "payload_transfer p = None" using p(2) by (simp add: payload_transfer_def)
  have "chunk_step True (b1 # b0 # x) h (payload_transfer p)
      = transfer_add \<lparr>tr_handler = h, tr_total = ?n, tr_bytes = []\<rparr> x"
    using none len by (auto simp: chunk_step_def Let_def hd(2) simp del: add_is_0 add_eq_0_iff_both_eq_0)
  note step = this [unfolded transfer_add_def]
  show ?thesis
  proof (cases "xs = []")
    case True
    with step parts have "chunk_step True (b1 # b0 # x) h (payload_transfer p) = Complete h x" by simp
    from process_chunk_complete [OF B p(1) this, of call g] True parts hd(1) show ?thesis
      by (simp add: send_payload_def split: prod.splits sum.splits)
  next
    case False
    then have more: "0 < length (concat xs)" using parts(2) by (cases xs) auto
    with step parts have "chunk_step True (b1 # b0 # x) h (payload_transfer p)
        = Stored \<lparr>tr_handler = h, tr_total = ?n, tr_bytes = x\<rparr>" by simp
    from process_chunk_stored [OF B p(1) this, of call g] obtain p' where
      p': "process_chunked_payload B call True (Some (b1 # b0 # x)) h p g = (Inr (), p', g)"
      "chunk_inv p'" "payload_transfer p' = Some \<lparr>tr_handler = h, tr_total = ?n, tr_bytes = x\<rparr>" .
    have "send_parts B call h xs p' g =
      (case call h (Some (x @ concat xs)) g of (r, g') \<Rightarrow> (r, s_chunked_payload_0, g'))"
      using parts more p' by (intro send_parts_spec [OF B]) auto
    with p'(1) hd parts show ?thesis by (simp add: send_payload_def)
  qed
qed

end
