(* ===== verification/Ui_Common.thy ===== *)
theory Ui_Common
  imports Action "HOL-Library.Multiset"
begin

text \<open>
  What the review screens share (\<open>ui_context.h\<close>, \<open>ui_common.h\<close>, \<open>ui/common.c\<close>): the screen context,
  the bounded formatting of \<open>snprintf\<close>, the metadata lines, the search among orders, and the tests a
  TP/SL trigger has to pass.

  A pair holds pointers to a literal and to a string of the context's union. Every string is
  written once, before it is displayed, so a pair is modelled by the two strings. A
  \<open>SCREEN_SIZE_WALLET\<close> build is the parameter \<open>W\<close>.
\<close>

section \<open>Formatting\<close>

text \<open>\<open>snprintf (out, n, \<dots>)\<close> for a text without inner terminator.\<close>

definition snprintf :: "nat \<Rightarrow> string \<Rightarrow> string" where
  "snprintf n s = take (n - 1) s"

definition dec_digit :: "nat \<Rightarrow> char" where
  "dec_digit d = ''0123456789'' ! d"

text \<open>\<open>%u\<close>\<close>

function dec_of_nat :: "nat \<Rightarrow> string" where
  "dec_of_nat n = (if n < 10 then [dec_digit n] else dec_of_nat (n div 10) @ [dec_digit (n mod 10)])"
  by auto
termination by (relation "measure id") auto

declare dec_of_nat.simps [simp del]

lemma snprintf_fits [simp]: "length s < n \<Longrightarrow> snprintf n s = s"
  by (simp add: snprintf_def)

lemma dec_of_nat_length: "0 < k \<Longrightarrow> n < 10 ^ k \<Longrightarrow> length (dec_of_nat n) \<le> k"
proof (induction n arbitrary: k rule: dec_of_nat.induct)
  case (1 n)
  show ?case
  proof (cases "n < 10")
    case True
    with 1 show ?thesis by (simp add: dec_of_nat.simps)
  next
    case False
    with 1(3) have "1 < k" by (cases k; cases "k - 1") auto
    moreover from this 1(3) have "n div 10 < 10 ^ (k - 1)"
      by (cases k) (simp_all add: less_mult_imp_div_less mult.commute)
    ultimately have "length (dec_of_nat (n div 10)) \<le> k - 1" using 1(1) False by simp
    with False \<open>1 < k\<close> show ?thesis by (subst dec_of_nat.simps) simp
  qed
qed

lemma dec_digit_inject: "a < 10 \<Longrightarrow> b < 10 \<Longrightarrow> dec_digit a = dec_digit b \<longleftrightarrow> a = b"
proof -
  have "distinct ''0123456789''" by simp
  then show "a < 10 \<Longrightarrow> b < 10 \<Longrightarrow> ?thesis"
    using nth_eq_iff_index_eq [of "''0123456789''" a b] by (simp add: dec_digit_def)
qed

lemma dec_of_nat_nonempty: "dec_of_nat n \<noteq> []"
  by (subst dec_of_nat.simps) simp

lemma dec_of_nat_inject: "dec_of_nat m = dec_of_nat n \<longleftrightarrow> m = n"
proof
  show "dec_of_nat m = dec_of_nat n \<Longrightarrow> m = n"
  proof (induction m arbitrary: n rule: dec_of_nat.induct)
    case (1 m)
    consider "m < 10" "n < 10" | "m < 10" "\<not> n < 10" | "\<not> m < 10" "n < 10" | "\<not> m < 10" "\<not> n < 10" by blast
    then show ?case
    proof cases
      case 1
      with "1.prems" show ?thesis by (simp add: dec_of_nat.simps dec_digit_inject)
    next
      case 2
      with "1.prems" dec_of_nat_nonempty [of "n div 10"] show ?thesis
        by (subst (asm) (1 2) dec_of_nat.simps) (auto simp: Cons_eq_append_conv)
    next
      case 3
      with "1.prems" dec_of_nat_nonempty [of "m div 10"] show ?thesis
        by (subst (asm) (1 2) dec_of_nat.simps) (auto simp: append_eq_Cons_conv)
    next
      case 4
      with "1.prems" have "dec_of_nat (m div 10) = dec_of_nat (n div 10)" "m mod 10 = n mod 10"
        by (subst (asm) (1 2) dec_of_nat.simps; simp add: dec_digit_inject)+
      with "1.IH" 4 show ?thesis by (metis div_mod_decomp)
    qed
  qed
qed simp

lemma u32_dec_length: "length (dec_of_nat (unat (n :: u32))) \<le> 10"
proof -
  have "unat n < 2 ^ LENGTH(32)" by (rule unsigned_less)
  then show ?thesis by (intro dec_of_nat_length) simp_all
qed

section \<open>The screen context\<close>

definition INTENT_STRING_LENGTH :: nat where [simp]: "INTENT_STRING_LENGTH = 100"
definition REVIEW_SIGN_STRING_LENGTH :: nat where [simp]: "REVIEW_SIGN_STRING_LENGTH = 128"
definition MAX_UI_PAIRS :: nat where [simp]: "MAX_UI_PAIRS = 16"

record s_ui_ctx =
  ui_pairs :: "(string \<times> string) list"
  ui_intent :: string
  ui_review_msg :: string
  ui_sign_msg :: string

definition s_ui_ctx_0 :: s_ui_ctx where [zero_defs]:
  "s_ui_ctx_0 = \<lparr>ui_pairs = [], ui_intent = [], ui_review_msg = [], ui_sign_msg = []\<rparr>"

text \<open>\<open>pairs[nbPairs].item = \<dots>; pairs[nbPairs].value = \<dots>; nbPairs += 1\<close>\<close>

definition show_pair :: "string \<Rightarrow> string \<Rightarrow> s_ui_ctx \<Rightarrow> s_ui_ctx result" where
  "show_pair item value_str ui =
     (if length (ui_pairs ui) < MAX_UI_PAIRS
      then Inr (ui\<lparr>ui_pairs := ui_pairs ui @ [(item, value_str)]\<rparr>)
      else Inl Out_of_bounds)"

text \<open>A pointer handed to \<open>%s\<close>.\<close>

definition str_arg :: "string option \<Rightarrow> string result" where
  "str_arg s = (case s of None \<Rightarrow> Inl Null_deref | Some t \<Rightarrow> Inr t)"

lemma str_arg_simps [simp]: "str_arg (Some s) = Inr s" "str_arg None = Inl Null_deref"
  by (simp_all add: str_arg_def)

lemma show_pair_room [simp]:
  "length (ui_pairs ui) < 16 \<Longrightarrow> show_pair i v ui = Inr (ui\<lparr>ui_pairs := ui_pairs ui @ [(i, v)]\<rparr>)"
  by (simp add: show_pair_def)

section \<open>Metadata lines\<close>

definition margin_text :: "byte_lib \<Rightarrow> u64 \<Rightarrow> string" where
  "margin_text B m =
     format_fpu64_trimmed B (NUMERIC_STRING_LENGTH + MARGIN_DECIMALS + 1) m MARGIN_DECIMALS"

definition show_metadata_margin ::
  "byte_lib \<Rightarrow> s_action_metadata \<Rightarrow> nat \<Rightarrow> s_ui_ctx \<Rightarrow> s_ui_ctx result" where
  "show_metadata_margin B md sz ui =
     (if md_has_margin md
      then show_pair ''Margin'' (snprintf sz (margin_text B (md_margin md) @ '' '' @ COUNTERVALUE_TICKER)) ui
      else Inr ui)"

definition show_metadata_leverage :: "s_action_metadata \<Rightarrow> nat \<Rightarrow> s_ui_ctx \<Rightarrow> s_ui_ctx result" where
  "show_metadata_leverage md sz ui =
     (if md_has_leverage md
      then show_pair ''Leverage'' (snprintf sz (dec_of_nat (unat (md_leverage md)) @ ''x'')) ui
      else Inr ui)"

text \<open>The lines they add, when nothing is cut off.\<close>

definition margin_line :: "byte_lib \<Rightarrow> s_action_metadata \<Rightarrow> (string \<times> string) list" where
  "margin_line B md =
     (if md_has_margin md then [(''Margin'', margin_text B (md_margin md) @ '' USDC'')] else [])"

definition leverage_line :: "s_action_metadata \<Rightarrow> (string \<times> string) list" where
  "leverage_line md =
     (if md_has_leverage md then [(''Leverage'', dec_of_nat (unat (md_leverage md)) @ ''x'')] else [])"

lemma margin_line_length: "length (margin_line B md) \<le> 1" "length (leverage_line md) \<le> 1"
  by (simp_all add: margin_line_def leverage_line_def)

lemma margin_text_length: "bytes_ok B \<Longrightarrow> length (margin_text B m) \<le> 21"
  by (simp add: margin_text_def bytes_okD(5))

lemma margin_text_inject: "bytes_ok B \<Longrightarrow> margin_text B m = margin_text B n \<longleftrightarrow> m = n"
  by (simp add: margin_text_def bytes_okD(6))

lemma show_metadata_margin_spec:
  "bytes_ok B \<Longrightarrow> length (ui_pairs ui) < 16 \<Longrightarrow> 26 < sz \<Longrightarrow>
   show_metadata_margin B md sz ui = Inr (ui\<lparr>ui_pairs := ui_pairs ui @ margin_line B md\<rparr>)"
  using margin_text_length [of B "md_margin md"]
  by (simp add: show_metadata_margin_def margin_line_def)

lemma show_metadata_leverage_spec:
  "length (ui_pairs ui) < 16 \<Longrightarrow> 11 < sz \<Longrightarrow>
   show_metadata_leverage md sz ui = Inr (ui\<lparr>ui_pairs := ui_pairs ui @ leverage_line md\<rparr>)"
  using u32_dec_length [of "md_leverage md"]
  by (simp add: show_metadata_leverage_def leverage_line_def)

section \<open>Looking for orders\<close>

definition get_order_request ::
  "s_order_request list \<Rightarrow> nat \<Rightarrow> (s_order_request \<Rightarrow> bool) \<Rightarrow> s_order_request option" where
  "get_order_request xs sz match = find match (take sz xs)"

definition count_order_requests ::
  "s_order_request list \<Rightarrow> nat \<Rightarrow> (s_order_request \<Rightarrow> bool) \<Rightarrow> nat" where
  "count_order_requests xs sz match = fold (\<lambda>r n. if match r then n + 1 else n) (take sz xs) 0"

definition get_limit_request :: "s_order_request \<Rightarrow> bool" where
  "get_limit_request req \<longleftrightarrow> or_order_type req = ORDER_TYPE_LIMIT"

definition get_trigger_tp :: "s_order_request \<Rightarrow> bool" where
  "get_trigger_tp req \<longleftrightarrow> or_order_type req = ORDER_TYPE_TRIGGER \<and> tpsl (or_trigger req) = TRIGGER_TYPE_TP"

definition get_trigger_sl :: "s_order_request \<Rightarrow> bool" where
  "get_trigger_sl req \<longleftrightarrow> or_order_type req = ORDER_TYPE_TRIGGER \<and> tpsl (or_trigger req) = TRIGGER_TYPE_SL"

definition short_long_string :: "s_order_request option \<Rightarrow> string \<Rightarrow> string \<Rightarrow> string option" where
  "short_long_string req_p short_str long_str = (case req_p of
       None \<Rightarrow> None
     | Some req \<Rightarrow>
         if or_reduce_only req then Some (if or_is_buy req then short_str else long_str)
         else Some (if or_is_buy req then long_str else short_str))"

definition get_short_long_string :: "s_order_request option \<Rightarrow> string option" where
  "get_short_long_string req = short_long_string req ''short'' ''long''"

definition get_short_long_string_capitalized :: "s_order_request option \<Rightarrow> string option" where
  "get_short_long_string_capitalized req = short_long_string req ''Short'' ''Long''"

definition check_trigger_close_order :: "s_order_request \<Rightarrow> bool" where
  "check_trigger_close_order t \<longleftrightarrow>
     or_reduce_only t \<and> is_market (or_trigger t) \<and> or_limit_px t = trigger_px (or_trigger t)"

definition check_trigger_matches_limit :: "s_order_request \<Rightarrow> s_order_request \<Rightarrow> bool" where
  "check_trigger_matches_limit t l \<longleftrightarrow>
     check_trigger_close_order t \<and> or_is_buy t \<noteq> or_is_buy l \<and> or_sz t = or_sz l"

text \<open>
  The side of the position an order acts on: a reduce-only buy closes a short position, any other
  buy opens a long one.
\<close>

definition position_is_long :: "s_order_request \<Rightarrow> bool" where
  "position_is_long r \<longleftrightarrow> or_is_buy r \<noteq> or_reduce_only r"

definition Side :: "s_order_request \<Rightarrow> string" where
  "Side r = (if position_is_long r then ''Long'' else ''Short'')"

definition side :: "s_order_request \<Rightarrow> string" where
  "side r = (if position_is_long r then ''long'' else ''short'')"

lemma short_long_side [simp]:
  "get_short_long_string (Some r) = Some (side r)"
  "get_short_long_string_capitalized (Some r) = Some (Side r)"
  by (auto simp: get_short_long_string_def get_short_long_string_capitalized_def short_long_string_def
      side_def Side_def position_is_long_def)

lemma side_length: "length (side r) \<le> 5" "length (Side r) \<le> 5"
  by (simp_all add: side_def Side_def)

lemma count_order_requests_filter:
  "count_order_requests xs n m = length (filter m (take n xs))"
proof -
  have "fold (\<lambda>r k. if m r then k + 1 else k) ys k = k + length (filter m ys)" for ys :: "s_order_request list" and k
    by (induction ys arbitrary: k) auto
  then show ?thesis by (simp add: count_order_requests_def)
qed

text \<open>An order is of exactly one of the three kinds.\<close>

lemma order_kinds:
  "get_limit_request r \<noteq> (get_trigger_tp r \<or> get_trigger_sl r)" "\<not> (get_trigger_tp r \<and> get_trigger_sl r)"
  by (cases "or_order_type r"; cases "tpsl (or_trigger r)";
      simp add: get_limit_request_def get_trigger_tp_def get_trigger_sl_def)+

text \<open>
  With at most one element of a kind, the search returns all there is of that kind; a list whose
  length is the number of kinds found holds nothing else.
\<close>

lemma find_unique:
  "length (filter P xs) \<le> 1 \<Longrightarrow> mset (filter P xs) = (case find P xs of None \<Rightarrow> {#} | Some x \<Rightarrow> {#x#})"
proof (induction xs)
  case (Cons x xs)
  show ?case
  proof (cases "P x")
    case True
    with Cons.prems have "filter P xs = []" by simp
    with True show ?thesis by simp
  qed (use Cons in simp)
qed simp

definition opt_mset :: "'a option \<Rightarrow> 'a multiset" where
  "opt_mset x = (case x of None \<Rightarrow> {#} | Some a \<Rightarrow> {#a#})"

lemma opt_mset_simps [simp]: "opt_mset None = {#}" "opt_mset (Some a) = {#a#}"
  by (simp_all add: opt_mset_def)

lemma opt_mset_size: "size (opt_mset x) = (if x = None then 0 else 1)"
  by (cases x) simp_all

lemma order_partition:
  "mset xs = mset (filter get_limit_request xs) + mset (filter get_trigger_tp xs) + mset (filter get_trigger_sl xs)"
proof (induction xs)
  case (Cons x xs)
  then show ?case using order_kinds [of x] by auto
qed simp

lemma orders_shown:
  assumes "length (filter get_limit_request xs) \<le> 1" "length (filter get_trigger_tp xs) \<le> 1"
    "length (filter get_trigger_sl xs) \<le> 1"
  shows "mset xs = opt_mset (find get_limit_request xs) + opt_mset (find get_trigger_tp xs)
     + opt_mset (find get_trigger_sl xs)"
  using order_partition [of xs] find_unique [OF assms(1)] find_unique [OF assms(2)] find_unique [OF assms(3)]
  by (simp add: opt_mset_def)

section \<open>The contract of a screen\<close>

text \<open>
  Every \<open>ui_*\<close> function, entered with at most the two leading lines, refuses or adds at most nine
  lines and an intent of at most 81 characters; it never overruns the array of lines.
\<close>

definition screen_ok :: "s_ui_ctx \<Rightarrow> s_ui_ctx \<Rightarrow> bool" where
  "screen_ok ui ui' \<longleftrightarrow> (\<exists>ps. ui_pairs ui' = ui_pairs ui @ ps \<and> length ps \<le> 9) \<and>
     length (ui_intent ui') \<le> 81"

locale ui_screen =
  fixes screen :: "'e \<Rightarrow> s_ui_ctx \<Rightarrow> s_action_metadata \<Rightarrow> s_ui_ctx result"
    and env :: "'e \<Rightarrow> s_action_metadata \<Rightarrow> bool"
  assumes screen_safe: "env e md \<Longrightarrow> length (ui_pairs ui) \<le> 2 \<Longrightarrow> no_ub (screen e ui md)"
    and screen_adds: "env e md \<Longrightarrow> length (ui_pairs ui) \<le> 2 \<Longrightarrow> screen e ui md = Inr ui' \<Longrightarrow> screen_ok ui ui'"
begin

lemma screen_pairs:
  assumes "env e md" "length (ui_pairs ui) \<le> 2" "screen e ui md = Inr ui'"
  shows "length (ui_pairs ui') \<le> 11" "take (length (ui_pairs ui)) (ui_pairs ui') = ui_pairs ui"
  using screen_adds [OF assms] assms(2) by (auto simp: screen_ok_def)

text \<open>Neither of the two prompts built from the intent is cut off.\<close>

lemma screen_prompts:
  assumes "env e md" "length (ui_pairs ui) \<le> 2" "screen e ui md = Inr ui'"
  shows "snprintf (REVIEW_SIGN_STRING_LENGTH + 1) (''Review message to '' @ ui_intent ui')
           = ''Review message to '' @ ui_intent ui'"
    "snprintf (REVIEW_SIGN_STRING_LENGTH + 1) (''Sign message to '' @ ui_intent ui' @ ''?'')
           = ''Sign message to '' @ ui_intent ui' @ ''?''"
  using screen_adds [OF assms] by (simp_all add: screen_ok_def)

end

end
