(* ===== verification/Ui_Operations.thy ===== *)
theory Ui_Operations
  imports Ui_Common
begin

text \<open>
  The review screens of the operations (\<open>ui/op_order.c\<close>, \<open>ui/op_modify.c\<close>, \<open>ui/op_cancel.c\<close>,
  \<open>ui/op_close.c\<close>, \<open>ui/op_update_margin.c\<close>) and the function that selects and completes one
  (\<open>handle_ui\<close> in \<open>ui/operation.c\<close>). For each screen: the code, the exact lines it shows, and what the
  shown objects say about everything that is going to be signed.
\<close>

section \<open>Orders\<close>

text \<open>The optional lines: the leverage that is set, and the price of a trigger.\<close>

definition show_update_leverage :: "s_update_leverage option \<Rightarrow> s_ui_ctx \<Rightarrow> s_ui_ctx result" where
  "show_update_leverage leverage_p ui = (case leverage_p of
       None \<Rightarrow> Inr ui
     | Some u \<Rightarrow>
         if ul_is_cross u then Inl Reject
         else show_pair ''Leverage''
                (snprintf (LEVERAGE_STRING_LENGTH + 1) (dec_of_nat (unat (ul_leverage u)) @ ''x'')) ui)"

definition show_trigger_price :: "string \<Rightarrow> s_order_request option \<Rightarrow> s_ui_ctx \<Rightarrow> s_ui_ctx result" where
  "show_trigger_price item req_p ui = (case req_p of
       None \<Rightarrow> Inr ui
     | Some r \<Rightarrow> show_pair item
         (snprintf (PRICE_STRING_LENGTH + 1) (trigger_px (or_trigger r) @ '' '' @ COUNTERVALUE_TICKER)) ui)"

definition show_size :: "s_action_metadata \<Rightarrow> s_order_request \<Rightarrow> s_ui_ctx \<Rightarrow> s_ui_ctx result" where
  "show_size md req ui =
     show_pair ''Size'' (snprintf (SIZE_STRING_LENGTH + 1) (or_sz req @ '' '' @ md_asset_ticker md)) ui"

definition ui_order_common ::
  "byte_lib \<Rightarrow> s_action_metadata \<Rightarrow> s_order_request \<Rightarrow> s_update_leverage option \<Rightarrow>
   s_order_request option \<Rightarrow> s_order_request option \<Rightarrow> s_ui_ctx \<Rightarrow> s_ui_ctx result" where
  "ui_order_common B md lim leverage_p tp_p sl_p ui =
     rbind (show_metadata_margin B md (MARGIN_STRING_LENGTH + 1) ui) (\<lambda>ui.
     rbind (show_update_leverage leverage_p ui) (\<lambda>ui.
     rbind (show_trigger_price ''Take Profit'' tp_p ui) (\<lambda>ui.
     rbind (show_trigger_price ''Stop Loss'' sl_p ui) (\<lambda>ui.
     show_size md lim ui))))"

definition order_operation_size :: nat where
  "order_operation_size =
     LIMIT_MARKET_STRING_LENGTH + 1 + SHORT_LONG_STRING_LENGTH + 3 + ASSET_TICKER_LENGTH + 1"

definition ui_market_order ::
  "bool \<Rightarrow> byte_lib \<Rightarrow> s_action_metadata \<Rightarrow> s_order_request \<Rightarrow> s_update_leverage option \<Rightarrow>
   s_order_request option \<Rightarrow> s_order_request option \<Rightarrow> s_ui_ctx \<Rightarrow> s_ui_ctx result" where
  "ui_market_order W B md lim leverage_p tp_p sl_p ui =
     rbind (str_arg (get_short_long_string_capitalized (Some lim))) (\<lambda>s.
     rbind (show_pair ''Operation''
              (snprintf order_operation_size (''Market '' @ s @ '' - '' @ md_asset_ticker md)) ui) (\<lambda>ui.
     rbind (ui_order_common B md lim leverage_p tp_p sl_p ui) (\<lambda>ui.
     rbind (str_arg (get_short_long_string (Some lim))) (\<lambda>s.
     Inr (ui\<lparr>ui_intent := snprintf (INTENT_STRING_LENGTH + 1)
       (if W then ''Open '' @ md_asset_ticker md @ '' '' @ s else ''open '' @ s)\<rparr>)))))"

definition ui_limit_order ::
  "bool \<Rightarrow> byte_lib \<Rightarrow> s_action_metadata \<Rightarrow> s_order_request \<Rightarrow> s_update_leverage option \<Rightarrow>
   s_order_request option \<Rightarrow> s_order_request option \<Rightarrow> s_ui_ctx \<Rightarrow> s_ui_ctx result" where
  "ui_limit_order W B md lim leverage_p tp_p sl_p ui =
     rbind (str_arg (get_short_long_string_capitalized (Some lim))) (\<lambda>s.
     rbind (show_pair ''Operation''
              (snprintf order_operation_size (''Limit '' @ s @ '' - '' @ md_asset_ticker md)) ui) (\<lambda>ui.
     rbind (show_pair ''Limit Price''
              (snprintf (PRICE_STRING_LENGTH + 1) (or_limit_px lim @ '' '' @ COUNTERVALUE_TICKER)) ui) (\<lambda>ui.
     rbind (ui_order_common B md lim leverage_p tp_p sl_p ui) (\<lambda>ui.
     Inr (ui\<lparr>ui_intent := snprintf (INTENT_STRING_LENGTH + 1)
       (if W then ''Open '' @ md_asset_ticker md @ '' limit order'' else ''open limit order'')\<rparr>)))))"

text \<open>The two integrity checks: the structure of the bulk, and the triggers against the order.\<close>

definition order_structure_bad ::
  "s_order_request list \<Rightarrow> nat \<Rightarrow> s_order_request option \<Rightarrow> s_order_request option \<Rightarrow> bool" where
  "order_structure_bad orders n tp_p sl_p \<longleftrightarrow>
     count_order_requests orders n get_limit_request \<noteq> 1 \<or>
     count_order_requests orders n get_trigger_tp > 1 \<or>
     count_order_requests orders n get_trigger_sl > 1 \<or>
     n \<noteq> 1 + of_bool (tp_p \<noteq> None) + of_bool (sl_p \<noteq> None)"

definition trigger_mismatch :: "s_order_request option \<Rightarrow> s_order_request \<Rightarrow> bool" where
  "trigger_mismatch t_p lim \<longleftrightarrow> (case t_p of None \<Rightarrow> False | Some t \<Rightarrow> \<not> check_trigger_matches_limit t lim)"

definition ui_order ::
  "bool \<Rightarrow> byte_lib \<Rightarrow> s_hl_context \<Rightarrow> s_ui_ctx \<Rightarrow> s_action_metadata \<Rightarrow> s_ui_ctx result" where
  "ui_order W B g ui md =
     rbind (of_opt (ctx_get_action ACTION_TYPE_BULK_ORDER g)) (\<lambda>a.
     let orders = bo_orders (act_bulk_order a);
         n = bo_order_count (act_bulk_order a) in
     rbind (of_opt (get_order_request orders n get_limit_request)) (\<lambda>lim.
     let leverage_p = map_option act_update_leverage (ctx_get_action ACTION_TYPE_UPDATE_LEVERAGE g);
         tp_p = get_order_request orders n get_trigger_tp;
         sl_p = get_order_request orders n get_trigger_sl in
     if order_structure_bad orders n tp_p sl_p then Inl Reject
     else if trigger_mismatch tp_p lim \<or> trigger_mismatch sl_p lim then Inl Reject
     else case tif (or_limit lim) of
        TIF_IOC \<Rightarrow> ui_market_order W B md lim leverage_p tp_p sl_p ui
      | TIF_GTC \<Rightarrow> ui_limit_order W B md lim leverage_p tp_p sl_p ui
      | _ \<Rightarrow> Inl Reject))"

section \<open>Modifications\<close>

definition get_modify_request ::
  "s_modify_request list \<Rightarrow> nat \<Rightarrow> (s_modify_request \<Rightarrow> bool) \<Rightarrow> s_modify_request option" where
  "get_modify_request xs sz match = find match (take sz xs)"

definition count_modify_requests ::
  "s_modify_request list \<Rightarrow> nat \<Rightarrow> (s_modify_request \<Rightarrow> bool) \<Rightarrow> nat" where
  "count_modify_requests xs sz match = fold (\<lambda>r n. if match r then n + 1 else n) (take sz xs) 0"

definition get_modify_tp :: "s_modify_request \<Rightarrow> bool" where
  "get_modify_tp req \<longleftrightarrow> or_order_type (mr_order req) = ORDER_TYPE_TRIGGER \<and>
     tpsl (or_trigger (mr_order req)) = TRIGGER_TYPE_TP"

definition get_modify_sl :: "s_modify_request \<Rightarrow> bool" where
  "get_modify_sl req \<longleftrightarrow> or_order_type (mr_order req) = ORDER_TYPE_TRIGGER \<and>
     tpsl (or_trigger (mr_order req)) = TRIGGER_TYPE_SL"

text \<open>The two triggers of the action and, for a bulk modify, the requests they come from.\<close>

record modify_targets =
  mt_tp :: "s_order_request option"
  mt_sl :: "s_order_request option"
  mt_mod_tp :: "s_modify_request option"
  mt_mod_sl :: "s_modify_request option"

definition modify_select :: "s_action \<Rightarrow> modify_targets result" where
  "modify_select a = (case act_type a of
       ACTION_TYPE_BULK_MODIFY \<Rightarrow>
         (let ms = bm_modifies (act_bulk_modify a); n = bm_modify_count (act_bulk_modify a);
              mod_tp = get_modify_request ms n get_modify_tp;
              mod_sl = get_modify_request ms n get_modify_sl;
              tp = map_option mr_order mod_tp; sl = map_option mr_order mod_sl in
          if count_modify_requests ms n get_modify_tp > 1 \<or> count_modify_requests ms n get_modify_sl > 1 \<or>
             n \<noteq> of_bool (tp \<noteq> None) + of_bool (sl \<noteq> None)
          then Inl Reject
          else Inr \<lparr>mt_tp = tp, mt_sl = sl, mt_mod_tp = mod_tp, mt_mod_sl = mod_sl\<rparr>)
     | ACTION_TYPE_BULK_ORDER \<Rightarrow>
         (let orders = bo_orders (act_bulk_order a); n = bo_order_count (act_bulk_order a);
              tp = get_order_request orders n get_trigger_tp;
              sl = get_order_request orders n get_trigger_sl in
          if count_order_requests orders n get_limit_request \<noteq> 0 \<or>
             count_order_requests orders n get_trigger_tp > 1 \<or>
             count_order_requests orders n get_trigger_sl > 1 \<or>
             n \<noteq> of_bool (tp \<noteq> None) + of_bool (sl \<noteq> None)
          then Inl Reject
          else Inr \<lparr>mt_tp = tp, mt_sl = sl, mt_mod_tp = None, mt_mod_sl = None\<rparr>)
     | _ \<Rightarrow> Inl Reject)"

definition oid_text :: "byte_lib \<Rightarrow> u64 \<Rightarrow> string" where
  "oid_text B oid = format_u64 B (20 + 1) oid"

definition show_trigger ::
  "byte_lib \<Rightarrow> bool \<Rightarrow> string \<Rightarrow> string \<Rightarrow> string \<Rightarrow> s_order_request option \<Rightarrow> s_modify_request option \<Rightarrow>
   s_ui_ctx \<Rightarrow> s_ui_ctx result" where
  "show_trigger B is_modify new_item item oid_item req_p mod_p ui =
     rbind (show_trigger_price (if is_modify then new_item else item) req_p ui) (\<lambda>ui.
     if req_p \<noteq> None \<and> is_modify then
       (case mod_p of
          None \<Rightarrow> Inl Null_deref
        | Some m \<Rightarrow> show_pair oid_item (oid_text B (mr_oid m)) ui)
     else Inr ui)"

definition modify_target_name :: "bool \<Rightarrow> s_order_request option \<Rightarrow> s_order_request option \<Rightarrow> string" where
  "modify_target_name W tp_p sl_p =
     (if tp_p \<noteq> None \<and> sl_p \<noteq> None then
        snprintf 32 (if W then ''Take Profit and Stop Loss'' else ''TP/SL'')
      else if sl_p = None then snprintf 32 (if W then ''Take Profit'' else ''TP'')
      else snprintf 32 (if W then ''Stop Loss'' else ''SL''))"

definition trigger_not_close :: "s_order_request option \<Rightarrow> bool" where
  "trigger_not_close t_p \<longleftrightarrow> (case t_p of None \<Rightarrow> False | Some t \<Rightarrow> \<not> check_trigger_close_order t)"

definition sizes_differ :: "s_order_request option \<Rightarrow> s_order_request option \<Rightarrow> bool" where
  "sizes_differ a_p b_p \<longleftrightarrow>
     (case (a_p, b_p) of (Some a, Some b) \<Rightarrow> or_sz a \<noteq> or_sz b | _ \<Rightarrow> False)"

definition ui_modify ::
  "bool \<Rightarrow> byte_lib \<Rightarrow> s_hl_context \<Rightarrow> s_ui_ctx \<Rightarrow> s_action_metadata \<Rightarrow> s_ui_ctx result" where
  "ui_modify W B g ui md =
     rbind (of_opt (case ctx_get_action ACTION_TYPE_BULK_MODIFY g of
                      None \<Rightarrow> ctx_get_action ACTION_TYPE_BULK_ORDER g
                    | Some a \<Rightarrow> Some a)) (\<lambda>a.
     rbind (modify_select a) (\<lambda>t.
     let tp_p = mt_tp t; sl_p = mt_sl t; is_modify = act_type a = ACTION_TYPE_BULK_MODIFY in
     if tp_p = None \<and> sl_p = None then Inl Reject
     else if trigger_not_close tp_p \<or> trigger_not_close sl_p \<or> sizes_differ tp_p sl_p then Inl Reject
     else
       let any = (if tp_p = None then the sl_p else the tp_p) in
       rbind (str_arg (get_short_long_string_capitalized (Some any))) (\<lambda>s.
       rbind (show_pair ''Active Position''
                (snprintf order_operation_size (''Market '' @ s @ '' - '' @ md_asset_ticker md)) ui) (\<lambda>ui.
       rbind (show_metadata_margin B md (MARGIN_STRING_LENGTH + 1) ui) (\<lambda>ui.
       rbind (show_metadata_leverage md (LEVERAGE_STRING_LENGTH + 1) ui) (\<lambda>ui.
       rbind (show_size md any ui) (\<lambda>ui.
       rbind (show_trigger B is_modify ''New Take Profit'' ''Take Profit'' ''TP Order ID'' tp_p (mt_mod_tp t) ui) (\<lambda>ui.
       rbind (show_trigger B is_modify ''New Stop Loss'' ''Stop Loss'' ''SL Order ID'' sl_p (mt_mod_sl t) ui) (\<lambda>ui.
       Inr (ui\<lparr>ui_intent := snprintf (INTENT_STRING_LENGTH + 1)
         (if W then (if act_type a = ACTION_TYPE_BULK_ORDER then ''Set'' else ''Edit'') @ '' ''
                    @ md_asset_ticker md @ '' '' @ modify_target_name W tp_p sl_p
          else (if act_type a = ACTION_TYPE_BULK_ORDER then ''set'' else ''edit'') @ '' ''
                    @ modify_target_name W tp_p sl_p)\<rparr>))))))))))"

section \<open>Cancellations\<close>

definition cancel_operation_size :: nat where
  "cancel_operation_size = 15 + ASSET_TICKER_LENGTH + 1 + 25 + 1"

text \<open>The loop over the cancels; the string of the \<open>i\<close>-th id goes to the \<open>i\<close>-th slot of an array.\<close>

fun show_cancel_oids_from :: "byte_lib \<Rightarrow> s_bulk_cancel \<Rightarrow> nat list \<Rightarrow> s_ui_ctx \<Rightarrow> s_ui_ctx result" where
  "show_cancel_oids_from B bc [] ui = Inr ui"
| "show_cancel_oids_from B bc (i # is) ui =
     (if \<not> i < BULK_MAX_SIZE then Inl Out_of_bounds
      else rbind (arr_get (bc_cancels bc) i) (\<lambda>c.
           rbind (show_pair ''Order ID'' (oid_text B (cr_oid c)) ui) (\<lambda>ui.
           show_cancel_oids_from B bc is ui)))"

definition show_cancel_oids :: "byte_lib \<Rightarrow> s_bulk_cancel \<Rightarrow> s_ui_ctx \<Rightarrow> s_ui_ctx result" where
  "show_cancel_oids B bc ui = show_cancel_oids_from B bc [0..<bc_cancel_count bc] ui"

definition ui_cancel ::
  "bool \<Rightarrow> byte_lib \<Rightarrow> s_hl_context \<Rightarrow> s_ui_ctx \<Rightarrow> s_action_metadata \<Rightarrow> s_ui_ctx result" where
  "ui_cancel W B g ui md =
     rbind (of_opt (ctx_get_action ACTION_TYPE_BULK_CANCEL g)) (\<lambda>a.
     if bc_cancel_count (act_bulk_cancel a) \<noteq> 1 then Inl Reject
     else
       rbind (show_pair ''Operation''
                (snprintf cancel_operation_size (''Cancel order - '' @ md_asset_ticker md)) ui) (\<lambda>ui.
       rbind (show_metadata_margin B md (MARGIN_STRING_LENGTH + 1) ui) (\<lambda>ui.
       rbind (show_metadata_leverage md (LEVERAGE_STRING_LENGTH + 1) ui) (\<lambda>ui.
       rbind (show_cancel_oids B (act_bulk_cancel a) ui) (\<lambda>ui.
       Inr (ui\<lparr>ui_intent := snprintf (INTENT_STRING_LENGTH + 1)
         (if W then ''Cancel '' @ md_asset_ticker md @ '' order'' else ''cancel order'')\<rparr>))))))"

definition cancel_target_name :: "bool \<Rightarrow> e_operation_type \<Rightarrow> string" where
  "cancel_target_name W op =
     (if op = OP_TYPE_CANCEL_TP_SL then snprintf 32 (if W then ''Take Profit and Stop Loss'' else ''TP/SL'')
      else if op = OP_TYPE_CANCEL_TP then snprintf 32 (if W then ''Take Profit'' else ''TP'')
      else snprintf 32 (if W then ''Stop Loss'' else ''SL''))"

definition ui_cancel_tp_sl ::
  "bool \<Rightarrow> byte_lib \<Rightarrow> s_hl_context \<Rightarrow> s_ui_ctx \<Rightarrow> s_action_metadata \<Rightarrow> s_ui_ctx result" where
  "ui_cancel_tp_sl W B g ui md =
     rbind (of_opt (ctx_get_action ACTION_TYPE_BULK_CANCEL g)) (\<lambda>a.
     if bc_cancel_count (act_bulk_cancel a) \<noteq> (if md_op_type md = OP_TYPE_CANCEL_TP_SL then 2 else 1)
     then Inl Reject
     else
       let target = cancel_target_name W (md_op_type md) in
       rbind (show_pair ''Operation''
                (snprintf cancel_operation_size (''Cancel order - '' @ md_asset_ticker md @ '' '' @ target)) ui) (\<lambda>ui.
       rbind (show_metadata_margin B md (MARGIN_STRING_LENGTH + 1) ui) (\<lambda>ui.
       rbind (show_metadata_leverage md (LEVERAGE_STRING_LENGTH + 1) ui) (\<lambda>ui.
       rbind (show_cancel_oids B (act_bulk_cancel a) ui) (\<lambda>ui.
       Inr (ui\<lparr>ui_intent := snprintf (INTENT_STRING_LENGTH + 1)
         (if W then ''Cancel '' @ md_asset_ticker md @ '' '' @ target else ''cancel '' @ target)\<rparr>))))))"

section \<open>Closing a position\<close>

definition close_operation_size :: nat where
  "close_operation_size = SHORT_LONG_STRING_LENGTH + 3 + ASSET_TICKER_LENGTH + 1"

definition ui_close ::
  "bool \<Rightarrow> byte_lib \<Rightarrow> s_hl_context \<Rightarrow> s_ui_ctx \<Rightarrow> s_action_metadata \<Rightarrow> s_ui_ctx result" where
  "ui_close W B g ui md =
     rbind (of_opt (ctx_get_action ACTION_TYPE_BULK_ORDER g)) (\<lambda>a.
     if bo_order_count (act_bulk_order a) \<noteq> 1 then Inl Reject
     else
       rbind (of_opt (get_order_request (bo_orders (act_bulk_order a)) (bo_order_count (act_bulk_order a))
                        get_limit_request)) (\<lambda>lim.
       if \<not> or_reduce_only lim then Inl Reject
       else
         rbind (str_arg (get_short_long_string_capitalized (Some lim))) (\<lambda>s.
         rbind (show_pair ''Position to close''
                  (snprintf close_operation_size (s @ '' - '' @ md_asset_ticker md)) ui) (\<lambda>ui.
         rbind (show_metadata_margin B md (MARGIN_STRING_LENGTH + 1) ui) (\<lambda>ui.
         rbind (show_metadata_leverage md (LEVERAGE_STRING_LENGTH + 1) ui) (\<lambda>ui.
         rbind (show_size md lim ui) (\<lambda>ui.
         rbind (str_arg (get_short_long_string (Some lim))) (\<lambda>s.
         Inr (ui\<lparr>ui_intent := snprintf (INTENT_STRING_LENGTH + 1)
           (if W then ''Close '' @ md_asset_ticker md @ '' '' @ s @ '' position''
            else ''close '' @ s @ '' position'')\<rparr>)))))))))"

section \<open>Updating a margin\<close>

definition margin_magnitude :: "u64 \<Rightarrow> u64" where
  "margin_magnitude ntli = (if sint ntli < 0 then - ntli else ntli)"

definition ui_update_margin ::
  "bool \<Rightarrow> byte_lib \<Rightarrow> s_hl_context \<Rightarrow> s_ui_ctx \<Rightarrow> s_action_metadata \<Rightarrow> s_ui_ctx result" where
  "ui_update_margin W B g ui md =
     rbind (of_opt (ctx_get_action ACTION_TYPE_UPDATE_ISOLATED_MARGIN g)) (\<lambda>a.
     let u = act_update_isolated_margin a;
         margin = margin_magnitude (um_ntli u) in
     rbind (show_pair ''Active Position''
              (snprintf close_operation_size
                ((if um_is_buy u then ''Long'' else ''Short'') @ '' - '' @ md_asset_ticker md)) ui) (\<lambda>ui.
     rbind (show_pair ''New Margin''
              (snprintf (MARGIN_STRING_LENGTH + 1) (margin_text B margin @ '' '' @ COUNTERVALUE_TICKER)) ui) (\<lambda>ui.
     rbind (show_metadata_leverage md (LEVERAGE_STRING_LENGTH + 1) ui) (\<lambda>ui.
     Inr (ui\<lparr>ui_intent := snprintf (INTENT_STRING_LENGTH + 1)
       (if W then (if sint (um_ntli u) < 0 then ''Remove'' else ''Add'') @ '' Margin ''
                  @ (if sint (um_ntli u) < 0 then ''from'' else ''to'') @ '' '' @ md_asset_ticker md @ '' ''
                  @ (if um_is_buy u then ''Long'' else ''Short'')
        else (if sint (um_ntli u) < 0 then ''remove'' else ''add'') @ '' margin ''
                  @ (if sint (um_ntli u) < 0 then ''from'' else ''to'') @ '' ''
                  @ (if um_is_buy u then ''long'' else ''short''))\<rparr>)))))"

section \<open>Selecting a screen\<close>

definition prepare_review_sign_msgs :: "s_ui_ctx \<Rightarrow> s_ui_ctx" where
  "prepare_review_sign_msgs ui = ui
     \<lparr>ui_review_msg := snprintf (REVIEW_SIGN_STRING_LENGTH + 1) (''Review message to '' @ ui_intent ui),
      ui_sign_msg := snprintf (REVIEW_SIGN_STRING_LENGTH + 1) (''Sign message to '' @ ui_intent ui @ ''?'')\<rparr>"

definition APPNAME :: string where "APPNAME = ''Hyperliquid''"

text \<open>The screen handed to \<open>nbgl_useCaseReview\<close>, when the function returns \<open>true\<close>.\<close>

definition handle_ui ::
  "bool \<Rightarrow> byte_lib \<Rightarrow> s_hl_context \<Rightarrow> s_action_metadata option \<Rightarrow> s_ui_ctx result" where
  "handle_ui W B g metadata_p =
     rbind (of_opt metadata_p) (\<lambda>md.
     rbind (show_pair ''Protocol'' APPNAME s_ui_ctx_0) (\<lambda>ui.
     rbind (if md_network md = NETWORK_TESTNET then show_pair ''Network'' ''Testnet'' ui else Inr ui) (\<lambda>ui.
     rbind (case md_op_type md of
              OP_TYPE_ORDER \<Rightarrow> ui_order W B g ui md
            | OP_TYPE_MODIFY \<Rightarrow> ui_modify W B g ui md
            | OP_TYPE_CANCEL \<Rightarrow> ui_cancel W B g ui md
            | OP_TYPE_CLOSE \<Rightarrow> ui_close W B g ui md
            | OP_TYPE_UPDATE_MARGIN \<Rightarrow> ui_update_margin W B g ui md
            | OP_TYPE_CANCEL_SL \<Rightarrow> ui_cancel_tp_sl W B g ui md
            | OP_TYPE_CANCEL_TP \<Rightarrow> ui_cancel_tp_sl W B g ui md
            | OP_TYPE_CANCEL_TP_SL \<Rightarrow> ui_cancel_tp_sl W B g ui md
            | OP_TYPE_UPDATE_LEVERAGE \<Rightarrow> Inl Reject) (\<lambda>ui.
     Inr (prepare_review_sign_msgs ui)))))"

end
