(* ===== verification/Ui_Review.thy ===== *)
theory Ui_Review
  imports Ui_Operations
begin

text \<open>
  What the screens show. For a well-formed session each \<open>ui_*\<close> function is characterised exactly: the
  lines it adds, none of them cut off, and the relation between the objects shown and the actions
  that are stored and will be signed. The functions are instances of \<open>ui_screen\<close>.
\<close>

section \<open>Well-formed sessions\<close>

definition session_wf :: "s_hl_context \<Rightarrow> s_action_metadata \<Rightarrow> bool" where
  "session_wf g md \<longleftrightarrow> ctx_inv g \<and> metadata_wf md \<and>
     list_all (\<lambda>a. action_wf (Some md) a \<and> payload_only a = a) (ctx_queue g)"

definition screen_env :: "byte_lib \<Rightarrow> s_hl_context \<Rightarrow> s_action_metadata \<Rightarrow> bool" where
  "screen_env B g md \<longleftrightarrow> bytes_ok B \<and> session_wf g md"

lemma ctx_queue_session: "ss_queue (ctx_session g) = ctx_queue g"
  by (simp add: ctx_session_def)

lemma session_lookup:
  "session_wf g md \<Longrightarrow> ctx_get_action t g = Some a \<Longrightarrow>
   a \<in> set (ctx_queue g) \<and> act_type a = t \<and> action_wf (Some md) a"
  using ctx.lookup_iff [of g t a] by (auto simp: session_wf_def list_all_iff ctx_queue_session)

lemma session_lookup_iff:
  "ctx_inv g \<Longrightarrow> ctx_get_action t g = Some a \<longleftrightarrow> a \<in> set (ctx_queue g) \<and> act_type a = t"
  using ctx.lookup_iff [of g t a] by (simp add: ctx_queue_session)

lemma ticker_length: "metadata_wf md \<Longrightarrow> length (md_asset_ticker md) \<le> 48"
  by (simp add: metadata_wf_def cstr_fits_def)

lemmas size_defs = order_operation_size_def cancel_operation_size_def close_operation_size_def

section \<open>Lines\<close>

definition usdc :: "string \<Rightarrow> string" where
  "usdc s = s @ '' USDC''"

definition price_line :: "string \<Rightarrow> s_order_request option \<Rightarrow> (string \<times> string) list" where
  "price_line item r = (case r of None \<Rightarrow> [] | Some t \<Rightarrow> [(item, usdc (trigger_px (or_trigger t)))])"

definition set_leverage_line :: "s_update_leverage option \<Rightarrow> (string \<times> string) list" where
  "set_leverage_line u =
     (case u of None \<Rightarrow> [] | Some l \<Rightarrow> [(''Leverage'', dec_of_nat (unat (ul_leverage l)) @ ''x'')])"

definition size_line :: "s_action_metadata \<Rightarrow> s_order_request \<Rightarrow> string \<times> string" where
  "size_line md r = (''Size'', or_sz r @ '' '' @ md_asset_ticker md)"

definition order_common_lines ::
  "byte_lib \<Rightarrow> s_action_metadata \<Rightarrow> s_order_request \<Rightarrow> s_update_leverage option \<Rightarrow>
   s_order_request option \<Rightarrow> s_order_request option \<Rightarrow> (string \<times> string) list" where
  "order_common_lines B md lim lev tp sl =
     margin_line B md @ set_leverage_line lev @ price_line ''Take Profit'' tp @ price_line ''Stop Loss'' sl
     @ [size_line md lim]"

definition order_lines ::
  "byte_lib \<Rightarrow> s_action_metadata \<Rightarrow> s_order_request \<Rightarrow> s_update_leverage option \<Rightarrow>
   s_order_request option \<Rightarrow> s_order_request option \<Rightarrow> (string \<times> string) list" where
  "order_lines B md lim lev tp sl =
     (if tif (or_limit lim) = TIF_IOC
      then [(''Operation'', ''Market '' @ Side lim @ '' - '' @ md_asset_ticker md)]
      else [(''Operation'', ''Limit '' @ Side lim @ '' - '' @ md_asset_ticker md),
            (''Limit Price'', usdc (or_limit_px lim))])
     @ order_common_lines B md lim lev tp sl"

lemma price_line_length: "length (price_line i r) \<le> 1" "length (set_leverage_line u) \<le> 1"
  by (simp_all add: price_line_def set_leverage_line_def split: option.splits)

lemma order_common_lines_length: "length (order_common_lines B md lim lev tp sl) \<le> 5"
  using price_line_length(1) [of "''Take Profit''" tp] price_line_length(1) [of "''Stop Loss''" sl]
    price_line_length(2) [of lev] margin_line_length(1) [of B md]
  by (simp add: order_common_lines_def)

definition px_ok :: "s_order_request option \<Rightarrow> bool" where
  "px_ok r \<longleftrightarrow> (\<forall>t. r = Some t \<longrightarrow> num_str (trigger_px (or_trigger t)))"

lemma show_trigger_price_spec:
  assumes "length (ui_pairs ui) < 16" "px_ok r"
  shows "show_trigger_price i r ui = Inr (ui\<lparr>ui_pairs := ui_pairs ui @ price_line i r\<rparr>)"
proof (cases r)
  case (Some t)
  with assms(2) have "length (trigger_px (or_trigger t)) \<le> 21" by (simp add: px_ok_def num_str_length)
  with assms(1) Some show ?thesis by (simp add: show_trigger_price_def price_line_def usdc_def)
qed (simp add: show_trigger_price_def price_line_def)

lemma show_update_leverage_spec:
  assumes "length (ui_pairs ui) < 16"
  shows "show_update_leverage u ui = (if u \<noteq> None \<and> ul_is_cross (the u) then Inl Reject
      else Inr (ui\<lparr>ui_pairs := ui_pairs ui @ set_leverage_line u\<rparr>))"
proof (cases u)
  case (Some l)
  have "length (dec_of_nat (unat (ul_leverage l))) \<le> 10" by (rule u32_dec_length)
  with assms Some show ?thesis by (simp add: show_update_leverage_def set_leverage_line_def)
qed (simp add: show_update_leverage_def set_leverage_line_def)

lemma show_size_spec:
  "metadata_wf md \<Longrightarrow> num_str (or_sz r) \<Longrightarrow> length (ui_pairs ui) < 16 \<Longrightarrow>
   show_size md r ui = Inr (ui\<lparr>ui_pairs := ui_pairs ui @ [size_line md r]\<rparr>)"
  using ticker_length [of md] num_str_length [of "or_sz r"] by (simp add: size_line_def show_size_def)

lemmas show_specs = show_metadata_margin_spec show_metadata_leverage_spec show_trigger_price_spec
  show_update_leverage_spec show_size_spec

lemma ui_order_common_spec:
  assumes "bytes_ok B" "metadata_wf md" "num_str (or_sz lim)" "px_ok tp" "px_ok sl" "length (ui_pairs ui) \<le> 4"
  shows "ui_order_common B md lim lev tp sl ui =
    (if lev \<noteq> None \<and> ul_is_cross (the lev) then Inl Reject
     else Inr (ui\<lparr>ui_pairs := ui_pairs ui @ order_common_lines B md lim lev tp sl\<rparr>))"
proof -
  note room = margin_line_length(1) [of B md] price_line_length(2) [of lev]
    price_line_length(1) [of "''Take Profit''" tp] price_line_length(1) [of "''Stop Loss''" sl]
  show ?thesis
  proof (cases "lev \<noteq> None \<and> ul_is_cross (the lev)")
    case False
    with room assms show ?thesis by (simp add: ui_order_common_def show_specs order_common_lines_def del: not_None_eq)
  qed (use room assms in \<open>simp add: ui_order_common_def show_specs\<close>)
qed

section \<open>The order screen\<close>

text \<open>
  The orders of the bulk are the limit order shown, the take-profit and the stop-loss shown, and
  nothing else; the triggers close the limit order's position on the market at the price shown.
\<close>

definition order_review ::
  "s_bulk_order \<Rightarrow> s_order_request \<Rightarrow> s_order_request option \<Rightarrow> s_order_request option \<Rightarrow> bool" where
  "order_review b lim tp sl \<longleftrightarrow>
     mset (take (bo_order_count b) (bo_orders b)) = {#lim#} + opt_mset tp + opt_mset sl \<and>
     get_limit_request lim \<and> tif (or_limit lim) \<noteq> TIF_ALO \<and>
     (\<forall>t. tp = Some t \<longrightarrow> get_trigger_tp t \<and> check_trigger_matches_limit t lim) \<and>
     (\<forall>t. sl = Some t \<longrightarrow> get_trigger_sl t \<and> check_trigger_matches_limit t lim)"

lemma find_Some_in: "find P xs = Some x \<Longrightarrow> x \<in> set xs \<and> P x"
  by (auto simp: find_Some_iff)

lemma order_px_ok:
  "action_wf (Some md) a \<Longrightarrow> act_type a = ACTION_TYPE_BULK_ORDER \<Longrightarrow>
   r \<in> set (take (bo_order_count (act_bulk_order a)) (bo_orders (act_bulk_order a))) \<Longrightarrow>
   order_wf (md_asset_id md) r"
  by (simp add: action_wf_def bulk_order_wf_def list_all_iff order_wf_md_def)

lemma order_found:
  assumes "action_wf (Some md) a" "act_type a = ACTION_TYPE_BULK_ORDER"
    and "get_order_request (bo_orders (act_bulk_order a)) (bo_order_count (act_bulk_order a)) P = Some r"
  shows "P r" "order_wf (md_asset_id md) r"
  using assms by (auto simp: get_order_request_def intro: order_px_ok dest: find_Some_in)

lemma trigger_px_ok:
  "(\<And>r. P r \<Longrightarrow> or_order_type r = ORDER_TYPE_TRIGGER) \<Longrightarrow> action_wf (Some md) a \<Longrightarrow>
   act_type a = ACTION_TYPE_BULK_ORDER \<Longrightarrow>
   px_ok (get_order_request (bo_orders (act_bulk_order a)) (bo_order_count (act_bulk_order a)) P)"
  using order_found [of md a P] by (auto simp: px_ok_def order_wf_def)

lemma ui_order_screens:
  assumes "bytes_ok B" "metadata_wf md" "num_str (or_sz lim)" "num_str (or_limit_px lim)" "px_ok tp" "px_ok sl"
    and "length (ui_pairs ui) \<le> 2"
  shows "tif (or_limit lim) = TIF_IOC \<Longrightarrow> ui_market_order W B md lim lev tp sl ui =
     (if lev \<noteq> None \<and> ul_is_cross (the lev) then Inl Reject
      else Inr (ui\<lparr>ui_pairs := ui_pairs ui @ order_lines B md lim lev tp sl,
        ui_intent := (if W then ''Open '' @ md_asset_ticker md @ '' '' @ side lim else ''open '' @ side lim)\<rparr>))"
    and "tif (or_limit lim) = TIF_GTC \<Longrightarrow> ui_limit_order W B md lim lev tp sl ui =
     (if lev \<noteq> None \<and> ul_is_cross (the lev) then Inl Reject
      else Inr (ui\<lparr>ui_pairs := ui_pairs ui @ order_lines B md lim lev tp sl,
        ui_intent := (if W then ''Open '' @ md_asset_ticker md @ '' limit order'' else ''open limit order'')\<rparr>))"
proof -
  have len: "length (md_asset_ticker md) \<le> 48" "length (or_limit_px lim) \<le> 21"
    using assms(2,4) by (simp_all add: ticker_length num_str_length)
  have small: "snprintf 64 (''Market '' @ Side lim @ '' - '' @ md_asset_ticker md) = ''Market '' @ Side lim @ '' - '' @ md_asset_ticker md"
    "snprintf 64 (''Limit '' @ Side lim @ '' - '' @ md_asset_ticker md) = ''Limit '' @ Side lim @ '' - '' @ md_asset_ticker md"
    "snprintf 101 (''Open '' @ md_asset_ticker md @ '' '' @ side lim) = ''Open '' @ md_asset_ticker md @ '' '' @ side lim"
    "snprintf 101 (''open '' @ side lim) = ''open '' @ side lim"
    by (rule snprintf_fits; use len(1) side_length [of lim] in simp)+
  show "tif (or_limit lim) = TIF_IOC \<Longrightarrow> ui_market_order W B md lim lev tp sl ui =
     (if lev \<noteq> None \<and> ul_is_cross (the lev) then Inl Reject
      else Inr (ui\<lparr>ui_pairs := ui_pairs ui @ order_lines B md lim lev tp sl,
        ui_intent := (if W then ''Open '' @ md_asset_ticker md @ '' '' @ side lim else ''open '' @ side lim)\<rparr>))"
    using assms small
    by (simp add: ui_market_order_def ui_order_common_spec order_lines_def size_defs del: append.simps)
  show "tif (or_limit lim) = TIF_GTC \<Longrightarrow> ui_limit_order W B md lim lev tp sl ui =
     (if lev \<noteq> None \<and> ul_is_cross (the lev) then Inl Reject
      else Inr (ui\<lparr>ui_pairs := ui_pairs ui @ order_lines B md lim lev tp sl,
        ui_intent := (if W then ''Open '' @ md_asset_ticker md @ '' limit order'' else ''open limit order'')\<rparr>))"
    using assms small len
    by (simp add: ui_limit_order_def ui_order_common_spec order_lines_def size_defs usdc_def)
qed

definition order_intent :: "bool \<Rightarrow> s_action_metadata \<Rightarrow> s_order_request \<Rightarrow> string" where
  "order_intent W md lim =
     (if tif (or_limit lim) = TIF_IOC
      then (if W then ''Open '' @ md_asset_ticker md @ '' '' @ side lim else ''open '' @ side lim)
      else (if W then ''Open '' @ md_asset_ticker md @ '' limit order'' else ''open limit order''))"

lemma order_lines_length: "length (order_lines B md lim lev tp sl) \<le> 7"
  using order_common_lines_length [of B md lim lev tp sl] by (simp add: order_lines_def)

lemma order_intent_length: "metadata_wf md \<Longrightarrow> length (order_intent W md lim) \<le> 81"
  using ticker_length [of md] side_length(1) [of lim] by (simp add: order_intent_def)

definition bulk_orders :: "s_bulk_order \<Rightarrow> s_order_request list" where
  "bulk_orders b = take (bo_order_count b) (bo_orders b)"

lemma bulk_orders_length:
  "action_wf (Some md) a \<Longrightarrow> act_type a = ACTION_TYPE_BULK_ORDER \<Longrightarrow>
   length (bulk_orders (act_bulk_order a)) = bo_order_count (act_bulk_order a)"
  by (simp add: action_wf_def bulk_order_wf_def bulk_orders_def)

text \<open>The conditions under which a bulk order with a first limit order \<open>lim\<close> is refused.\<close>

definition order_refused :: "s_bulk_order \<Rightarrow> s_update_leverage option \<Rightarrow> s_order_request \<Rightarrow> bool" where
  "order_refused b lev lim \<longleftrightarrow> (let
       tp = get_order_request (bo_orders b) (bo_order_count b) get_trigger_tp;
       sl = get_order_request (bo_orders b) (bo_order_count b) get_trigger_sl in
     order_structure_bad (bo_orders b) (bo_order_count b) tp sl \<or>
     trigger_mismatch tp lim \<or> trigger_mismatch sl lim \<or>
     tif (or_limit lim) = TIF_ALO \<or> (lev \<noteq> None \<and> ul_is_cross (the lev)))"

lemma order_not_refused:
  assumes "\<not> order_refused b lev lim"
    and lim: "get_order_request (bo_orders b) (bo_order_count b) get_limit_request = Some lim"
  shows "order_review b lim (get_order_request (bo_orders b) (bo_order_count b) get_trigger_tp)
     (get_order_request (bo_orders b) (bo_order_count b) get_trigger_sl)"
proof -
  let ?get = "get_order_request (bo_orders b) (bo_order_count b)"
  let ?cnt = "count_order_requests (bo_orders b) (bo_order_count b)"
  from assms(1) have counts: "?cnt get_limit_request = 1" "?cnt get_trigger_tp \<le> 1" "?cnt get_trigger_sl \<le> 1"
    and checks: "\<forall>t. ?get get_trigger_tp = Some t \<longrightarrow> check_trigger_matches_limit t lim"
      "\<forall>t. ?get get_trigger_sl = Some t \<longrightarrow> check_trigger_matches_limit t lim"
    and tif: "tif (or_limit lim) \<noteq> TIF_ALO"
    by (auto simp: order_refused_def Let_def order_structure_bad_def trigger_mismatch_def)
  have "mset (bulk_orders b) = opt_mset (?get get_limit_request) + opt_mset (?get get_trigger_tp)
      + opt_mset (?get get_trigger_sl)"
    using counts unfolding get_order_request_def count_order_requests_filter bulk_orders_def
    by (intro orders_shown) simp_all
  moreover have "get_limit_request lim"
    using lim by (auto simp: get_order_request_def dest: find_Some_in)
  moreover have "\<forall>t. ?get get_trigger_tp = Some t \<longrightarrow> get_trigger_tp t" "\<forall>t. ?get get_trigger_sl = Some t \<longrightarrow> get_trigger_sl t"
    by (auto simp: get_order_request_def dest: find_Some_in)
  ultimately show ?thesis
    using lim checks tif by (simp add: order_review_def bulk_orders_def)
qed

lemma ui_order_run:
  assumes env: "screen_env B g md" and room: "length (ui_pairs ui) \<le> 2"
    and a: "ctx_get_action ACTION_TYPE_BULK_ORDER g = Some a"
    and lim: "get_order_request (bo_orders (act_bulk_order a)) (bo_order_count (act_bulk_order a))
                  get_limit_request = Some lim"
  shows "ui_order W B g ui md =
    (let b = act_bulk_order a;
         lev = map_option act_update_leverage (ctx_get_action ACTION_TYPE_UPDATE_LEVERAGE g);
         tp = get_order_request (bo_orders b) (bo_order_count b) get_trigger_tp;
         sl = get_order_request (bo_orders b) (bo_order_count b) get_trigger_sl in
     if order_refused b lev lim then Inl Reject
     else Inr (ui\<lparr>ui_pairs := ui_pairs ui @ order_lines B md lim lev tp sl, ui_intent := order_intent W md lim\<rparr>))"
proof -
  from env have wf: "session_wf g md" and B: "bytes_ok B" and md: "metadata_wf md"
    by (auto simp: screen_env_def session_wf_def)
  from session_lookup [OF wf a] have aw: "action_wf (Some md) a" "act_type a = ACTION_TYPE_BULK_ORDER" by auto
  define lev where "lev = map_option act_update_leverage (ctx_get_action ACTION_TYPE_UPDATE_LEVERAGE g)"
  define tp where "tp = get_order_request (bo_orders (act_bulk_order a)) (bo_order_count (act_bulk_order a)) get_trigger_tp"
  define sl where "sl = get_order_request (bo_orders (act_bulk_order a)) (bo_order_count (act_bulk_order a)) get_trigger_sl"
  have px: "px_ok tp" "px_ok sl"
    unfolding tp_def sl_def
    by (rule trigger_px_ok [OF _ aw]; simp add: get_trigger_tp_def get_trigger_sl_def)+
  have "num_str (or_sz lim)" "num_str (or_limit_px lim)"
    using order_found(2) [OF aw lim] by (simp_all add: order_wf_def)
  note screens = ui_order_screens [OF B md this px room, of W lev]
  define cross where "cross \<longleftrightarrow> lev \<noteq> None \<and> ul_is_cross (the lev)"
  show ?thesis
    using screens unfolding ui_order_def order_refused_def order_intent_def Let_def
    by (cases "tif (or_limit lim)") (simp_all add: a lim flip: lev_def tp_def sl_def cross_def)
qed

text \<open>What a shown order screen says about the bulk order and the leverage update that are stored.\<close>

definition order_shown ::
  "bool \<Rightarrow> byte_lib \<Rightarrow> s_hl_context \<Rightarrow> s_action_metadata \<Rightarrow> s_ui_ctx \<Rightarrow> s_ui_ctx \<Rightarrow> bool" where
  "order_shown W B g md ui ui' \<longleftrightarrow> (\<exists>a lim tp sl.
     let lev = map_option act_update_leverage (ctx_get_action ACTION_TYPE_UPDATE_LEVERAGE g) in
     a \<in> set (ctx_queue g) \<and> act_type a = ACTION_TYPE_BULK_ORDER \<and>
     order_review (act_bulk_order a) lim tp sl \<and> (\<forall>u. lev = Some u \<longrightarrow> \<not> ul_is_cross u) \<and>
     ui' = ui\<lparr>ui_pairs := ui_pairs ui @ order_lines B md lim lev tp sl, ui_intent := order_intent W md lim\<rparr>)"

lemma ui_order_spec:
  assumes env: "screen_env B g md" and room: "length (ui_pairs ui) \<le> 2"
  shows "no_ub (ui_order W B g ui md)"
    and "ui_order W B g ui md = Inr ui' \<Longrightarrow> order_shown W B g md ui ui'"
proof -
  from env have wf: "session_wf g md" by (simp add: screen_env_def)
  have "no_ub (ui_order W B g ui md) \<and> (\<forall>ui'. ui_order W B g ui md = Inr ui' \<longrightarrow> order_shown W B g md ui ui')"
  proof (cases "ctx_get_action ACTION_TYPE_BULK_ORDER g")
    case (Some a)
    show ?thesis
    proof (cases "get_order_request (bo_orders (act_bulk_order a)) (bo_order_count (act_bulk_order a)) get_limit_request")
      case lim: (Some lim)
      define lev where "lev = map_option act_update_leverage (ctx_get_action ACTION_TYPE_UPDATE_LEVERAGE g)"
      note run = ui_order_run [OF env room Some lim, of W, folded lev_def, unfolded Let_def]
      show ?thesis
      proof (cases "order_refused (act_bulk_order a) lev lim")
        case False
        then have "\<forall>u. lev = Some u \<longrightarrow> \<not> ul_is_cross u" by (auto simp: order_refused_def Let_def)
        with run False order_not_refused [OF False lim] session_lookup [OF wf Some] show ?thesis
          unfolding order_shown_def Let_def lev_def [symmetric] by (simp only: if_False no_ub_simps sum.inject) blast
      qed (simp add: run)
    qed (simp add: ui_order_def Some Let_def)
  qed (simp add: ui_order_def)
  then show "no_ub (ui_order W B g ui md)"
    and "ui_order W B g ui md = Inr ui' \<Longrightarrow> order_shown W B g md ui ui'"
    by blast+
qed

interpretation order_screen: ui_screen "ui_order W B" "screen_env B" for W B
proof unfold_locales
  fix g md and ui ui' :: s_ui_ctx
  assume env: "screen_env B g md" and room: "length (ui_pairs ui) \<le> 2"
  from ui_order_spec(1) [OF this] show "no_ub (ui_order W B g ui md)" .
  assume "ui_order W B g ui md = Inr ui'"
  from ui_order_spec(2) [OF env room this] show "screen_ok ui ui'"
    using env order_intent_length [of md W] le_trans [OF order_lines_length, of 9]
    by (auto simp: order_shown_def Let_def screen_ok_def screen_env_def session_wf_def)
qed

end
