(* ===== verification/Ui_Screens.thy ===== *)
theory Ui_Screens
  imports Ui_Review
begin

text \<open>
  The other screens (modify, cancel, cancel TP/SL, close, margin) and the whole of \<open>handle_ui\<close>: for
  each what it shows and how the stored actions relate to it, and the instance of \<open>ui_screen\<close>.
\<close>

section \<open>Closing a position\<close>

definition close_lines :: "byte_lib \<Rightarrow> s_action_metadata \<Rightarrow> s_order_request \<Rightarrow> (string \<times> string) list" where
  "close_lines B md r = [(''Position to close'', Side r @ '' - '' @ md_asset_ticker md)]
     @ margin_line B md @ leverage_line md @ [size_line md r]"

definition close_intent :: "bool \<Rightarrow> s_action_metadata \<Rightarrow> s_order_request \<Rightarrow> string" where
  "close_intent W md r = (if W then ''Close '' @ md_asset_ticker md @ '' '' @ side r @ '' position''
     else ''close '' @ side r @ '' position'')"

definition close_shown ::
  "bool \<Rightarrow> byte_lib \<Rightarrow> s_hl_context \<Rightarrow> s_action_metadata \<Rightarrow> s_ui_ctx \<Rightarrow> s_ui_ctx \<Rightarrow> bool" where
  "close_shown W B g md ui ui' \<longleftrightarrow> (\<exists>a r. a \<in> set (ctx_queue g) \<and> act_type a = ACTION_TYPE_BULK_ORDER \<and>
     bulk_orders (act_bulk_order a) = [r] \<and> get_limit_request r \<and> or_reduce_only r \<and>
     ui' = ui\<lparr>ui_pairs := ui_pairs ui @ close_lines B md r, ui_intent := close_intent W md r\<rparr>)"

lemma close_sizes:
  assumes "metadata_wf md"
  shows "snprintf close_operation_size (Side r @ '' - '' @ md_asset_ticker md) = Side r @ '' - '' @ md_asset_ticker md"
    "snprintf (INTENT_STRING_LENGTH + 1) (close_intent W md r) = close_intent W md r"
    "length (close_intent W md r) \<le> 81"
  using ticker_length [OF assms] side_length [of r]
  by (simp_all add: close_intent_def close_operation_size_def)

lemma ui_close_spec:
  assumes env: "screen_env B g md" and room: "length (ui_pairs ui) \<le> 2"
  shows "no_ub (ui_close W B g ui md) \<and> (\<forall>ui'. ui_close W B g ui md = Inr ui' \<longrightarrow> close_shown W B g md ui ui')"
proof (cases "ctx_get_action ACTION_TYPE_BULK_ORDER g")
  case a: (Some a)
  from env have wf: "session_wf g md" and B: "bytes_ok B" and md: "metadata_wf md"
    by (auto simp: screen_env_def session_wf_def)
  from session_lookup [OF wf a] have aw: "action_wf (Some md) a" "act_type a = ACTION_TYPE_BULK_ORDER"
    and mem: "a \<in> set (ctx_queue g)" by auto
  show ?thesis
  proof (cases "bo_order_count (act_bulk_order a) = 1 \<and>
      get_order_request (bo_orders (act_bulk_order a)) (bo_order_count (act_bulk_order a)) get_limit_request \<noteq> None")
    case True
    then obtain lim where lim: "get_order_request (bo_orders (act_bulk_order a))
        (bo_order_count (act_bulk_order a)) get_limit_request = Some lim" and one: "bo_order_count (act_bulk_order a) = 1"
      by auto
    obtain r where r: "bulk_orders (act_bulk_order a) = [r]"
      using bulk_orders_length [OF aw] one by (cases "bulk_orders (act_bulk_order a)") auto
    have "find get_limit_request (bulk_orders (act_bulk_order a)) = Some lim"
      using lim by (simp add: get_order_request_def bulk_orders_def)
    with r have single: "bulk_orders (act_bulk_order a) = [lim]" "get_limit_request lim"
      by (auto split: if_splits)
    have sz: "num_str (or_sz lim)" using order_found(2) [OF aw lim] by (simp add: order_wf_def)
    have run: "ui_close W B g ui md = (if \<not> or_reduce_only lim then Inl Reject
        else Inr (ui\<lparr>ui_pairs := ui_pairs ui @ close_lines B md lim, ui_intent := close_intent W md lim\<rparr>))"
      using a lim one room B md sz close_sizes(1) [OF md, of lim] close_sizes(2) [OF md, of W lim] margin_line_length(1) [of B md] margin_line_length(2) [of md]
      by (simp add: ui_close_def show_specs close_lines_def flip: close_intent_def)
    with single mem aw(2) show ?thesis by (auto simp: close_shown_def)
  qed (use a in \<open>auto simp: ui_close_def\<close>)
qed (simp add: ui_close_def)

section \<open>Cancellations\<close>

definition bulk_cancels :: "s_bulk_cancel \<Rightarrow> s_cancel_request list" where
  "bulk_cancels b = take (bc_cancel_count b) (bc_cancels b)"

definition oid_lines :: "byte_lib \<Rightarrow> s_cancel_request list \<Rightarrow> (string \<times> string) list" where
  "oid_lines B cs = map (\<lambda>c. (''Order ID'', oid_text B (cr_oid c))) cs"

definition cancel_lines ::
  "byte_lib \<Rightarrow> s_action_metadata \<Rightarrow> string \<Rightarrow> s_cancel_request list \<Rightarrow> (string \<times> string) list" where
  "cancel_lines B md op cs = [(''Operation'', op)] @ margin_line B md @ leverage_line md @ oid_lines B cs"

definition cancel_shown ::
  "byte_lib \<Rightarrow> s_hl_context \<Rightarrow> s_action_metadata \<Rightarrow> nat \<Rightarrow> string \<Rightarrow> string \<Rightarrow> s_ui_ctx \<Rightarrow> s_ui_ctx \<Rightarrow> bool" where
  "cancel_shown B g md n op intent ui ui' \<longleftrightarrow> (\<exists>a. a \<in> set (ctx_queue g) \<and> act_type a = ACTION_TYPE_BULK_CANCEL \<and>
     length (bulk_cancels (act_bulk_cancel a)) = n \<and>
     ui' = ui\<lparr>ui_pairs := ui_pairs ui @ cancel_lines B md op (bulk_cancels (act_bulk_cancel a)), ui_intent := intent\<rparr>)"

lemma show_cancel_oids_from_spec:
  "\<forall>i \<in> set is. i < 5 \<and> i < length (bc_cancels b) \<Longrightarrow> length (ui_pairs ui) + length is \<le> 16 \<Longrightarrow>
   show_cancel_oids_from B b is ui =
     Inr (ui\<lparr>ui_pairs := ui_pairs ui @ oid_lines B (map (\<lambda>i. bc_cancels b ! i) is)\<rparr>)"
  by (induction B b "is" ui rule: show_cancel_oids_from.induct) (simp_all add: oid_lines_def)

lemma show_cancel_oids_spec:
  assumes "action_wf (Some md) a" "act_type a = ACTION_TYPE_BULK_CANCEL" "length (ui_pairs ui) \<le> 11"
  shows "show_cancel_oids B (act_bulk_cancel a) ui =
     Inr (ui\<lparr>ui_pairs := ui_pairs ui @ oid_lines B (bulk_cancels (act_bulk_cancel a))\<rparr>)"
  using assms
  by (simp add: show_cancel_oids_def show_cancel_oids_from_spec action_wf_def bulk_cancel_wf_def bulk_cancels_def
      map_nth_upt_take)

definition cancel_intent :: "bool \<Rightarrow> s_action_metadata \<Rightarrow> string" where
  "cancel_intent W md = (if W then ''Cancel '' @ md_asset_ticker md @ '' order'' else ''cancel order'')"

definition target_name :: "bool \<Rightarrow> bool \<Rightarrow> bool \<Rightarrow> string" where
  "target_name W tp sl =
     (if tp \<and> sl then (if W then ''Take Profit and Stop Loss'' else ''TP/SL'')
      else if tp then (if W then ''Take Profit'' else ''TP'')
      else (if W then ''Stop Loss'' else ''SL''))"

lemma target_name_length: "length (target_name W tp sl) \<le> 25"
  by (simp add: target_name_def)

definition cancels_tp :: "e_operation_type \<Rightarrow> bool" where
  "cancels_tp op \<longleftrightarrow> op = OP_TYPE_CANCEL_TP \<or> op = OP_TYPE_CANCEL_TP_SL"

definition cancels_sl :: "e_operation_type \<Rightarrow> bool" where
  "cancels_sl op \<longleftrightarrow> op \<noteq> OP_TYPE_CANCEL_TP"

lemma cancel_target_name_spec: "cancel_target_name W op = target_name W (cancels_tp op) (cancels_sl op)"
  by (auto simp: cancel_target_name_def target_name_def cancels_tp_def cancels_sl_def)

lemma modify_target_name_spec:
  "tp \<noteq> None \<or> sl \<noteq> None \<Longrightarrow> modify_target_name W tp sl = target_name W (tp \<noteq> None) (sl \<noteq> None)"
  by (auto simp: modify_target_name_def target_name_def)

definition cancel_tp_sl_intent :: "bool \<Rightarrow> s_action_metadata \<Rightarrow> string" where
  "cancel_tp_sl_intent W md =
     (let target = target_name W (cancels_tp (md_op_type md)) (cancels_sl (md_op_type md)) in
      if W then ''Cancel '' @ md_asset_ticker md @ '' '' @ target else ''cancel '' @ target)"

definition cancel_tp_sl_op :: "bool \<Rightarrow> s_action_metadata \<Rightarrow> string" where
  "cancel_tp_sl_op W md = ''Cancel order - '' @ md_asset_ticker md @ '' ''
     @ target_name W (cancels_tp (md_op_type md)) (cancels_sl (md_op_type md))"

lemma cancel_sizes:
  assumes "metadata_wf md"
  shows "snprintf cancel_operation_size (''Cancel order - '' @ md_asset_ticker md) = ''Cancel order - '' @ md_asset_ticker md"
    "snprintf cancel_operation_size (cancel_tp_sl_op W md) = cancel_tp_sl_op W md"
    "snprintf (INTENT_STRING_LENGTH + 1) (cancel_intent W md) = cancel_intent W md"
    "snprintf (INTENT_STRING_LENGTH + 1) (cancel_tp_sl_intent W md) = cancel_tp_sl_intent W md"
    "length (cancel_intent W md) \<le> 81" "length (cancel_tp_sl_intent W md) \<le> 81"
proof -
  note len = ticker_length [OF assms] target_name_length [of W "cancels_tp (md_op_type md)" "cancels_sl (md_op_type md)"]
  show "snprintf cancel_operation_size (''Cancel order - '' @ md_asset_ticker md) = ''Cancel order - '' @ md_asset_ticker md"
    using len by (simp add: cancel_operation_size_def)
  show "snprintf cancel_operation_size (cancel_tp_sl_op W md) = cancel_tp_sl_op W md"
    using len by (simp add: cancel_operation_size_def cancel_tp_sl_op_def)
  show intent: "length (cancel_intent W md) \<le> 81"
    using len by (simp add: cancel_intent_def)
  show intent_tp_sl: "length (cancel_tp_sl_intent W md) \<le> 81"
    using len by (cases W) (simp_all add: cancel_tp_sl_intent_def Let_def)
  from intent show "snprintf (INTENT_STRING_LENGTH + 1) (cancel_intent W md) = cancel_intent W md" by simp
  from intent_tp_sl show "snprintf (INTENT_STRING_LENGTH + 1) (cancel_tp_sl_intent W md) = cancel_tp_sl_intent W md" by simp
qed

lemma bulk_cancels_length:
  "action_wf (Some md) a \<Longrightarrow> act_type a = ACTION_TYPE_BULK_CANCEL \<Longrightarrow>
   length (bulk_cancels (act_bulk_cancel a)) = bc_cancel_count (act_bulk_cancel a)"
  by (simp add: action_wf_def bulk_cancel_wf_def bulk_cancels_def)

lemma ui_cancel_spec:
  assumes env: "screen_env B g md" and room: "length (ui_pairs ui) \<le> 2"
  shows "no_ub (ui_cancel W B g ui md) \<and> (\<forall>ui'. ui_cancel W B g ui md = Inr ui' \<longrightarrow>
     cancel_shown B g md 1 (''Cancel order - '' @ md_asset_ticker md) (cancel_intent W md) ui ui')"
proof (cases "ctx_get_action ACTION_TYPE_BULK_CANCEL g")
  case a: (Some a)
  from env have wf: "session_wf g md" and B: "bytes_ok B" and md: "metadata_wf md"
    by (auto simp: screen_env_def session_wf_def)
  from session_lookup [OF wf a] have aw: "action_wf (Some md) a" "act_type a = ACTION_TYPE_BULK_CANCEL"
    and mem: "a \<in> set (ctx_queue g)" by auto
  have run: "ui_cancel W B g ui md = (if bc_cancel_count (act_bulk_cancel a) \<noteq> 1 then Inl Reject
      else Inr (ui\<lparr>ui_pairs := ui_pairs ui
             @ cancel_lines B md (''Cancel order - '' @ md_asset_ticker md) (bulk_cancels (act_bulk_cancel a)),
             ui_intent := cancel_intent W md\<rparr>))"
    using a room B md aw cancel_sizes(1) [OF md] cancel_sizes(3) [OF md, of W] margin_line_length(1) [of B md] margin_line_length(2) [of md]
    by (simp add: ui_cancel_def show_specs show_cancel_oids_spec cancel_lines_def flip: cancel_intent_def)
  show ?thesis using bulk_cancels_length [OF aw] mem aw(2) unfolding run by (auto simp: cancel_shown_def)
qed (simp add: ui_cancel_def)

lemma ui_cancel_tp_sl_spec:
  assumes env: "screen_env B g md" and room: "length (ui_pairs ui) \<le> 2"
  shows "no_ub (ui_cancel_tp_sl W B g ui md) \<and> (\<forall>ui'. ui_cancel_tp_sl W B g ui md = Inr ui' \<longrightarrow>
     cancel_shown B g md (if md_op_type md = OP_TYPE_CANCEL_TP_SL then 2 else 1) (cancel_tp_sl_op W md)
       (cancel_tp_sl_intent W md) ui ui')"
proof (cases "ctx_get_action ACTION_TYPE_BULK_CANCEL g")
  case a: (Some a)
  from env have wf: "session_wf g md" and B: "bytes_ok B" and md: "metadata_wf md"
    by (auto simp: screen_env_def session_wf_def)
  from session_lookup [OF wf a] have aw: "action_wf (Some md) a" "act_type a = ACTION_TYPE_BULK_CANCEL"
    and mem: "a \<in> set (ctx_queue g)" by auto
  have run: "ui_cancel_tp_sl W B g ui md =
     (if bc_cancel_count (act_bulk_cancel a) \<noteq> (if md_op_type md = OP_TYPE_CANCEL_TP_SL then 2 else 1)
      then Inl Reject
      else Inr (ui\<lparr>ui_pairs := ui_pairs ui @ cancel_lines B md (cancel_tp_sl_op W md) (bulk_cancels (act_bulk_cancel a)),
             ui_intent := cancel_tp_sl_intent W md\<rparr>))"
    using a room B md aw cancel_sizes(2,4) [OF md, of W, unfolded cancel_tp_sl_op_def cancel_tp_sl_intent_def Let_def] margin_line_length(1) [of B md] margin_line_length(2) [of md]
    unfolding ui_cancel_tp_sl_def cancel_target_name_spec Let_def
    by (cases "bc_cancel_count (act_bulk_cancel a) = (if md_op_type md = OP_TYPE_CANCEL_TP_SL then 2 else 1)")
      (simp_all add: show_specs show_cancel_oids_spec cancel_lines_def cancel_tp_sl_op_def cancel_tp_sl_intent_def Let_def
        split del: if_split)
  show ?thesis using bulk_cancels_length [OF aw] mem aw(2) unfolding run by (auto simp: cancel_shown_def)
qed (simp add: ui_cancel_tp_sl_def)

section \<open>Updating a margin\<close>

definition margin_lines :: "byte_lib \<Rightarrow> s_action_metadata \<Rightarrow> s_update_isolated_margin \<Rightarrow> (string \<times> string) list" where
  "margin_lines B md u =
     [(''Active Position'', (if um_is_buy u then ''Long'' else ''Short'') @ '' - '' @ md_asset_ticker md),
      (''New Margin'', usdc (margin_text B (margin_magnitude (um_ntli u))))] @ leverage_line md"

definition margin_intent :: "bool \<Rightarrow> s_action_metadata \<Rightarrow> s_update_isolated_margin \<Rightarrow> string" where
  "margin_intent W md u =
     (let remove = sint (um_ntli u) < 0 in
      if W then (if remove then ''Remove'' else ''Add'') @ '' Margin '' @ (if remove then ''from'' else ''to'')
             @ '' '' @ md_asset_ticker md @ '' '' @ (if um_is_buy u then ''Long'' else ''Short'')
      else (if remove then ''remove'' else ''add'') @ '' margin '' @ (if remove then ''from'' else ''to'')
             @ '' '' @ (if um_is_buy u then ''long'' else ''short''))"

definition margin_shown ::
  "bool \<Rightarrow> byte_lib \<Rightarrow> s_hl_context \<Rightarrow> s_action_metadata \<Rightarrow> s_ui_ctx \<Rightarrow> s_ui_ctx \<Rightarrow> bool" where
  "margin_shown W B g md ui ui' \<longleftrightarrow> (\<exists>a. a \<in> set (ctx_queue g) \<and> act_type a = ACTION_TYPE_UPDATE_ISOLATED_MARGIN \<and>
     ui' = ui\<lparr>ui_pairs := ui_pairs ui @ margin_lines B md (act_update_isolated_margin a),
             ui_intent := margin_intent W md (act_update_isolated_margin a)\<rparr>)"

text \<open>The unsigned negation yields the magnitude, for the least 64-bit integer too.\<close>

lemma margin_magnitude_abs: "int (unat (margin_magnitude n)) = \<bar>sint n\<bar>"
proof -
  have "sint n = uint n - 2 ^ 64 * of_bool (bit (uint n) 63)"
    using take_bit_int_eq_self [of "uint n" 64] uint_lt2p [of n]
    by (simp add: sint_uint signed_take_bit_eq_take_bit_minus)
  then have either: "sint n = uint n - 18446744073709551616 \<or> sint n = uint n"
    by (cases "bit (uint n) 63") simp_all
  have range: "0 \<le> uint n" "uint n < 18446744073709551616" "- 9223372036854775808 \<le> sint n"
    using uint_lt2p [of n] sint_ge [of n] by simp_all
  show ?thesis
  proof (cases "sint n < 0")
    case True
    with either range have eq: "uint n = sint n + 18446744073709551616" by linarith
    have "uint (- n) = - uint n mod 18446744073709551616" by (simp add: uint_word_ariths)
    also have "\<dots> = - sint n"
    proof -
      have "(- sint n - 18446744073709551616) mod 18446744073709551616 = - sint n mod 18446744073709551616"
        by (rule minus_mod_self2)
      moreover have "- sint n mod 18446744073709551616 = - sint n"
        using True eq range by (intro mod_pos_pos_trivial) linarith+
      moreover have "- uint n = - sint n - 18446744073709551616" using eq by linarith
      ultimately show ?thesis by simp
    qed
    finally show ?thesis using True by (simp add: margin_magnitude_def)
  next
    case False
    with either range have "uint n = sint n" by linarith
    with False show ?thesis by (simp add: margin_magnitude_def)
  qed
qed

lemma margin_sizes:
  assumes "metadata_wf md"
  shows "snprintf close_operation_size ((if um_is_buy u then ''Long'' else ''Short'') @ '' - '' @ md_asset_ticker md)
      = (if um_is_buy u then ''Long'' else ''Short'') @ '' - '' @ md_asset_ticker md"
    "snprintf (INTENT_STRING_LENGTH + 1) (margin_intent W md u) = margin_intent W md u"
    "length (margin_intent W md u) \<le> 81"
proof -
  have len: "length (md_asset_ticker md) \<le> 48" using assms by (rule ticker_length)
  then show "snprintf close_operation_size ((if um_is_buy u then ''Long'' else ''Short'') @ '' - '' @ md_asset_ticker md)
      = (if um_is_buy u then ''Long'' else ''Short'') @ '' - '' @ md_asset_ticker md"
    by (cases "um_is_buy u") (simp_all add: close_operation_size_def)
  show intent: "length (margin_intent W md u) \<le> 81"
    using len by (cases W; cases "um_is_buy u"; cases "sint (um_ntli u) < 0") (simp_all add: margin_intent_def Let_def)
  then show "snprintf (INTENT_STRING_LENGTH + 1) (margin_intent W md u) = margin_intent W md u" by simp
qed

lemma ui_update_margin_spec:
  assumes env: "screen_env B g md" and room: "length (ui_pairs ui) \<le> 2"
  shows "no_ub (ui_update_margin W B g ui md) \<and>
    (\<forall>ui'. ui_update_margin W B g ui md = Inr ui' \<longrightarrow> margin_shown W B g md ui ui')"
proof (cases "ctx_get_action ACTION_TYPE_UPDATE_ISOLATED_MARGIN g")
  case a: (Some a)
  let ?u = "act_update_isolated_margin a"
  from env have wf: "session_wf g md" and B: "bytes_ok B" and md: "metadata_wf md"
    by (auto simp: screen_env_def session_wf_def)
  have money: "snprintf (MARGIN_STRING_LENGTH + 1) (margin_text B (margin_magnitude (um_ntli ?u)) @ '' '' @ COUNTERVALUE_TICKER)
      = usdc (margin_text B (margin_magnitude (um_ntli ?u)))"
    using margin_text_length [OF B, of "margin_magnitude (um_ntli ?u)"] by (simp add: usdc_def)
  have run: "ui_update_margin W B g ui md =
      Inr (ui\<lparr>ui_pairs := ui_pairs ui @ margin_lines B md ?u, ui_intent := margin_intent W md ?u\<rparr>)"
    using room margin_sizes(1) [OF md, of ?u] margin_sizes(2) [OF md, of W ?u, unfolded margin_intent_def Let_def]
    unfolding ui_update_margin_def Let_def a of_opt_simps rbind_simps money
    by (simp add: show_metadata_leverage_spec margin_lines_def margin_intent_def Let_def split del: if_split)
  show ?thesis using session_lookup [OF wf a] unfolding run by (auto simp: margin_shown_def)
qed (simp add: ui_update_margin_def)

section \<open>Modifications\<close>

definition bulk_modifies :: "s_bulk_modify \<Rightarrow> s_modify_request list" where
  "bulk_modifies b = take (bm_modify_count b) (bm_modifies b)"

lemma partition2:
  assumes "\<And>x. \<not> (P x \<and> Q x)" "length (filter P xs) \<le> 1" "length (filter Q xs) \<le> 1"
    and "length xs = of_bool (find P xs \<noteq> None) + of_bool (find Q xs \<noteq> None)"
  shows "mset xs = opt_mset (find P xs) + opt_mset (find Q xs)"
proof -
  have found: "length (filter R xs) = of_bool (find R xs \<noteq> None)" if "length (filter R xs) \<le> 1" for R
  proof (cases "find R xs")
    case None
    with find_unique [OF that] show ?thesis by simp
  next
    case (Some x)
    with find_unique [OF that] have "mset (filter R xs) = {#x#}" by simp
    then have "length (filter R xs) = 1" by (metis size_mset size_single)
    with Some show ?thesis by simp
  qed
  have sum: "length (filter (\<lambda>x. P x \<or> Q x) ys) = length (filter P ys) + length (filter Q ys)" for ys
    using assms(1) by (induction ys) auto
  have "length (filter (\<lambda>x. P x \<or> Q x) xs) = length xs"
    using found [OF assms(2)] found [OF assms(3)] assms(4) by (simp add: sum)
  then have "\<forall>x \<in> set xs. P x \<or> Q x"
    by (metis (mono_tags, lifting) length_filter_less less_irrefl)
  then have "mset xs = mset (filter P xs) + mset (filter Q xs)"
    using assms(1) by (induction xs) auto
  then show ?thesis
    using find_unique [OF assms(2)] find_unique [OF assms(3)] by (simp add: opt_mset_def)
qed

text \<open>The triggers of a modify screen are all the action holds, and can only close a position.\<close>

definition modify_review :: "s_action \<Rightarrow> modify_targets \<Rightarrow> bool" where
  "modify_review a t \<longleftrightarrow>
     (if act_type a = ACTION_TYPE_BULK_MODIFY then
        mset (bulk_modifies (act_bulk_modify a)) = opt_mset (mt_mod_tp t) + opt_mset (mt_mod_sl t) \<and>
        mt_tp t = map_option mr_order (mt_mod_tp t) \<and> mt_sl t = map_option mr_order (mt_mod_sl t)
      else act_type a = ACTION_TYPE_BULK_ORDER \<and> mt_mod_tp t = None \<and> mt_mod_sl t = None \<and>
        mset (bulk_orders (act_bulk_order a)) = opt_mset (mt_tp t) + opt_mset (mt_sl t)) \<and>
     (mt_tp t \<noteq> None \<or> mt_sl t \<noteq> None) \<and>
     (\<forall>r. mt_tp t = Some r \<longrightarrow> get_trigger_tp r \<and> check_trigger_close_order r) \<and>
     (\<forall>r. mt_sl t = Some r \<longrightarrow> get_trigger_sl r \<and> check_trigger_close_order r) \<and>
     (\<forall>r s. mt_tp t = Some r \<longrightarrow> mt_sl t = Some s \<longrightarrow> or_sz r = or_sz s)"

definition modify_selected :: "s_action \<Rightarrow> modify_targets \<Rightarrow> bool" where
  "modify_selected a t \<longleftrightarrow>
     (if act_type a = ACTION_TYPE_BULK_MODIFY then
        mset (bulk_modifies (act_bulk_modify a)) = opt_mset (mt_mod_tp t) + opt_mset (mt_mod_sl t) \<and>
        mt_tp t = map_option mr_order (mt_mod_tp t) \<and> mt_sl t = map_option mr_order (mt_mod_sl t)
      else act_type a = ACTION_TYPE_BULK_ORDER \<and> mt_mod_tp t = None \<and> mt_mod_sl t = None \<and>
        mset (bulk_orders (act_bulk_order a)) = opt_mset (mt_tp t) + opt_mset (mt_sl t)) \<and>
     (\<forall>r. mt_tp t = Some r \<longrightarrow> get_trigger_tp r) \<and> (\<forall>r. mt_sl t = Some r \<longrightarrow> get_trigger_sl r)"

lemma count_modify_requests_filter: "count_modify_requests xs n m = length (filter m (take n xs))"
proof -
  have "fold (\<lambda>r k. if m r then k + 1 else k) ys k = k + length (filter m ys)" for ys :: "s_modify_request list" and k
    by (induction ys arbitrary: k) auto
  then show ?thesis by (simp add: count_modify_requests_def)
qed

lemma modify_kinds: "get_modify_tp m = get_trigger_tp (mr_order m)" "get_modify_sl m = get_trigger_sl (mr_order m)"
  by (simp_all add: get_modify_tp_def get_modify_sl_def get_trigger_tp_def get_trigger_sl_def)

lemma modify_select_no_ub: "no_ub (modify_select a)"
  by (simp add: modify_select_def Let_def split: e_action_type.splits)

lemma bulk_modifies_length:
  "action_wf (Some md) a \<Longrightarrow> act_type a = ACTION_TYPE_BULK_MODIFY \<Longrightarrow>
   length (bulk_modifies (act_bulk_modify a)) = bm_modify_count (act_bulk_modify a)"
  by (simp add: action_wf_def bulk_modify_wf_def bulk_modifies_def)

lemma modify_select_modify:
  assumes wf: "action_wf (Some md) a" and ty: "act_type a = ACTION_TYPE_BULK_MODIFY"
    and sel: "modify_select a = Inr t"
  shows "modify_selected a t"
proof -
  let ?ms = "bulk_modifies (act_bulk_modify a)"
  from sel ty have t: "t = \<lparr>mt_tp = map_option mr_order (find get_modify_tp ?ms),
      mt_sl = map_option mr_order (find get_modify_sl ?ms),
      mt_mod_tp = find get_modify_tp ?ms, mt_mod_sl = find get_modify_sl ?ms\<rparr>"
    and c: "length (filter get_modify_tp ?ms) \<le> 1" "length (filter get_modify_sl ?ms) \<le> 1"
    and n: "bm_modify_count (act_bulk_modify a)
      = of_bool (find get_modify_tp ?ms \<noteq> None) + of_bool (find get_modify_sl ?ms \<noteq> None)"
    by (auto simp: modify_select_def Let_def bulk_modifies_def get_modify_request_def
        count_modify_requests_filter split: if_splits)
  have "mset ?ms = opt_mset (find get_modify_tp ?ms) + opt_mset (find get_modify_sl ?ms)"
    using c n bulk_modifies_length [OF wf ty] order_kinds(2)
    by (intro partition2) (simp_all add: modify_kinds)
  then show ?thesis
    using ty by (auto simp: modify_selected_def t modify_kinds [symmetric] dest: find_Some_in)
qed

lemma modify_select_order:
  assumes wf: "action_wf (Some md) a" and ty: "act_type a = ACTION_TYPE_BULK_ORDER"
    and sel: "modify_select a = Inr t"
  shows "modify_selected a t"
proof -
  let ?os = "bulk_orders (act_bulk_order a)"
  from sel ty have t: "t = \<lparr>mt_tp = find get_trigger_tp ?os, mt_sl = find get_trigger_sl ?os,
      mt_mod_tp = None, mt_mod_sl = None\<rparr>"
    and c: "length (filter get_trigger_tp ?os) \<le> 1" "length (filter get_trigger_sl ?os) \<le> 1"
    and n: "bo_order_count (act_bulk_order a)
      = of_bool (find get_trigger_tp ?os \<noteq> None) + of_bool (find get_trigger_sl ?os \<noteq> None)"
    by (auto simp: modify_select_def Let_def bulk_orders_def get_order_request_def
        count_order_requests_filter split: if_splits)
  have "mset ?os = opt_mset (find get_trigger_tp ?os) + opt_mset (find get_trigger_sl ?os)"
    using c n bulk_orders_length [OF wf ty] order_kinds(2) by (intro partition2) simp_all
  then show ?thesis
    using ty by (auto simp: modify_selected_def t dest: find_Some_in)
qed

lemma modify_select_spec:
  assumes "action_wf (Some md) a" "modify_select a = Inr t"
  shows "modify_selected a t"
proof -
  from assms(2) consider "act_type a = ACTION_TYPE_BULK_MODIFY" | "act_type a = ACTION_TYPE_BULK_ORDER"
    by (cases "act_type a") (simp_all add: modify_select_def)
  then show ?thesis
    using modify_select_modify modify_select_order assms by cases blast+
qed

text \<open>Selected triggers are orders of the action, hence well formed.\<close>

lemma modify_target_wf:
  assumes wf: "action_wf (Some md) a" and sel: "modify_selected a t" and r: "mt_tp t = Some r \<or> mt_sl t = Some r"
  shows "order_wf (md_asset_id md) r"
proof (cases "act_type a = ACTION_TYPE_BULK_MODIFY")
  case True
  with sel r obtain m where "mt_mod_tp t = Some m \<or> mt_mod_sl t = Some m" and m: "r = mr_order m"
    by (auto simp: modify_selected_def)
  then have "m \<in># opt_mset (mt_mod_tp t) + opt_mset (mt_mod_sl t)" by auto
  then have "m \<in> set (bulk_modifies (act_bulk_modify a))"
    using sel True by (simp add: modify_selected_def flip: set_mset_mset)
  with wf True m show ?thesis
    by (auto simp: action_wf_def bulk_modify_wf_def bulk_modifies_def list_all_iff order_wf_md_def)
next
  case False
  with sel r have "r \<in> set (bulk_orders (act_bulk_order a))" "act_type a = ACTION_TYPE_BULK_ORDER"
    by (auto simp: modify_selected_def simp flip: set_mset_mset)
  with wf show ?thesis
    by (auto simp: action_wf_def bulk_order_wf_def bulk_orders_def list_all_iff order_wf_md_def)
qed

definition trigger_lines ::
  "byte_lib \<Rightarrow> bool \<Rightarrow> string \<Rightarrow> string \<Rightarrow> string \<Rightarrow> s_order_request option \<Rightarrow> s_modify_request option \<Rightarrow>
   (string \<times> string) list" where
  "trigger_lines B is_modify new_item item oid_item r m =
     price_line (if is_modify then new_item else item) r
     @ (case m of None \<Rightarrow> [] | Some q \<Rightarrow> [(oid_item, oid_text B (mr_oid q))])"

definition modify_any :: "modify_targets \<Rightarrow> s_order_request" where
  "modify_any t = (if mt_tp t = None then the (mt_sl t) else the (mt_tp t))"

definition modify_lines ::
  "byte_lib \<Rightarrow> s_action_metadata \<Rightarrow> bool \<Rightarrow> modify_targets \<Rightarrow> (string \<times> string) list" where
  "modify_lines B md is_modify t =
     [(''Active Position'', ''Market '' @ Side (modify_any t) @ '' - '' @ md_asset_ticker md)]
     @ margin_line B md @ leverage_line md @ [size_line md (modify_any t)]
     @ trigger_lines B is_modify ''New Take Profit'' ''Take Profit'' ''TP Order ID'' (mt_tp t) (mt_mod_tp t)
     @ trigger_lines B is_modify ''New Stop Loss'' ''Stop Loss'' ''SL Order ID'' (mt_sl t) (mt_mod_sl t)"

definition modify_intent :: "bool \<Rightarrow> s_action_metadata \<Rightarrow> e_action_type \<Rightarrow> modify_targets \<Rightarrow> string" where
  "modify_intent W md ty t =
     (let target = target_name W (mt_tp t \<noteq> None) (mt_sl t \<noteq> None) in
      if W then (if ty = ACTION_TYPE_BULK_ORDER then ''Set'' else ''Edit'') @ '' '' @ md_asset_ticker md @ '' '' @ target
      else (if ty = ACTION_TYPE_BULK_ORDER then ''set'' else ''edit'') @ '' '' @ target)"

definition modify_shown ::
  "bool \<Rightarrow> byte_lib \<Rightarrow> s_hl_context \<Rightarrow> s_action_metadata \<Rightarrow> s_ui_ctx \<Rightarrow> s_ui_ctx \<Rightarrow> bool" where
  "modify_shown W B g md ui ui' \<longleftrightarrow> (\<exists>a t. a \<in> set (ctx_queue g) \<and> modify_review a t \<and>
     ui' = ui\<lparr>ui_pairs := ui_pairs ui @ modify_lines B md (act_type a = ACTION_TYPE_BULK_MODIFY) t,
             ui_intent := modify_intent W md (act_type a) t\<rparr>)"

lemma modify_sizes:
  assumes "metadata_wf md"
  shows "snprintf order_operation_size (''Market '' @ Side r @ '' - '' @ md_asset_ticker md)
      = ''Market '' @ Side r @ '' - '' @ md_asset_ticker md"
    "length (modify_intent W md ty t) \<le> 81"
    "snprintf (INTENT_STRING_LENGTH + 1) (modify_intent W md ty t) = modify_intent W md ty t"
proof -
  have len: "length (md_asset_ticker md) \<le> 48" using assms by (rule ticker_length)
  then show "snprintf order_operation_size (''Market '' @ Side r @ '' - '' @ md_asset_ticker md)
      = ''Market '' @ Side r @ '' - '' @ md_asset_ticker md"
    using side_length(2) [of r] by (intro snprintf_fits) (simp add: order_operation_size_def)
  show intent: "length (modify_intent W md ty t) \<le> 81"
    using len target_name_length [of W "mt_tp t \<noteq> None" "mt_sl t \<noteq> None"]
    by (cases W; cases "ty = ACTION_TYPE_BULK_ORDER") (simp_all add: modify_intent_def Let_def)
  then show "snprintf (INTENT_STRING_LENGTH + 1) (modify_intent W md ty t) = modify_intent W md ty t" by simp
qed

lemma trigger_lines_length: "length (trigger_lines B f n i oi r m) \<le> 2"
  using price_line_length(1) [of n r] price_line_length(1) [of i r]
  by (simp add: trigger_lines_def split: option.splits)

lemma show_trigger_spec:
  assumes "length (ui_pairs ui) < 15" "px_ok r" "if f then r = map_option mr_order m else m = None"
  shows "show_trigger B f n i oi r m ui = Inr (ui\<lparr>ui_pairs := ui_pairs ui @ trigger_lines B f n i oi r m\<rparr>)"
  using assms price_line_length(1) [of n r] price_line_length(1) [of i r]
  by (cases m) (auto simp: show_trigger_def show_trigger_price_spec trigger_lines_def)

lemma ui_modify_run:
  assumes env: "screen_env B g md" and room: "length (ui_pairs ui) \<le> 2"
    and a: "(case ctx_get_action ACTION_TYPE_BULK_MODIFY g of
               None \<Rightarrow> ctx_get_action ACTION_TYPE_BULK_ORDER g | Some a \<Rightarrow> Some a) = Some a"
    and wf: "action_wf (Some md) a" and sel: "modify_select a = Inr t"
  shows "ui_modify W B g ui md =
    (if mt_tp t = None \<and> mt_sl t = None then Inl Reject
     else if trigger_not_close (mt_tp t) \<or> trigger_not_close (mt_sl t) \<or> sizes_differ (mt_tp t) (mt_sl t)
     then Inl Reject
     else Inr (ui\<lparr>ui_pairs := ui_pairs ui @ modify_lines B md (act_type a = ACTION_TYPE_BULK_MODIFY) t,
             ui_intent := modify_intent W md (act_type a) t\<rparr>))"
proof (cases "mt_tp t = None \<and> mt_sl t = None")
  case True
  then show ?thesis using a sel by (simp add: ui_modify_def Let_def)
next
  case False
  from env have B: "bytes_ok B" and md: "metadata_wf md" by (auto simp: screen_env_def session_wf_def)
  have seld: "modify_selected a t" using modify_select_spec [OF wf sel] .
  have any: "mt_tp t = Some (modify_any t) \<or> mt_sl t = Some (modify_any t)"
    using False by (auto simp: modify_any_def)
  have wfs: "order_wf (md_asset_id md) r" if "mt_tp t = Some r \<or> mt_sl t = Some r" for r
    using modify_target_wf [OF wf seld that] .
  have sz: "num_str (or_sz (modify_any t))" using wfs [OF any] by (simp add: order_wf_def)
  have px: "px_ok (mt_tp t)" "px_ok (mt_sl t)"
    using wfs seld by (auto simp: px_ok_def order_wf_def modify_selected_def get_trigger_tp_def get_trigger_sl_def)
  have mods: "if act_type a = ACTION_TYPE_BULK_MODIFY then mt_tp t = map_option mr_order (mt_mod_tp t) else mt_mod_tp t = None"
    "if act_type a = ACTION_TYPE_BULK_MODIFY then mt_sl t = map_option mr_order (mt_mod_sl t) else mt_mod_sl t = None"
    using seld by (auto simp: modify_selected_def)
  define f where "f \<longleftrightarrow> act_type a = ACTION_TYPE_BULK_MODIFY"
  note lens = margin_line_length(1) [of B md] margin_line_length(2) [of md]
    trigger_lines_length [of B f "''New Take Profit''" "''Take Profit''" "''TP Order ID''" "mt_tp t" "mt_mod_tp t"]
    trigger_lines_length [of B f "''New Stop Loss''" "''Stop Loss''" "''SL Order ID''" "mt_sl t" "mt_mod_sl t"]
  note intent = modify_sizes(3) [OF md, of W "act_type a" t, unfolded modify_intent_def Let_def]
  have target: "modify_target_name W (mt_tp t) (mt_sl t) = target_name W (mt_tp t \<noteq> None) (mt_sl t \<noteq> None)"
    using False by (intro modify_target_name_spec) auto
  note shown = show_trigger_spec [OF _ px(1), of _ f "mt_mod_tp t"] show_trigger_spec [OF _ px(2), of _ f "mt_mod_sl t"]
  show ?thesis
    unfolding ui_modify_def a sel of_opt_simps rbind_simps Let_def modify_any_def [symmetric] target
      short_long_side str_arg_simps modify_sizes(1) [OF md] intent f_def [symmetric]
    using room B md sz mods [folded f_def] lens
    by (cases "trigger_not_close (mt_tp t) \<or> trigger_not_close (mt_sl t) \<or> sizes_differ (mt_tp t) (mt_sl t)")
      (simp_all only: if_True if_False False,
       simp add: show_specs shown modify_lines_def modify_intent_def Let_def del: not_None_eq split del: if_split)
qed

lemma modify_not_refused:
  assumes "modify_selected a t" "\<not> (mt_tp t = None \<and> mt_sl t = None)"
    and "\<not> (trigger_not_close (mt_tp t) \<or> trigger_not_close (mt_sl t) \<or> sizes_differ (mt_tp t) (mt_sl t))"
  shows "modify_review a t"
  using assms by (auto simp: modify_review_def modify_selected_def trigger_not_close_def sizes_differ_def)

lemma ui_modify_spec:
  assumes env: "screen_env B g md" and room: "length (ui_pairs ui) \<le> 2"
  shows "no_ub (ui_modify W B g ui md) \<and> (\<forall>ui'. ui_modify W B g ui md = Inr ui' \<longrightarrow> modify_shown W B g md ui ui')"
proof -
  define look where "look = (case ctx_get_action ACTION_TYPE_BULK_MODIFY g of
      None \<Rightarrow> ctx_get_action ACTION_TYPE_BULK_ORDER g | Some a \<Rightarrow> Some a)"
  show ?thesis
  proof (cases look)
    case None
    then show ?thesis by (simp add: ui_modify_def look_def [symmetric])
  next
    case (Some a)
    from env have wf: "session_wf g md" by (simp add: screen_env_def)
    from Some have "ctx_get_action ACTION_TYPE_BULK_MODIFY g = Some a \<or> ctx_get_action ACTION_TYPE_BULK_ORDER g = Some a"
      by (auto simp: look_def split: option.splits)
    then have mem: "a \<in> set (ctx_queue g)" "action_wf (Some md) a" using session_lookup [OF wf] by auto
    show ?thesis
    proof (cases "modify_select a")
      case (Inl e)
      with modify_select_no_ub [of a] Some show ?thesis by (simp add: ui_modify_def look_def [symmetric])
    next
      case (Inr t)
      have run: "ui_modify W B g ui md =
        (if mt_tp t = None \<and> mt_sl t = None then Inl Reject
         else if trigger_not_close (mt_tp t) \<or> trigger_not_close (mt_sl t) \<or> sizes_differ (mt_tp t) (mt_sl t)
         then Inl Reject
         else Inr (ui\<lparr>ui_pairs := ui_pairs ui @ modify_lines B md (act_type a = ACTION_TYPE_BULK_MODIFY) t,
                 ui_intent := modify_intent W md (act_type a) t\<rparr>))"
        using Some by (intro ui_modify_run [OF env room _ mem(2) Inr]) (simp add: look_def)
      show ?thesis
      proof (cases "(mt_tp t = None \<and> mt_sl t = None) \<or>
          (trigger_not_close (mt_tp t) \<or> trigger_not_close (mt_sl t) \<or> sizes_differ (mt_tp t) (mt_sl t))")
        case False
        then have "modify_review a t" using modify_not_refused [OF modify_select_spec [OF mem(2) Inr]] by blast
        moreover have "ui_modify W B g ui md =
            Inr (ui\<lparr>ui_pairs := ui_pairs ui @ modify_lines B md (act_type a = ACTION_TYPE_BULK_MODIFY) t,
                 ui_intent := modify_intent W md (act_type a) t\<rparr>)"
          using False unfolding run by presburger
        ultimately show ?thesis using mem(1) unfolding modify_shown_def by (simp only: no_ub_simps sum.inject) blast
      qed (auto simp: run)
    qed
  qed
qed

section \<open>Every screen meets the contract\<close>

lemma lines_lengths:
  "length (close_lines B md r) \<le> 9" "length (margin_lines B md u) \<le> 9" "length (modify_lines B md f t) \<le> 9"
  "length cs \<le> 2 \<Longrightarrow> length (cancel_lines B md op cs) \<le> 9"
proof -
  note len = margin_line_length(1) [of B md] margin_line_length(2) [of md]
    trigger_lines_length [of B f "''New Take Profit''" "''Take Profit''" "''TP Order ID''" "mt_tp t" "mt_mod_tp t"]
    trigger_lines_length [of B f "''New Stop Loss''" "''Stop Loss''" "''SL Order ID''" "mt_sl t" "mt_mod_sl t"]
  show "length (close_lines B md r) \<le> 9" "length (margin_lines B md u) \<le> 9" "length (modify_lines B md f t) \<le> 9"
    "length cs \<le> 2 \<Longrightarrow> length (cancel_lines B md op cs) \<le> 9"
    using len by (simp_all add: close_lines_def margin_lines_def modify_lines_def cancel_lines_def oid_lines_def)
qed

lemma screen_env_metadata: "screen_env B g md \<Longrightarrow> metadata_wf md"
  by (simp add: screen_env_def session_wf_def)

interpretation modify_screen: ui_screen "ui_modify W B" "screen_env B" for W B
proof unfold_locales
  fix g md and ui ui' :: s_ui_ctx
  assume env: "screen_env B g md" and room: "length (ui_pairs ui) \<le> 2"
  note spec = ui_modify_spec [OF this, of W]
  from spec show "no_ub (ui_modify W B g ui md)" by blast
  assume "ui_modify W B g ui md = Inr ui'"
  with spec show "screen_ok ui ui'"
    using modify_sizes(2) [OF screen_env_metadata [OF env], of W] lines_lengths(3) [of B md]
    by (auto simp: screen_ok_def modify_shown_def)
qed

interpretation close_screen: ui_screen "ui_close W B" "screen_env B" for W B
proof unfold_locales
  fix g md and ui ui' :: s_ui_ctx
  assume env: "screen_env B g md" and room: "length (ui_pairs ui) \<le> 2"
  note spec = ui_close_spec [OF this, of W]
  from spec show "no_ub (ui_close W B g ui md)" by blast
  assume "ui_close W B g ui md = Inr ui'"
  with spec show "screen_ok ui ui'"
    using close_sizes(3) [OF screen_env_metadata [OF env], of W] lines_lengths(1) [of B md]
    by (auto simp: screen_ok_def close_shown_def)
qed

interpretation margin_screen: ui_screen "ui_update_margin W B" "screen_env B" for W B
proof unfold_locales
  fix g md and ui ui' :: s_ui_ctx
  assume env: "screen_env B g md" and room: "length (ui_pairs ui) \<le> 2"
  note spec = ui_update_margin_spec [OF this, of W]
  from spec show "no_ub (ui_update_margin W B g ui md)" by blast
  assume "ui_update_margin W B g ui md = Inr ui'"
  with spec show "screen_ok ui ui'"
    using margin_sizes(3) [OF screen_env_metadata [OF env], of W] lines_lengths(2) [of B md]
    by (auto simp: screen_ok_def margin_shown_def)
qed

interpretation cancel_screen: ui_screen "ui_cancel W B" "screen_env B" for W B
proof unfold_locales
  fix g md and ui ui' :: s_ui_ctx
  assume env: "screen_env B g md" and room: "length (ui_pairs ui) \<le> 2"
  note spec = ui_cancel_spec [OF this, of W]
  from spec show "no_ub (ui_cancel W B g ui md)" by blast
  assume "ui_cancel W B g ui md = Inr ui'"
  with spec show "screen_ok ui ui'"
    using cancel_sizes(5) [OF screen_env_metadata [OF env], of W] lines_lengths(4) [of _ B md]
    by (auto simp: screen_ok_def cancel_shown_def)
qed

interpretation cancel_tp_sl_screen: ui_screen "ui_cancel_tp_sl W B" "screen_env B" for W B
proof unfold_locales
  fix g md and ui ui' :: s_ui_ctx
  assume env: "screen_env B g md" and room: "length (ui_pairs ui) \<le> 2"
  note spec = ui_cancel_tp_sl_spec [OF this, of W]
  from spec show "no_ub (ui_cancel_tp_sl W B g ui md)" by blast
  assume "ui_cancel_tp_sl W B g ui md = Inr ui'"
  with spec show "screen_ok ui ui'"
    using cancel_sizes(6) [OF screen_env_metadata [OF env], of W] lines_lengths(4) [of _ B md]
    by (auto simp: screen_ok_def cancel_shown_def split: if_splits)
qed

section \<open>The whole screen\<close>

definition leading_lines :: "s_action_metadata \<Rightarrow> (string \<times> string) list" where
  "leading_lines md = (''Protocol'', APPNAME) #
     (if md_network md = NETWORK_TESTNET then [(''Network'', ''Testnet'')] else [])"

definition start_screen :: "s_action_metadata \<Rightarrow> s_ui_ctx" where
  "start_screen md = s_ui_ctx_0\<lparr>ui_pairs := leading_lines md\<rparr>"

definition op_screen ::
  "bool \<Rightarrow> byte_lib \<Rightarrow> s_hl_context \<Rightarrow> s_ui_ctx \<Rightarrow> s_action_metadata \<Rightarrow> s_ui_ctx result" where
  "op_screen W B g ui md = (case md_op_type md of
       OP_TYPE_ORDER \<Rightarrow> ui_order W B g ui md
     | OP_TYPE_MODIFY \<Rightarrow> ui_modify W B g ui md
     | OP_TYPE_CANCEL \<Rightarrow> ui_cancel W B g ui md
     | OP_TYPE_CLOSE \<Rightarrow> ui_close W B g ui md
     | OP_TYPE_UPDATE_MARGIN \<Rightarrow> ui_update_margin W B g ui md
     | OP_TYPE_CANCEL_SL \<Rightarrow> ui_cancel_tp_sl W B g ui md
     | OP_TYPE_CANCEL_TP \<Rightarrow> ui_cancel_tp_sl W B g ui md
     | OP_TYPE_CANCEL_TP_SL \<Rightarrow> ui_cancel_tp_sl W B g ui md
     | OP_TYPE_UPDATE_LEVERAGE \<Rightarrow> Inl Reject)"

interpretation op: ui_screen "op_screen W B" "screen_env B" for W B
proof unfold_locales
  fix g md and ui ui' :: s_ui_ctx
  assume env: "screen_env B g md" "length (ui_pairs ui) \<le> 2"
  show "no_ub (op_screen W B g ui md)"
    using env by (simp add: op_screen_def order_screen.screen_safe modify_screen.screen_safe
        cancel_screen.screen_safe close_screen.screen_safe margin_screen.screen_safe
        cancel_tp_sl_screen.screen_safe split: e_operation_type.splits)
  assume "op_screen W B g ui md = Inr ui'"
  then show "screen_ok ui ui'"
    using env by (auto simp: op_screen_def intro: order_screen.screen_adds modify_screen.screen_adds
        cancel_screen.screen_adds close_screen.screen_adds margin_screen.screen_adds
        cancel_tp_sl_screen.screen_adds split: e_operation_type.splits)
qed

lemma handle_ui_op:
  "handle_ui W B g (Some md) = rbind (op_screen W B g (start_screen md) md) (\<lambda>ui. Inr (prepare_review_sign_msgs ui))"
  by (simp add: handle_ui_def op_screen_def start_screen_def leading_lines_def s_ui_ctx_0_def)

lemma start_screen_room: "length (ui_pairs (start_screen md)) \<le> 2"
  by (simp add: start_screen_def leading_lines_def)

text \<open>The relation between a finished screen and the stored session, by operation.\<close>

definition op_shown ::
  "bool \<Rightarrow> byte_lib \<Rightarrow> s_hl_context \<Rightarrow> s_action_metadata \<Rightarrow> s_ui_ctx \<Rightarrow> s_ui_ctx \<Rightarrow> bool" where
  "op_shown W B g md ui ui' \<longleftrightarrow> (case md_op_type md of
       OP_TYPE_ORDER \<Rightarrow> order_shown W B g md ui ui'
     | OP_TYPE_MODIFY \<Rightarrow> modify_shown W B g md ui ui'
     | OP_TYPE_CANCEL \<Rightarrow>
         cancel_shown B g md 1 (''Cancel order - '' @ md_asset_ticker md) (cancel_intent W md) ui ui'
     | OP_TYPE_CLOSE \<Rightarrow> close_shown W B g md ui ui'
     | OP_TYPE_UPDATE_MARGIN \<Rightarrow> margin_shown W B g md ui ui'
     | OP_TYPE_UPDATE_LEVERAGE \<Rightarrow> False
     | _ \<Rightarrow> cancel_shown B g md (if md_op_type md = OP_TYPE_CANCEL_TP_SL then 2 else 1) (cancel_tp_sl_op W md)
              (cancel_tp_sl_intent W md) ui ui')"

lemma op_screen_shown:
  assumes env: "screen_env B g md" "length (ui_pairs ui) \<le> 2" and run: "op_screen W B g ui md = Inr ui'"
  shows "op_shown W B g md ui ui'"
proof -
  note specs = ui_order_spec(2) [OF env] ui_modify_spec [OF env, of W] ui_cancel_spec [OF env, of W]
    ui_close_spec [OF env, of W] ui_update_margin_spec [OF env, of W] ui_cancel_tp_sl_spec [OF env, of W]
  show ?thesis
    using run specs by (cases "md_op_type md") (simp_all add: op_screen_def op_shown_def)
qed

text \<open>The screen of a review and its two prompts, for a stored session.\<close>

definition review_screen ::
  "bool \<Rightarrow> byte_lib \<Rightarrow> s_hl_context \<Rightarrow> s_action_metadata \<Rightarrow> s_ui_ctx \<Rightarrow> bool" where
  "review_screen W B g md ui \<longleftrightarrow>
     (\<exists>ui0. op_shown W B g md (start_screen md) ui0 \<and> length (ui_pairs ui0) \<le> 11 \<and>
        ui = ui0\<lparr>ui_review_msg := ''Review message to '' @ ui_intent ui0,
                 ui_sign_msg := ''Sign message to '' @ ui_intent ui0 @ ''?''\<rparr>)"

lemma handle_ui_spec:
  assumes "screen_env B g md"
  shows "no_ub (handle_ui W B g (Some md))"
    and "handle_ui W B g (Some md) = Inr ui \<Longrightarrow> review_screen W B g md ui"
proof -
  note room = start_screen_room [of md]
  show "no_ub (handle_ui W B g (Some md))"
    using op.screen_safe [OF assms room, of W] by (simp add: handle_ui_op no_ub_rbind)
  assume "handle_ui W B g (Some md) = Inr ui"
  then obtain ui0 where ui0: "op_screen W B g (start_screen md) md = Inr ui0" "ui = prepare_review_sign_msgs ui0"
    by (auto simp: handle_ui_op rbind_Inr_conv)
  from op_screen_shown [OF assms room ui0(1)] op.screen_pairs(1) [OF assms room ui0(1)]
    op.screen_prompts [OF assms room ui0(1)] ui0(2)
  show "review_screen W B g md ui"
    unfolding review_screen_def prepare_review_sign_msgs_def by metis
qed

end
