(* ===== verification/Device.thy ===== *)
theory Device
  imports Action_Metadata Chunked_Payload Ui_Screens
begin

text \<open>
  The application as a machine: the command handlers (\<open>handler/*.c\<close>), the dispatcher
  (\<open>apdu/dispatcher.c\<close>), the choice made on the review screen (\<open>ui/operation.c\<close>), the
  communication switch (\<open>comm_enabler.c\<close>) and the main loop (\<open>app_main.c\<close>). The static variables of the
  modules make up the state \<open>device\<close>; what is sent and what is displayed is logged in it.

  The platform's services are collected in the parameter \<open>platform\<close>.
\<close>

section \<open>State and platform\<close>

datatype status_word =
    SWO_SUCCESS | SWO_INCORRECT_DATA | SWO_WRONG_DATA_LENGTH | SWO_INVALID_CLA | SWO_INVALID_INS
  | SWO_INCORRECT_P1_P2 | SWO_CONDITIONS_NOT_SATISFIED | SWO_COMMAND_ERROR_NO_INFO

record response =
  rs_data :: "byte list"
  rs_sw :: status_word

datatype display = Menu | Review s_ui_ctx | Status_message_signed

text \<open>A parsed APDU; \<open>lc\<close> is the length of the data, zero when there is none.\<close>

record command_t =
  cmd_cla :: u8
  cmd_ins :: u8
  cmd_p1 :: u8
  cmd_p2 :: u8
  cmd_data :: "byte list option"

text \<open>
  \<open>io_ret\<close> is what sending returns, given everything sent before; it is negative on failure.
\<close>

record 'h platform =
  pf_tlv :: tlv_lib
  pf_cmp :: cmp_lib
  pf_bytes :: byte_lib
  pf_cx :: "'h cx_lib"
  pf_wallet_screen :: bool
  pf_max_path :: nat
  bip32_path_read :: "byte list \<Rightarrow> nat \<Rightarrow> u32 list option"
  apdu_parser :: "byte list \<Rightarrow> command_t option"
  io_ret :: "response list \<Rightarrow> response \<Rightarrow> int"

record s_signing_ctx =
  sc_path :: "u32 list"
  sc_path_length :: u8
  sc_wallet_addr :: "byte list"

record device =
  dv_ctx :: s_hl_context
  dv_payload :: s_chunked_payload
  dv_signing :: s_signing_ctx
  dv_comm_enabled :: bool
  dv_review :: "s_ui_ctx option"
  dv_sent :: "response list"
  dv_displayed :: "display list"

definition s_signing_ctx_0 :: "'h platform \<Rightarrow> s_signing_ctx" where
  "s_signing_ctx_0 P = \<lparr>sc_path = replicate (pf_max_path P) 0, sc_path_length = 0,
     sc_wallet_addr = replicate ADDRESS_LENGTH 0\<rparr>"

definition enable_comm :: "device \<Rightarrow> device" where
  "enable_comm dv = dv\<lparr>dv_comm_enabled := True\<rparr>"

definition disable_comm :: "device \<Rightarrow> device" where
  "disable_comm dv = dv\<lparr>dv_comm_enabled := False\<rparr>"

definition comm_enabled :: "device \<Rightarrow> bool" where
  "comm_enabled dv \<longleftrightarrow> dv_comm_enabled dv"

definition io_send_response :: "'h platform \<Rightarrow> byte list \<Rightarrow> status_word \<Rightarrow> device \<Rightarrow> int \<times> device" where
  "io_send_response P data sw dv =
     (let r = \<lparr>rs_data = data, rs_sw = sw\<rparr> in
      (io_ret P (dv_sent dv) r, dv\<lparr>dv_sent := dv_sent dv @ [r]\<rparr>))"

definition io_send_sw :: "'h platform \<Rightarrow> status_word \<Rightarrow> device \<Rightarrow> int \<times> device" where
  "io_send_sw P sw dv = io_send_response P [] sw dv"

definition show_display :: "display \<Rightarrow> device \<Rightarrow> device" where
  "show_display d dv = dv\<lparr>dv_displayed := dv_displayed dv @ [d]\<rparr>"

text \<open>\<open>if (!f (\<dots>)) return io_send_sw (\<dots>);\<close> on a fallible call; undefined behaviour passes through.\<close>

definition or_sw ::
  "'h platform \<Rightarrow> status_word \<Rightarrow> device \<Rightarrow> 'a result \<Rightarrow> ('a \<Rightarrow> (int \<times> device) result) \<Rightarrow> (int \<times> device) result" where
  "or_sw P sw dv m k = (case m of
       Inr a \<Rightarrow> k a
     | Inl Reject \<Rightarrow> Inr (io_send_sw P sw dv)
     | Inl f \<Rightarrow> Inl f)"

section \<open>Handlers\<close>

definition handler_get_addr :: "'h platform \<Rightarrow> byte list \<Rightarrow> device \<Rightarrow> (int \<times> device) result" where
  "handler_get_addr P payload dv =
     (if length payload < 1 then Inr (io_send_sw P SWO_WRONG_DATA_LENGTH dv)
      else
        let path_length = hd payload in
        case bip32_path_read P (drop 1 payload) (unat path_length) of
          None \<Rightarrow> Inr (io_send_sw P SWO_INCORRECT_DATA dv)
        | Some path \<Rightarrow>
            or_sw P SWO_INCORRECT_DATA dv (derive_addr_from_path (pf_cx P) path) (\<lambda>addr.
            Inr (io_send_response P addr SWO_SUCCESS dv)))"

definition payload_call :: "'h platform \<Rightarrow> s_hl_context handler_call" where
  "payload_call P h p g = (case h of
       PARSE_ACTION_METADATA \<Rightarrow> parse_action_metadata (pf_tlv P) (pf_cx P) p g
     | PARSE_ACTION \<Rightarrow> (case parse_action (pf_tlv P) p g of
           Inl e \<Rightarrow> (Inl e, g)
         | Inr g' \<Rightarrow> (Inr (), g')))"

definition handle_chunk ::
  "'h platform \<Rightarrow> f_payload_handler \<Rightarrow> bool \<Rightarrow> byte list \<Rightarrow> device \<Rightarrow> (int \<times> device) result" where
  "handle_chunk P h first payload dv =
     (case process_chunked_payload (pf_bytes P) (payload_call P) first (Some payload) h (dv_payload dv) (dv_ctx dv) of
        (r, cp, g) \<Rightarrow>
          let dv' = dv\<lparr>dv_payload := cp, dv_ctx := g\<rparr> in
          or_sw P SWO_INCORRECT_DATA dv' r (\<lambda>_. Inr (io_send_sw P SWO_SUCCESS dv')))"

definition handler_provide_action_metadata :: "'h platform \<Rightarrow> bool \<Rightarrow> byte list \<Rightarrow> device \<Rightarrow> (int \<times> device) result" where
  "handler_provide_action_metadata P = handle_chunk P PARSE_ACTION_METADATA"

definition handler_set_action :: "'h platform \<Rightarrow> bool \<Rightarrow> byte list \<Rightarrow> device \<Rightarrow> (int \<times> device) result" where
  "handler_set_action P = handle_chunk P PARSE_ACTION"

definition sign_action :: "'h platform \<Rightarrow> device \<Rightarrow> (int \<times> device) result" where
  "sign_action P dv =
     (let g = dv_ctx dv; sc = dv_signing dv in
      case ctx_get_current_action g of
        None \<Rightarrow> Inr (io_send_sw P SWO_INCORRECT_DATA dv)
      | Some a \<Rightarrow>
          (case ctx_get_action_metadata g of
             None \<Rightarrow> Inr (io_send_sw P SWO_INCORRECT_DATA dv)
           | Some md \<Rightarrow>
               or_sw P SWO_INCORRECT_DATA dv
                 (action_hash (pf_cmp P) (pf_bytes P) (pf_cx P) (Some a) (Some md) (sc_wallet_addr sc))
                 (\<lambda>(domain_hash, message_hash).
               or_sw P SWO_INCORRECT_DATA dv
                 (rbind (read_bytes (unat (sc_path_length sc)) (sc_path sc)) (\<lambda>path.
                    eip712_sign (pf_cx P) path domain_hash message_hash))
                 (\<lambda>sg.
                  let g1 = ctx_switch_to_next_action g;
                      buf = ctx_remaining_actions g1 # signature_bytes sg in
                  case io_send_response P buf SWO_SUCCESS (dv\<lparr>dv_ctx := g1\<rparr>) of
                    (ret, dv1) \<Rightarrow>
                      if ret \<ge> 0 \<and> hd buf = 0 then Inr (ret, dv1\<lparr>dv_ctx := ctx_reset g1\<rparr>)
                      else Inr (ret, dv1)))))"

definition handler_sign_action :: "'h platform \<Rightarrow> byte list \<Rightarrow> device \<Rightarrow> (int \<times> device) result" where
  "handler_sign_action P payload dv =
     (if length payload < 1 then Inr (io_send_sw P SWO_WRONG_DATA_LENGTH dv)
      else
        let path_length = hd payload in
        case bip32_path_read P (drop 1 payload) (unat path_length) of
          None \<Rightarrow> Inr (io_send_sw P SWO_INCORRECT_DATA dv)
        | Some path \<Rightarrow>
            let tmp = (s_signing_ctx_0 P)\<lparr>sc_path := path @ drop (length path) (sc_path (s_signing_ctx_0 P)),
                                         sc_path_length := path_length\<rparr>;
                g = dv_ctx dv in
            if ctx_current_action_is_first g then
              let dv = dv\<lparr>dv_signing := tmp\<rparr> in
              if ctx_remaining_actions g = 0 then Inr (io_send_sw P SWO_INCORRECT_DATA dv)
              else or_sw P SWO_INCORRECT_DATA dv
                     (rbind (read_bytes (unat path_length) (sc_path tmp)) (derive_addr_from_path (pf_cx P))) (\<lambda>wallet.
                   let dv = dv\<lparr>dv_signing := tmp\<lparr>sc_wallet_addr := wallet\<rparr>\<rparr> in
                   or_sw P SWO_INCORRECT_DATA dv
                     (handle_ui (pf_wallet_screen P) (pf_bytes P) g (ctx_get_action_metadata g)) (\<lambda>ui.
                   Inr (0, show_display (Review ui) (disable_comm (dv\<lparr>dv_review := Some ui\<rparr>)))))
            else if sc_path_length tmp \<noteq> sc_path_length (dv_signing dv) \<or> sc_path tmp \<noteq> sc_path (dv_signing dv)
            then Inr (io_send_sw P SWO_INCORRECT_DATA dv)
            else sign_action P dv)"

section \<open>Dispatcher\<close>

definition CLA :: u8 where "CLA = 0xE0"
definition GET_ADDRESS :: u8 where "GET_ADDRESS = 0x01"
definition PROVIDE_ACTION_METADATA :: u8 where "PROVIDE_ACTION_METADATA = 0x02"
definition SET_ACTION :: u8 where "SET_ACTION = 0x03"
definition SIGN_ACTION :: u8 where "SIGN_ACTION = 0x04"
definition P1_FIRST :: u8 where "P1_FIRST = 0x01"
definition P1_FOLLOWING :: u8 where "P1_FOLLOWING = 0x00"

lemmas instruction_defs = GET_ADDRESS_def PROVIDE_ACTION_METADATA_def SET_ACTION_def SIGN_ACTION_def

definition apdu_dispatcher :: "'h platform \<Rightarrow> command_t \<Rightarrow> device \<Rightarrow> (int \<times> device) result" where
  "apdu_dispatcher P cmd dv =
     (if cmd_cla cmd \<noteq> CLA then Inr (io_send_sw P SWO_INVALID_CLA dv)
      else if cmd_ins cmd = GET_ADDRESS then
        (if cmd_p1 cmd \<noteq> 0 \<or> cmd_p2 cmd \<noteq> 0 then Inr (io_send_sw P SWO_INCORRECT_P1_P2 dv)
         else case cmd_data cmd of
           None \<Rightarrow> Inr (io_send_sw P SWO_WRONG_DATA_LENGTH dv)
         | Some buf \<Rightarrow>
             if length buf < 1 then Inr (io_send_sw P SWO_WRONG_DATA_LENGTH dv)
             else handler_get_addr P buf dv)
      else if cmd_ins cmd = PROVIDE_ACTION_METADATA then
        (if (cmd_p1 cmd \<noteq> P1_FIRST \<and> cmd_p1 cmd \<noteq> P1_FOLLOWING) \<or> cmd_p2 cmd \<noteq> 0
         then Inr (io_send_sw P SWO_INCORRECT_P1_P2 dv)
         else case cmd_data cmd of
           None \<Rightarrow> Inr (io_send_sw P SWO_WRONG_DATA_LENGTH dv)
         | Some buf \<Rightarrow> handler_provide_action_metadata P (cmd_p1 cmd = P1_FIRST) buf dv)
      else if cmd_ins cmd = SET_ACTION then
        (if (cmd_p1 cmd \<noteq> P1_FIRST \<and> cmd_p1 cmd \<noteq> P1_FOLLOWING) \<or> cmd_p2 cmd \<noteq> 0
         then Inr (io_send_sw P SWO_INCORRECT_P1_P2 dv)
         else case cmd_data cmd of
           None \<Rightarrow> Inr (io_send_sw P SWO_WRONG_DATA_LENGTH dv)
         | Some buf \<Rightarrow> handler_set_action P (cmd_p1 cmd = P1_FIRST) buf dv)
      else if cmd_ins cmd = SIGN_ACTION then
        (if cmd_p1 cmd \<noteq> 0 \<or> cmd_p2 cmd \<noteq> 0 then Inr (io_send_sw P SWO_INCORRECT_P1_P2 dv)
         else case cmd_data cmd of
           None \<Rightarrow> Inr (io_send_sw P SWO_WRONG_DATA_LENGTH dv)
         | Some buf \<Rightarrow>
             if length buf < 1 then Inr (io_send_sw P SWO_WRONG_DATA_LENGTH dv)
             else handler_sign_action P buf dv)
      else Inr (io_send_sw P SWO_INVALID_INS dv))"

section \<open>The review and the main loop\<close>

definition review_choice :: "'h platform \<Rightarrow> bool \<Rightarrow> device \<Rightarrow> device result" where
  "review_choice P confirm dv =
     (let dv = enable_comm (dv\<lparr>dv_review := None\<rparr>) in
      if confirm then
        rbind (sign_action P dv) (\<lambda>(ret, dv).
        if ret \<noteq> -1 then Inr (show_display Status_message_signed dv)
        else Inr (show_display Menu (dv\<lparr>dv_ctx := ctx_reset (dv_ctx dv)\<rparr>)))
      else
        let dv = dv\<lparr>dv_ctx := ctx_reset (dv_ctx dv)\<rparr> in
        Inr (show_display Menu (snd (io_send_sw P SWO_CONDITIONS_NOT_SATISFIED dv))))"

text \<open>The state in which the loop of \<open>app_main\<close> is entered.\<close>

definition app_start :: "'h platform \<Rightarrow> device" where
  "app_start P = enable_comm \<lparr>dv_ctx = s_hl_context_0, dv_payload = s_chunked_payload_0,
     dv_signing = s_signing_ctx_0 P, dv_comm_enabled = False, dv_review = None, dv_sent = [],
     dv_displayed = [Menu]\<rparr>"

text \<open>
  One turn of the loop for a received command, and the call back of the review screen, which the
  OS makes while the loop waits for a command. \<open>None\<close> in the result: \<open>app_main\<close> returns.
\<close>

definition app_command :: "'h platform \<Rightarrow> byte list \<Rightarrow> device \<Rightarrow> device option result" where
  "app_command P raw dv =
     (if comm_enabled dv then
        case apdu_parser P raw of
          None \<Rightarrow> Inr (Some (snd (io_send_sw P SWO_WRONG_DATA_LENGTH dv)))
        | Some cmd \<Rightarrow>
            rbind (apdu_dispatcher P cmd dv) (\<lambda>(ret, dv).
            if ret < 0 then Inr None else Inr (Some dv))
      else Inr (Some (snd (io_send_sw P SWO_COMMAND_ERROR_NO_INFO dv))))"

datatype event = Command "byte list" | Choice bool

text \<open>
  The step relation: a command at any time, a choice only while a review is displayed (the
  callback of \<open>nbgl_useCaseReview\<close> is called once).
\<close>

inductive dev_step :: "'h platform \<Rightarrow> device \<Rightarrow> event \<Rightarrow> device \<Rightarrow> bool" for P where
  command: "app_command P raw dv = Inr (Some dv') \<Longrightarrow> dev_step P dv (Command raw) dv'"
| choice: "dv_review dv \<noteq> None \<Longrightarrow> review_choice P confirm dv = Inr dv' \<Longrightarrow> dev_step P dv (Choice confirm) dv'"

inductive_cases command_stepE: "dev_step P dv (Command raw) dv'"
inductive_cases choice_stepE: "dev_step P dv (Choice confirm) dv'"

inductive_simps dev_step_simps:
  "dev_step P dv (Command raw) dv'"
  "dev_step P dv (Choice confirm) dv'"

end
