(* ===== verification/Device_Inv.thy ===== *)
theory Device_Inv
  imports Device
begin

text \<open>
  The invariant of the machine. Runs of a step relation and the contract of an invariant over them
  (the locale \<open>run_invariant\<close>), the invariant of the device, what each handler does to a state that
  satisfies it, and the classification of every command by its effect (\<open>dispatch_effect\<close>), against which
  the properties of runs are checked.
\<close>

section \<open>Runs\<close>

text \<open>
  A run is a list of steps, each with the state it was taken in; the newest step is the last. The
  contract of an invariant: it holds initially, and a step from a state that satisfies it preserves it.
\<close>

inductive runs :: "'s \<Rightarrow> ('s \<Rightarrow> 'e \<Rightarrow> 's \<Rightarrow> bool) \<Rightarrow> ('s \<times> 'e) list \<Rightarrow> 's \<Rightarrow> bool" for s0 stp where
  runs_none: "runs s0 stp [] s0"
| runs_snoc: "runs s0 stp tr s \<Longrightarrow> stp s e s' \<Longrightarrow> runs s0 stp (tr @ [(s, e)]) s'"

locale run_invariant =
  fixes s0 :: 's
    and stp :: "'s \<Rightarrow> 'e \<Rightarrow> 's \<Rightarrow> bool"
    and I :: "('s \<times> 'e) list \<Rightarrow> 's \<Rightarrow> bool"
    and G :: bool
  assumes inv_start: "G \<Longrightarrow> I [] s0"
    and inv_step: "G \<Longrightarrow> I tr s \<Longrightarrow> stp s e s' \<Longrightarrow> I (tr @ [(s, e)]) s'"
begin

lemma inv_runs: "runs s0 stp tr s \<Longrightarrow> G \<Longrightarrow> I tr s"
proof (induction rule: runs.induct)
  case runs_none
  then show ?case by (rule inv_start)
next
  case (runs_snoc tr s e s')
  then show ?case using inv_step by blast
qed

text \<open>What the invariant implies of the steps out of a state holds of every step of a run.\<close>

lemma steps_runs:
  "runs s0 stp tr s \<Longrightarrow> G \<Longrightarrow> (\<And>tr s e s'. I tr s \<Longrightarrow> stp s e s' \<Longrightarrow> Q s e s') \<Longrightarrow> stp s e s' \<Longrightarrow> Q s e s'"
  using inv_runs by blast

end

section \<open>The invariant of the device\<close>

definition allowed_types :: "e_operation_type \<Rightarrow> e_action_type set" where
  "allowed_types op = (case op of
       OP_TYPE_ORDER \<Rightarrow> {ACTION_TYPE_BULK_ORDER, ACTION_TYPE_UPDATE_LEVERAGE, ACTION_TYPE_APPROVE_BUILDER_FEE,
                         ACTION_TYPE_USER_SET_ABSTRACTION}
     | OP_TYPE_MODIFY \<Rightarrow> {ACTION_TYPE_BULK_MODIFY, ACTION_TYPE_BULK_ORDER}
     | OP_TYPE_CLOSE \<Rightarrow> {ACTION_TYPE_BULK_ORDER}
     | OP_TYPE_UPDATE_MARGIN \<Rightarrow> {ACTION_TYPE_UPDATE_ISOLATED_MARGIN}
     | OP_TYPE_UPDATE_LEVERAGE \<Rightarrow> {}
     | _ \<Rightarrow> {ACTION_TYPE_BULK_CANCEL})"

definition session_compatible :: "s_action_metadata \<Rightarrow> s_action list \<Rightarrow> bool" where
  "session_compatible md q \<longleftrightarrow> act_type ` set q \<subseteq> allowed_types (md_op_type md) \<and>
     (md_op_type md = OP_TYPE_MODIFY \<longrightarrow> length q \<le> 1)"

definition session_ok :: "s_hl_context \<Rightarrow> bool" where
  "session_ok g \<longleftrightarrow> ctx_inv g \<and> (case ctx_get_action_metadata g of
       None \<Rightarrow> ctx_queue g = []
     | Some md \<Rightarrow> session_wf g md \<and> session_compatible md (ctx_queue g))"

definition signing_ok :: "'h platform \<Rightarrow> s_signing_ctx \<Rightarrow> bool" where
  "signing_ok P sc \<longleftrightarrow> length (sc_path sc) = pf_max_path P \<and> unat (sc_path_length sc) \<le> pf_max_path P \<and>
     length (sc_wallet_addr sc) = ADDRESS_LENGTH"

text \<open>The screen shown for a session that is about to be signed with a path.\<close>

definition reviewed :: "'h platform \<Rightarrow> s_hl_context \<Rightarrow> s_signing_ctx \<Rightarrow> s_ui_ctx \<Rightarrow> bool" where
  "reviewed P g sc ui \<longleftrightarrow>
     handle_ui (pf_wallet_screen P) (pf_bytes P) g (ctx_get_action_metadata g) = Inr ui \<and>
     action_index g = 0 \<and> action_count g \<noteq> 0 \<and>
     derive_addr_from_path (pf_cx P) (take (unat (sc_path_length sc)) (sc_path sc)) = Inr (sc_wallet_addr sc)"

definition dev_inv :: "'h platform \<Rightarrow> device \<Rightarrow> bool" where
  "dev_inv P dv \<longleftrightarrow> session_ok (dv_ctx dv) \<and> chunk_inv (dv_payload dv) \<and> signing_ok P (dv_signing dv) \<and>
     (dv_comm_enabled dv \<longleftrightarrow> dv_review dv = None) \<and>
     (\<forall>ui. dv_review dv = Some ui \<longrightarrow> reviewed P (dv_ctx dv) (dv_signing dv) ui \<and>
        dv_displayed dv \<noteq> [] \<and> last (dv_displayed dv) = Review ui)"

text \<open>What is relied on: every service behaves as documented.\<close>

definition platform_ok :: "'h platform \<Rightarrow> bool" where
  "platform_ok P \<longleftrightarrow> tlv_lib_ok (pf_tlv P) \<and> cmp_int_agrees (pf_cmp P) \<and> bytes_ok (pf_bytes P) \<and>
     cx_sizes (pf_cx P) \<and> (\<exists>K S. cx_hashes (pf_cx P) K S) \<and>
     (\<forall>bs n p. bip32_path_read P bs n = Some p \<longrightarrow> length p = n \<and> n \<le> pf_max_path P)"

lemma platform_okD:
  assumes "platform_ok P"
  shows "tlv_lib_ok (pf_tlv P)" "cmp_int_agrees (pf_cmp P)" "bytes_ok (pf_bytes P)" "cx_sizes (pf_cx P)"
    "bip32_path_read P bs n = Some p \<Longrightarrow> length p = n \<and> n \<le> pf_max_path P"
  using assms by (auto simp: platform_ok_def)

lemma compatible_allowed: "is_action_compatible t op g \<Longrightarrow> t \<in> allowed_types op"
  by (cases op) (auto simp: is_action_compatible_def allowed_types_def split: if_splits)

lemma session_okD:
  "session_ok g \<Longrightarrow> ctx_inv g"
  "session_ok g \<Longrightarrow> ctx_get_action_metadata g = Some md \<Longrightarrow> session_wf g md \<and> session_compatible md (ctx_queue g)"
  by (auto simp: session_ok_def)

lemma session_ok_0: "session_ok s_hl_context_0"
  by (simp add: session_ok_def ctx_inv_def zero_defs ctx_queue_def ctx_get_action_metadata_def)

lemma session_ok_reset: "session_ok (ctx_reset g)"
  by (simp add: ctx_reset_def session_ok_0)

text \<open>Pushing a well-formed, compatible action preserves the session.\<close>

lemma session_ok_push:
  assumes ok: "session_ok g" and md: "ctx_get_action_metadata g = Some md"
    and a: "action_wf (Some md) a" "payload_only a = a" "is_action_compatible (act_type a) (md_op_type md) g"
    and push: "ctx_push_action a g = Inr g'"
  shows "session_ok g'" "action_index g' = 0"
proof -
  have inv: "ctx_inv g" using session_okD(1) [OF ok] .
  from ctx.push_accepted [OF inv push] have q: "ctx_queue g' = ctx_queue g @ [a]"
    and md': "ctx_get_action_metadata g' = Some md" and pos: "unat (action_index g') = 0"
    using md by (simp_all add: ctx_session_def)
  from pos show "action_index g' = 0" by (simp add: unat_eq_zero)
  have inv': "ctx_inv g'" using ctx.push_law(1) [OF inv push] .
  have old: "session_wf g md" "session_compatible md (ctx_queue g)" using session_okD(2) [OF ok md] by auto
  have "session_wf g' md" using old(1) a q inv' by (simp add: session_wf_def)
  moreover have "session_compatible md (ctx_queue g')"
  proof -
    have "ctx_queue g = []" if "md_op_type md = OP_TYPE_MODIFY"
    proof -
      from a(3) that have none: "ctx_get_action ACTION_TYPE_BULK_MODIFY g = None" "ctx_get_action ACTION_TYPE_BULK_ORDER g = None"
        by (auto simp: is_action_compatible_def split: if_splits)
      then have "ACTION_TYPE_BULK_MODIFY \<notin> act_type ` set (ctx_queue g)" "ACTION_TYPE_BULK_ORDER \<notin> act_type ` set (ctx_queue g)"
        using ctx.lookup_None_iff [OF inv] by (simp_all add: ctx_queue_session)
      then show ?thesis using old(2) that by (cases "ctx_queue g") (auto simp: session_compatible_def allowed_types_def)
    qed
    then show ?thesis
      using old(2) compatible_allowed [OF a(3)] q by (auto simp: session_compatible_def)
  qed
  ultimately show "session_ok g'" using inv' md' by (simp add: session_ok_def)
qed

lemma session_ok_metadata:
  assumes "ctx_inv g'" "ctx_session g' = empty_session\<lparr>ss_metadata := Some m\<rparr>" "metadata_wf m"
  shows "session_ok g'" "action_index g' = 0"
  using assms
  by (auto simp: session_ok_def ctx_session_def empty_session_def session_wf_def session_compatible_def unat_eq_zero)

text \<open>A payload handler keeps the session, and touches it only at the start of a signing flow.\<close>

lemma payload_call_spec:
  assumes P: "platform_ok P" and ok: "session_ok g" and run: "payload_call P h (Some p) g = (r, g')"
  shows "no_ub r" "session_ok g'" "g' = g \<or> action_index g' = 0"
    "action_index g \<noteq> 0 \<Longrightarrow> g' = g \<or> g' = ctx_reset g"
    "r = Inl e \<Longrightarrow> g' = g \<or> g' = ctx_reset g"
proof -
  have L: "tlv_lib_ok (pf_tlv P)" using platform_okD [OF P] by simp
  have inv: "ctx_inv g" using session_okD(1) [OF ok] .
  have pos: "ss_pos (ctx_session g) = 0 \<longleftrightarrow> action_index g = 0" by (simp add: ctx_session_def unat_eq_zero)
  have reset0: "action_index (ctx_reset g) = 0" by (simp add: ctx_reset_def s_hl_context_0_def)
  have "no_ub r \<and> session_ok g' \<and> (g' = g \<or> action_index g' = 0) \<and>
    (action_index g \<noteq> 0 \<longrightarrow> g' = g \<or> g' = ctx_reset g) \<and> (\<forall>e. r = Inl e \<longrightarrow> g' = g \<or> g' = ctx_reset g)"
  proof (cases h)
    case PARSE_ACTION_METADATA
    with run have m: "parse_action_metadata (pf_tlv P) (pf_cx P) (Some p) g = (r, g')"
      by (simp add: payload_call_def)
    note spec = parse_action_metadata_spec [OF L m]
    show ?thesis
    proof (cases r)
      case (Inl e)
      from spec(3) [OF this] have "g' = g \<or> g' = ctx_reset g" by auto
      with spec(1) ok reset0 session_ok_reset show ?thesis by auto
    next
      case (Inr u)
      from P obtain K S where "cx_hashes (pf_cx P) K S" by (auto simp: platform_ok_def)
      with spec(2) [of K S] Inr obtain m where first: "ss_pos (ctx_session g) = 0"
        and "metadata_wf m" "ctx_session g' = empty_session\<lparr>ss_metadata := Some m\<rparr>"
        by (auto simp: metadata_accepted_def)
      with session_ok_metadata [OF spec(4) [OF inv]] show ?thesis using spec(1) Inr pos by auto
    qed
  next
    case PARSE_ACTION
    note spec = parse_action_spec [OF L inv, of "Some p"]
    show ?thesis
    proof (cases "parse_action (pf_tlv P) (Some p) g")
      case (Inl e)
      with run PARSE_ACTION spec(1) ok show ?thesis by (auto simp: payload_call_def)
    next
      case (Inr g2)
      with run PARSE_ACTION have eq: "r = Inr ()" "g' = g2" by (auto simp: payload_call_def)
      from spec(2) [OF Inr] obtain md a where md: "ctx_get_action_metadata g = Some md"
        and a: "action_wf (Some md) a" "payload_only a = a" "is_action_compatible (act_type a) (md_op_type md) g"
        and push: "ctx_push_action a g = Inr g2" by blast
      from push have "action_index g = 0"
        using ctx.push_accepted [OF inv push] by (simp add: pos)
      with session_ok_push [OF ok md a push] eq show ?thesis by simp
    qed
  qed
  then show "no_ub r" "session_ok g'" "g' = g \<or> action_index g' = 0"
    "action_index g \<noteq> 0 \<Longrightarrow> g' = g \<or> g' = ctx_reset g" "r = Inl e \<Longrightarrow> g' = g \<or> g' = ctx_reset g"
    by blast+
qed

section \<open>Signing\<close>

definition signature_response :: "response \<Rightarrow> bool" where
  "signature_response r \<longleftrightarrow> rs_sw r = SWO_SUCCESS \<and> length (rs_data r) = 66"

lemma device_sent_ctx: "dv\<lparr>dv_sent := s, dv_ctx := g\<rparr> = dv\<lparr>dv_ctx := g, dv_sent := s\<rparr>"
  by (cases dv) simp

text \<open>The response that carries the signature of \<open>a\<close>, the next action of a session.\<close>

definition signed_by ::
  "'h platform \<Rightarrow> s_hl_context \<Rightarrow> s_signing_ctx \<Rightarrow> s_action \<Rightarrow> s_action_metadata \<Rightarrow> response \<Rightarrow> bool" where
  "signed_by P g sc a md r \<longleftrightarrow> ctx_get_current_action g = Some a \<and> ctx_get_action_metadata g = Some md \<and>
     (\<exists>d m sg. action_hash (pf_cmp P) (pf_bytes P) (pf_cx P) (Some a) (Some md) (sc_wallet_addr sc) = Inr (d, m) \<and>
        eip712_sign (pf_cx P) (take (unat (sc_path_length sc)) (sc_path sc)) d m = Inr sg \<and>
        r = \<lparr>rs_data = ctx_remaining_actions (ctx_switch_to_next_action g) # signature_bytes sg, rs_sw = SWO_SUCCESS\<rparr>)"

lemma current_session:
  assumes ok: "session_ok g" and a: "ctx_get_current_action g = Some a"
  shows "\<exists>md. ctx_get_action_metadata g = Some md" "unat (action_index g) < length (ctx_queue g)"
    "a = ctx_queue g ! unat (action_index g)" "a \<in> set (ctx_queue g)"
proof -
  have inv: "ctx_inv g" using session_okD(1) [OF ok] .
  from ctx.current_law [OF inv] a show lt: "unat (action_index g) < length (ctx_queue g)"
    and eq: "a = ctx_queue g ! unat (action_index g)"
    by (simp_all add: ctx_session_def split: if_splits)
  then show "a \<in> set (ctx_queue g)" by simp
  then show "\<exists>md. ctx_get_action_metadata g = Some md"
    using ok by (cases "ctx_get_action_metadata g") (auto simp: session_ok_def)
qed

lemma sign_action_cases:
  assumes P: "platform_ok P" and inv: "dev_inv P dv"
  shows "(\<exists>ret. sign_action P dv = Inr (ret, dv\<lparr>dv_sent := dv_sent dv @ [\<lparr>rs_data = [], rs_sw = SWO_INCORRECT_DATA\<rparr>]\<rparr>)) \<or>
    (\<exists>ret a md r g'. signed_by P (dv_ctx dv) (dv_signing dv) a md r \<and>
       ret = io_ret P (dv_sent dv) r \<and>
       g' = (if 0 \<le> ret \<and> ctx_remaining_actions (ctx_switch_to_next_action (dv_ctx dv)) = 0
             then ctx_reset (ctx_switch_to_next_action (dv_ctx dv)) else ctx_switch_to_next_action (dv_ctx dv)) \<and>
       sign_action P dv = Inr (ret, dv\<lparr>dv_ctx := g', dv_sent := dv_sent dv @ [r]\<rparr>))"
proof -
  let ?g = "dv_ctx dv" and ?sc = "dv_signing dv"
  let ?refused = "\<exists>ret. sign_action P dv = Inr (ret, dv\<lparr>dv_sent := dv_sent dv @ [\<lparr>rs_data = [], rs_sw = SWO_INCORRECT_DATA\<rparr>]\<rparr>)"
  have ok: "session_ok ?g" and sc: "signing_ok P ?sc" using inv by (auto simp: dev_inv_def)
  show ?thesis
  proof (cases "ctx_get_current_action ?g")
    case None
    then have ?refused by (simp add: sign_action_def Let_def io_send_sw_def io_send_response_def)
    then show ?thesis ..
  next
    case a: (Some a)
    from current_session [OF ok a] obtain md where md: "ctx_get_action_metadata ?g = Some md" by blast
    have wf: "action_wf (Some md) a" "payload_only a = a"
      using session_okD(2) [OF ok md] current_session(4) [OF ok a] by (auto simp: session_wf_def list_all_iff)
    let ?hash = "action_hash (pf_cmp P) (pf_bytes P) (pf_cx P) (Some a) (Some md) (sc_wallet_addr ?sc)"
    have ub: "no_ub ?hash"
      using action_hash_no_ub action_wf_counts [OF wf] platform_okD(2) [OF P] by blast
    show ?thesis
    proof (cases ?hash)
      case (Inl e)
      with ub have "e = Reject" by simp
      with a md Inl have ?refused by (simp add: sign_action_def Let_def or_sw_def io_send_sw_def io_send_response_def)
      then show ?thesis ..
    next
      case (Inr dm)
      obtain d m where dm: "dm = (d, m)" by (cases dm)
      have path: "read_bytes (unat (sc_path_length ?sc)) (sc_path ?sc) = Inr (take (unat (sc_path_length ?sc)) (sc_path ?sc))"
        using sc by (simp add: signing_ok_def read_bytes_def)
      let ?sig = "eip712_sign (pf_cx P) (take (unat (sc_path_length ?sc)) (sc_path ?sc)) d m"
      have ub2: "no_ub ?sig" by (rule eip712_no_ub)
      show ?thesis
      proof (cases ?sig)
        case (Inl e)
        with ub2 have "e = Reject" by simp
        with a md Inr Inl dm path have ?refused
          by (simp add: sign_action_def Let_def or_sw_def io_send_sw_def io_send_response_def)
        then show ?thesis ..
      next
        case (Inr sg)
        let ?r = "\<lparr>rs_data = ctx_remaining_actions (ctx_switch_to_next_action ?g) # signature_bytes sg, rs_sw = SWO_SUCCESS\<rparr>"
        have "signed_by P ?g ?sc a md ?r"
          using a md \<open>?hash = Inr dm\<close> dm Inr by (auto simp: signed_by_def)
        moreover have "sign_action P dv = Inr (io_ret P (dv_sent dv) ?r, dv\<lparr>dv_ctx :=
            (if 0 \<le> io_ret P (dv_sent dv) ?r \<and> ctx_remaining_actions (ctx_switch_to_next_action ?g) = 0
             then ctx_reset (ctx_switch_to_next_action ?g) else ctx_switch_to_next_action ?g),
            dv_sent := dv_sent dv @ [?r]\<rparr>)"
          using a md \<open>?hash = Inr dm\<close> dm path Inr
          by (cases "ctx_remaining_actions (ctx_switch_to_next_action ?g) = 0")
            (simp_all add: sign_action_def Let_def or_sw_def io_send_response_def device_sent_ctx)
        ultimately show ?thesis by blast
      qed
    qed
  qed
qed

text \<open>Advancing keeps the session.\<close>

lemma session_ok_advance:
  assumes ok: "session_ok g" and a: "ctx_get_current_action g = Some a"
  shows "session_ok (ctx_switch_to_next_action g)"
proof -
  have inv: "ctx_inv g" using session_okD(1) [OF ok] .
  have "ctx_inv (ctx_switch_to_next_action g)" using ctx.advance_law(1) [OF inv] a by simp
  with ok show ?thesis
    by (auto simp: session_ok_def ctx_switch_to_next_action_def ctx_get_action_metadata_def ctx_queue_def
        session_wf_def split: if_splits)
qed

section \<open>Commands\<close>

text \<open>
  What a completed payload does to the context: nothing; it stores authentic metadata in an emptied
  context; it stores a compatible action; or it drops a session that is being signed.
\<close>

definition authentic :: "'h platform \<Rightarrow> s_action_metadata \<Rightarrow> bool" where
  "authentic P m \<longleftrightarrow> (\<forall>K S. cx_hashes (pf_cx P) K S \<longrightarrow> (\<exists>p. metadata_accepted (pf_tlv P) (pf_cx P) S p m))"

inductive payload_effect :: "'h platform \<Rightarrow> s_hl_context \<Rightarrow> s_hl_context \<Rightarrow> bool" for P g where
  kept: "payload_effect P g g"
| loaded: "action_index g = 0 \<Longrightarrow> authentic P m \<Longrightarrow> ctx_session g' = empty_session\<lparr>ss_metadata := Some m\<rparr> \<Longrightarrow>
    payload_effect P g g'"
| pushed: "ctx_get_action_metadata g = Some md \<Longrightarrow> action_wf (Some md) a \<Longrightarrow> payload_only a = a \<Longrightarrow>
    is_action_compatible (act_type a) (md_op_type md) g \<Longrightarrow> ctx_push_action a g = Inr g' \<Longrightarrow> payload_effect P g g'"
| dropped: "action_index g \<noteq> 0 \<Longrightarrow> payload_effect P g (ctx_reset g)"

lemma payload_call_effect:
  assumes P: "platform_ok P" and inv: "ctx_inv g" and run: "payload_call P h (Some p) g = (r, g')"
  shows "payload_effect P g g'"
proof (cases h)
  case PARSE_ACTION_METADATA
  with run have m: "parse_action_metadata (pf_tlv P) (pf_cx P) (Some p) g = (r, g')" by (simp add: payload_call_def)
  note spec = parse_action_metadata_spec [OF platform_okD(1) [OF P] m]
  have pos: "ss_pos (ctx_session g) = 0 \<longleftrightarrow> action_index g = 0" by (simp add: ctx_session_def unat_eq_zero)
  show ?thesis
  proof (cases r)
    case (Inl e)
    with spec(3) pos show ?thesis by (auto intro: kept dropped)
  next
    case (Inr u)
    have acc: "action_index g = 0 \<and> (\<exists>m. metadata_accepted (pf_tlv P) (pf_cx P) S p m \<and>
        ctx_session g' = empty_session\<lparr>ss_metadata := Some m\<rparr>)" if "cx_hashes (pf_cx P) K S" for K S
      using spec(2) [OF _ that] Inr pos by auto
    from P obtain K S where "cx_hashes (pf_cx P) K S" by (auto simp: platform_ok_def)
    from acc [OF this] obtain m where zero: "action_index g = 0"
      and m: "ctx_session g' = empty_session\<lparr>ss_metadata := Some m\<rparr>" by blast
    have "authentic P m"
      unfolding authentic_def
    proof (intro allI impI)
      fix K S assume "cx_hashes (pf_cx P) K S"
      from acc [OF this] obtain m' where "metadata_accepted (pf_tlv P) (pf_cx P) S p m'"
        "ctx_session g' = empty_session\<lparr>ss_metadata := Some m'\<rparr>" by blast
      with m show "\<exists>p. metadata_accepted (pf_tlv P) (pf_cx P) S p m" by (auto simp: empty_session_def)
    qed
    with zero m show ?thesis by (intro loaded)
  qed
next
  case PARSE_ACTION
  show ?thesis
  proof (cases "parse_action (pf_tlv P) (Some p) g")
    case (Inl e)
    with run PARSE_ACTION show ?thesis by (auto simp: payload_call_def intro: kept)
  next
    case (Inr g2)
    with run PARSE_ACTION have "g' = g2" by (simp add: payload_call_def)
    with parse_action_spec(2) [OF platform_okD(1) [OF P] inv Inr] show ?thesis by (blast intro: pushed)
  qed
qed

text \<open>
  Every command has one of five effects: it is answered and nothing else happens; it is answered
  after a payload part was taken in; a signing request at the start of a session is refused; a review
  is opened, with no answer yet; the next action of an approved session is signed.
\<close>

inductive dispatch_effect :: "'h platform \<Rightarrow> device \<Rightarrow> int \<times> device \<Rightarrow> bool" for P dv where
  answered: "\<not> signature_response r \<Longrightarrow> dispatch_effect P dv (ret, dv\<lparr>dv_sent := dv_sent dv @ [r]\<rparr>)"
| received: "\<not> signature_response r \<Longrightarrow> chunk_inv cp \<Longrightarrow> session_ok g \<Longrightarrow>
    g = dv_ctx dv \<or> action_index g = 0 \<Longrightarrow> payload_effect P (dv_ctx dv) g \<Longrightarrow>
    dispatch_effect P dv (ret, dv\<lparr>dv_payload := cp, dv_ctx := g, dv_sent := dv_sent dv @ [r]\<rparr>)"
| refused: "\<not> signature_response r \<Longrightarrow> action_index (dv_ctx dv) = 0 \<Longrightarrow> signing_ok P sc \<Longrightarrow>
    dispatch_effect P dv (ret, dv\<lparr>dv_signing := sc, dv_sent := dv_sent dv @ [r]\<rparr>)"
| opened: "signing_ok P sc \<Longrightarrow> reviewed P (dv_ctx dv) sc ui \<Longrightarrow>
    dispatch_effect P dv (0, show_display (Review ui) (disable_comm (dv\<lparr>dv_signing := sc, dv_review := Some ui\<rparr>)))"
| continued: "action_index (dv_ctx dv) \<noteq> 0 \<Longrightarrow> sign_action P dv = Inr out \<Longrightarrow> dispatch_effect P dv out"

definition has_effect :: "'h platform \<Rightarrow> device \<Rightarrow> (int \<times> device) result \<Rightarrow> bool" where
  "has_effect P dv m \<longleftrightarrow> (\<exists>out. m = Inr out \<and> dispatch_effect P dv out)"

lemma no_signature_sw [simp]: "\<not> signature_response \<lparr>rs_data = [], rs_sw = sw\<rparr>"
  by (simp add: signature_response_def)

lemma effect_sw [simp]: "has_effect P dv (Inr (io_send_sw P sw dv))"
  by (auto simp: has_effect_def io_send_sw_def io_send_response_def Let_def intro: answered)

lemma effect_or_sw:
  "no_ub m \<Longrightarrow> has_effect P dv (Inr (io_send_sw P sw dv2)) \<Longrightarrow> (\<And>a. m = Inr a \<Longrightarrow> has_effect P dv (k a)) \<Longrightarrow>
   has_effect P dv (or_sw P sw dv2 m k)"
  by (cases m) (auto simp: or_sw_def)

lemma get_addr_effect:
  assumes P: "platform_ok P"
  shows "has_effect P dv (handler_get_addr P payload dv)"
proof -
  have "has_effect P dv (Inr (io_send_response P addr SWO_SUCCESS dv))"
    if "derive_addr_from_path (pf_cx P) path = Inr addr" for path addr
    using derive_addr_length [OF platform_okD(4) [OF P] that]
    by (auto simp: has_effect_def io_send_response_def Let_def signature_response_def intro: answered)
  then show ?thesis
    by (auto simp: handler_get_addr_def Let_def eip712_no_ub intro!: effect_or_sw split: option.splits)
qed

lemma handle_chunk_effect:
  assumes P: "platform_ok P" and inv: "dev_inv P dv"
  shows "has_effect P dv (handle_chunk P h first payload dv)"
proof -
  let ?g = "dv_ctx dv"
  have B: "bytes_ok (pf_bytes P)" and cp: "chunk_inv (dv_payload dv)" and ok: "session_ok ?g"
    using platform_okD(3) [OF P] inv by (simp_all add: dev_inv_def)
  obtain r cp' g' where run: "process_chunked_payload (pf_bytes P) (payload_call P) first (Some payload) h (dv_payload dv) ?g
      = (r, cp', g')" using prod_cases3 by blast
  have inv': "chunk_inv cp'" by (rule process_chunk_inv [OF B cp run])
  have eff: "no_ub r \<and> session_ok g' \<and> (g' = ?g \<or> action_index g' = 0) \<and> payload_effect P ?g g'"
    using B cp run
  proof (cases rule: process_chunk_cases)
    case (complete bs)
    from payload_call_spec [OF P ok complete(1)] payload_call_effect [OF P session_okD(1) [OF ok] complete(1)]
    show ?thesis by blast
  qed (use ok in \<open>auto intro: kept\<close>)
  have "dispatch_effect P dv (ret, dv\<lparr>dv_payload := cp', dv_ctx := g',
      dv_sent := dv_sent dv @ [\<lparr>rs_data = [], rs_sw = sw\<rparr>]\<rparr>)" for ret sw
    by (rule received) (use eff inv' in auto)
  then show ?thesis
    using conjunct1 [OF eff] run by (cases r)
      (auto simp: handle_chunk_def or_sw_def io_send_sw_def io_send_response_def has_effect_def Let_def)
qed

lemma handle_ui_no_ub:
  assumes P: "platform_ok P" and ok: "session_ok g"
  shows "no_ub (handle_ui W (pf_bytes P) g (ctx_get_action_metadata g))"
proof (cases "ctx_get_action_metadata g")
  case None
  then show ?thesis by (simp add: handle_ui_def)
next
  case (Some md)
  with session_okD(2) [OF ok] platform_okD(3) [OF P] handle_ui_spec(1) [of "pf_bytes P" g md W]
  show ?thesis by (simp add: screen_env_def)
qed

lemma first_sign_effect:
  assumes P: "platform_ok P" and inv: "dev_inv P dv" and zero: "action_index (dv_ctx dv) = 0"
    and sc: "signing_ok P sc" "take (unat (sc_path_length sc)) (sc_path sc) = path"
      "read_bytes (unat (sc_path_length sc)) (sc_path sc) = Inr path"
  shows "has_effect P dv
    (if ctx_remaining_actions (dv_ctx dv) = 0 then Inr (io_send_sw P SWO_INCORRECT_DATA (dv\<lparr>dv_signing := sc\<rparr>))
     else or_sw P SWO_INCORRECT_DATA (dv\<lparr>dv_signing := sc\<rparr>)
       (rbind (read_bytes (unat (sc_path_length sc)) (sc_path sc)) (derive_addr_from_path (pf_cx P))) (\<lambda>wallet.
         or_sw P SWO_INCORRECT_DATA (dv\<lparr>dv_signing := sc\<lparr>sc_wallet_addr := wallet\<rparr>\<rparr>)
           (handle_ui (pf_wallet_screen P) (pf_bytes P) (dv_ctx dv) (ctx_get_action_metadata (dv_ctx dv))) (\<lambda>ui.
         Inr (0, show_display (Review ui)
                   (disable_comm (dv\<lparr>dv_signing := sc\<lparr>sc_wallet_addr := wallet\<rparr>, dv_review := Some ui\<rparr>))))))"
proof -
  have sw: "has_effect P dv (Inr (io_send_sw P w (dv\<lparr>dv_signing := c\<rparr>)))" if "signing_ok P c" for w c
    using refused [OF no_signature_sw zero that] by (auto simp: has_effect_def io_send_sw_def io_send_response_def Let_def)
  have ok: "session_ok (dv_ctx dv)" using inv by (simp add: dev_inv_def)
  have wallet: "signing_ok P (sc\<lparr>sc_wallet_addr := a\<rparr>)" if "derive_addr_from_path (pf_cx P) path = Inr a" for a
    using sc(1) derive_addr_length [OF platform_okD(4) [OF P] that] by (simp add: signing_ok_def)
  have count: "action_count (dv_ctx dv) \<noteq> 0" if "ctx_remaining_actions (dv_ctx dv) \<noteq> 0"
    using that zero by (simp add: ctx_remaining_actions_def)
  have open_it: "has_effect P dv (Inr (0, show_display (Review ui)
      (disable_comm (dv\<lparr>dv_signing := sc\<lparr>sc_wallet_addr := a\<rparr>, dv_review := Some ui\<rparr>))))"
    if "ctx_remaining_actions (dv_ctx dv) \<noteq> 0" "derive_addr_from_path (pf_cx P) path = Inr a"
      "handle_ui (pf_wallet_screen P) (pf_bytes P) (dv_ctx dv) (ctx_get_action_metadata (dv_ctx dv)) = Inr ui" for a ui
  proof -
    have "reviewed P (dv_ctx dv) (sc\<lparr>sc_wallet_addr := a\<rparr>) ui" using that count zero sc(2) by (simp add: reviewed_def)
    from opened [OF wallet [OF that(2)] this] show ?thesis by (simp add: has_effect_def)
  qed
  show ?thesis
    using sc handle_ui_no_ub [OF P ok] wallet open_it sw
    by (auto intro!: effect_or_sw simp: eip712_no_ub)
qed

lemma sign_effect:
  assumes P: "platform_ok P" and inv: "dev_inv P dv"
  shows "has_effect P dv (handler_sign_action P payload dv)"
proof (cases "payload = [] \<or> bip32_path_read P (drop 1 payload) (unat (hd payload)) = None")
  case True
  then show ?thesis by (auto simp: handler_sign_action_def Let_def split: option.splits)
next
  case False
  then obtain path where ne: "payload \<noteq> []" and path: "bip32_path_read P (drop 1 payload) (unat (hd payload)) = Some path"
    by auto
  from platform_okD(5) [OF P path] have len: "length path = unat (hd payload)" "unat (hd payload) \<le> pf_max_path P"
    by auto
  let ?sc = "(s_signing_ctx_0 P)\<lparr>sc_path := path @ drop (length path) (sc_path (s_signing_ctx_0 P)),
                                 sc_path_length := hd payload\<rparr>"
  have sc: "signing_ok P ?sc" "take (unat (sc_path_length ?sc)) (sc_path ?sc) = path"
    "read_bytes (unat (sc_path_length ?sc)) (sc_path ?sc) = Inr path"
    using len by (simp_all add: signing_ok_def s_signing_ctx_0_def read_bytes_def)
  note run = handler_sign_action_def [of P payload dv, unfolded Let_def]
  show ?thesis
  proof (cases "action_index (dv_ctx dv) = 0")
    case True
    with first_sign_effect [OF P inv True sc] ne path show ?thesis
      unfolding run ctx_current_action_is_first_def by (simp del: read_bytes_exact split del: if_split cong: if_cong)
  next
    case later: False
    have "has_effect P dv (sign_action P dv)"
      using sign_action_cases [OF P inv] continued [OF later] unfolding has_effect_def by blast
    with later ne path show ?thesis
      unfolding run ctx_current_action_is_first_def by simp
  qed
qed

lemma dispatcher_effect:
  assumes P: "platform_ok P" and inv: "dev_inv P dv"
  shows "has_effect P dv (apdu_dispatcher P cmd dv)"
  unfolding apdu_dispatcher_def handler_provide_action_metadata_def handler_set_action_def
  using get_addr_effect [OF P] handle_chunk_effect [OF P inv] sign_effect [OF P inv]
  by (simp split: option.splits)

end
