(* ===== verification/Device_Run.thy ===== *)
theory Device_Run
  imports Device_Inv
begin

text \<open>
  Runs of the machine. The invariant of the device is preserved by every step, and no step runs into
  undefined behaviour. Then the property the application exists for: the signatures sent during a run
  fall into batches, one for each approval of the user, in order; the signatures of a batch are those
  of the first actions of the session that was on the screen when the user approved.
\<close>

section \<open>Steps preserve the invariant\<close>

lemma dev_invD:
  assumes "dev_inv P dv"
  shows "session_ok (dv_ctx dv)" "chunk_inv (dv_payload dv)" "signing_ok P (dv_signing dv)"
    "dv_comm_enabled dv \<longleftrightarrow> dv_review dv = None"
    "dv_review dv = Some ui \<Longrightarrow> reviewed P (dv_ctx dv) (dv_signing dv) ui"
  "dv_review dv = Some ui \<Longrightarrow> dv_displayed dv \<noteq> [] \<and> last (dv_displayed dv) = Review ui"
  using assms by (auto simp: dev_inv_def)

lemma dev_inv_sent: "dev_inv P dv \<Longrightarrow> dev_inv P (dv\<lparr>dv_sent := rs\<rparr>)"
  by (simp add: dev_inv_def)

lemma dev_inv_start: "platform_ok P \<Longrightarrow> dev_inv P (app_start P)"
  by (simp add: dev_inv_def app_start_def enable_comm_def session_ok_0 chunk_inv_0 signing_ok_def s_signing_ctx_0_def)

lemma signed_next:
  assumes ok: "session_ok g" and sg: "signed_by P g sc a md r"
    and g': "g' = (if b then ctx_reset (ctx_switch_to_next_action g) else ctx_switch_to_next_action g)"
  shows "session_ok g'" "action_index g' \<noteq> 0 \<Longrightarrow> g' = ctx_switch_to_next_action g"
proof -
  have "ctx_get_current_action g = Some a" using sg by (simp add: signed_by_def)
  from session_ok_advance [OF ok this] show "session_ok g'" by (simp add: g' session_ok_reset)
  show "action_index g' \<noteq> 0 \<Longrightarrow> g' = ctx_switch_to_next_action g"
    by (auto simp: g' ctx_reset_def s_hl_context_0_def split: if_splits)
qed

lemma sign_action_outcome:
  assumes P: "platform_ok P" and inv: "dev_inv P dv" and run: "sign_action P dv = Inr (ret, dv')"
  obtains (nothing) "dv' = dv\<lparr>dv_sent := dv_sent dv @ [\<lparr>rs_data = [], rs_sw = SWO_INCORRECT_DATA\<rparr>]\<rparr>"
  | (signed) a md r b g' where "signed_by P (dv_ctx dv) (dv_signing dv) a md r"
      "g' = (if b then ctx_reset (ctx_switch_to_next_action (dv_ctx dv)) else ctx_switch_to_next_action (dv_ctx dv))"
      "dv' = dv\<lparr>dv_ctx := g', dv_sent := dv_sent dv @ [r]\<rparr>"
  using sign_action_cases [OF P inv]
proof (elim disjE exE conjE)
  fix ret0 assume "sign_action P dv = Inr (ret0, dv\<lparr>dv_sent := dv_sent dv @ [\<lparr>rs_data = [], rs_sw = SWO_INCORRECT_DATA\<rparr>]\<rparr>)"
  with run have "dv' = dv\<lparr>dv_sent := dv_sent dv @ [\<lparr>rs_data = [], rs_sw = SWO_INCORRECT_DATA\<rparr>]\<rparr>" by auto
  then show thesis by (rule nothing)
next
  fix ret0 a md r g'
  assume sg: "signed_by P (dv_ctx dv) (dv_signing dv) a md r"
    and g': "g' = (if 0 \<le> ret0 \<and> ctx_remaining_actions (ctx_switch_to_next_action (dv_ctx dv)) = 0
             then ctx_reset (ctx_switch_to_next_action (dv_ctx dv)) else ctx_switch_to_next_action (dv_ctx dv))"
    and eq: "sign_action P dv = Inr (ret0, dv\<lparr>dv_ctx := g', dv_sent := dv_sent dv @ [r]\<rparr>)"
  have "dv' = dv\<lparr>dv_ctx := g', dv_sent := dv_sent dv @ [r]\<rparr>" using eq run by auto
  with sg g' show thesis by (rule signed)
qed

lemma sign_action_inv:
  assumes P: "platform_ok P" and inv: "dev_inv P dv" and enabled: "dv_comm_enabled dv"
    and run: "sign_action P dv = Inr (ret, dv')"
  shows "dev_inv P dv'" "dv_comm_enabled dv'"
proof -
  from P inv run have "dev_inv P dv' \<and> dv_comm_enabled dv'"
  proof (cases rule: sign_action_outcome)
    case nothing
    with dev_inv_sent [OF inv] enabled show ?thesis by simp
  next
    case (signed a md r b g')
    from signed_next(1) [OF dev_invD(1) [OF inv] signed(1,2)] dev_invD [OF inv] enabled
    show ?thesis unfolding signed(3) by (simp add: dev_inv_def)
  qed
  then show "dev_inv P dv'" "dv_comm_enabled dv'" by auto
qed

lemma dispatch_effect_inv:
  assumes P: "platform_ok P" and inv: "dev_inv P dv" and enabled: "dv_comm_enabled dv"
    and eff: "dispatch_effect P dv (ret, dv')"
  shows "dev_inv P dv'"
  using eff
proof cases
  case (continued)
  with sign_action_inv [OF P inv enabled] show ?thesis by blast
qed (use dev_invD [OF inv] enabled in \<open>auto simp: dev_inv_def show_display_def disable_comm_def\<close>)

lemma command_effect:
  assumes P: "platform_ok P" and inv: "dev_inv P dv"
  shows "no_ub (app_command P raw dv)"
    and "app_command P raw dv = Inr (Some dv') \<Longrightarrow>
      if dv_comm_enabled dv then \<exists>ret. dispatch_effect P dv (ret, dv')
      else dv' = dv\<lparr>dv_sent := dv_sent dv @ [\<lparr>rs_data = [], rs_sw = SWO_COMMAND_ERROR_NO_INFO\<rparr>]\<rparr>"
proof -
  note answer = answered [OF no_signature_sw, of P dv]
  have eff: "\<exists>out. apdu_dispatcher P cmd dv = Inr out \<and> dispatch_effect P dv out" for cmd
    using dispatcher_effect [OF P inv] by (simp add: has_effect_def)
  show "no_ub (app_command P raw dv)"
  proof (cases "apdu_parser P raw")
    case (Some cmd)
    with eff [of cmd] show ?thesis by (auto simp: app_command_def)
  qed (simp add: app_command_def)
  assume run: "app_command P raw dv = Inr (Some dv')"
  show "if dv_comm_enabled dv then \<exists>ret. dispatch_effect P dv (ret, dv')
      else dv' = dv\<lparr>dv_sent := dv_sent dv @ [\<lparr>rs_data = [], rs_sw = SWO_COMMAND_ERROR_NO_INFO\<rparr>]\<rparr>"
  proof (cases "apdu_parser P raw")
    case None
    with run answer show ?thesis
      by (auto simp: app_command_def comm_enabled_def io_send_sw_def io_send_response_def Let_def split: if_splits)
  next
    case (Some cmd)
    with run eff [of cmd] show ?thesis
      by (auto simp: app_command_def comm_enabled_def io_send_sw_def io_send_response_def Let_def
          rbind_Inr_conv split: if_splits)
  qed
qed

text \<open>The state in which the review's callback signs, and what it does after that.\<close>

definition answered_review :: "device \<Rightarrow> device" where
  "answered_review dv = enable_comm (dv\<lparr>dv_review := None\<rparr>)"

definition after_signing :: "int \<Rightarrow> device \<Rightarrow> device" where
  "after_signing ret dv = (if ret \<noteq> -1 then show_display Status_message_signed dv
                           else show_display Menu (dv\<lparr>dv_ctx := ctx_reset (dv_ctx dv)\<rparr>))"

lemma review_choice_confirm:
  "review_choice P True dv = rbind (sign_action P (answered_review dv)) (\<lambda>(ret, dv1). Inr (after_signing ret dv1))"
  unfolding review_choice_def Let_def answered_review_def after_signing_def
  by (simp add: if_distrib [where f = Inr] cong: if_cong)

lemma answered_review_fields [simp]:
  "dv_ctx (answered_review dv) = dv_ctx dv" "dv_signing (answered_review dv) = dv_signing dv"
  "dv_sent (answered_review dv) = dv_sent dv" "dv_comm_enabled (answered_review dv)"
  by (simp_all add: answered_review_def enable_comm_def)

lemma answered_review_inv: "dev_inv P dv \<Longrightarrow> dev_inv P (answered_review dv)"
  by (simp add: dev_inv_def answered_review_def enable_comm_def)

lemma choice_effect:
  assumes P: "platform_ok P" and inv: "dev_inv P dv"
  shows "no_ub (review_choice P confirm dv)"
    and "review_choice P True dv = Inr dv' \<Longrightarrow> \<exists>ret dv1. sign_action P (answered_review dv) = Inr (ret, dv1) \<and>
      dv_sent dv' = dv_sent dv1 \<and> dv_signing dv' = dv_signing dv1 \<and> dev_inv P dv' \<and>
      (dv_ctx dv' = dv_ctx dv1 \<or> action_index (dv_ctx dv') = 0)"
    and "review_choice P False dv = Inr dv' \<Longrightarrow> dev_inv P dv' \<and> action_index (dv_ctx dv') = 0 \<and>
      dv_sent dv' = dv_sent dv @ [\<lparr>rs_data = [], rs_sw = SWO_CONDITIONS_NOT_SATISFIED\<rparr>]"
proof -
  note inv1 = answered_review_inv [OF inv]
  have zero: "action_index (ctx_reset g) = 0" for g by (simp add: ctx_reset_def s_hl_context_0_def)
  show "no_ub (review_choice P confirm dv)"
  proof (cases confirm)
    case True
    have "no_ub (sign_action P (answered_review dv))"
      using sign_action_cases [OF P inv1] by (elim disjE exE conjE) simp_all
    with True show ?thesis by (simp add: review_choice_confirm no_ub_rbind split: prod.splits)
  qed (simp add: review_choice_def Let_def)
  show "review_choice P False dv = Inr dv' \<Longrightarrow> dev_inv P dv' \<and> action_index (dv_ctx dv') = 0 \<and>
      dv_sent dv' = dv_sent dv @ [\<lparr>rs_data = [], rs_sw = SWO_CONDITIONS_NOT_SATISFIED\<rparr>]"
  proof -
    assume "review_choice P False dv = Inr dv'"
    then have "dv' = show_display Menu (snd (io_send_sw P SWO_CONDITIONS_NOT_SATISFIED
        ((answered_review dv)\<lparr>dv_ctx := ctx_reset (dv_ctx dv)\<rparr>)))"
      by (simp add: review_choice_def Let_def answered_review_def enable_comm_def)
    then show ?thesis
      using dev_invD [OF inv1] zero
      by (simp add: io_send_sw_def io_send_response_def Let_def show_display_def dev_inv_def session_ok_reset)
  qed
  assume "review_choice P True dv = Inr dv'"
  then obtain ret dv1 where run: "sign_action P (answered_review dv) = Inr (ret, dv1)"
    and dv': "dv' = after_signing ret dv1"
    by (auto simp: review_choice_confirm rbind_Inr_conv)
  from sign_action_inv [OF P inv1 _ run] have inv2: "dev_inv P dv1" "dv_comm_enabled dv1" by simp_all
  have "dev_inv P dv'"
    using dev_invD [OF inv2(1)] inv2(2) by (simp add: dv' after_signing_def show_display_def dev_inv_def session_ok_reset)
  with run zero show "\<exists>ret dv1. sign_action P (answered_review dv) = Inr (ret, dv1) \<and>
      dv_sent dv' = dv_sent dv1 \<and> dv_signing dv' = dv_signing dv1 \<and> dev_inv P dv' \<and>
      (dv_ctx dv' = dv_ctx dv1 \<or> action_index (dv_ctx dv') = 0)"
    by (auto simp: dv' after_signing_def show_display_def)
qed

lemma dev_step_inv:
  assumes P: "platform_ok P" and inv: "dev_inv P dv" and step: "dev_step P dv e dv'"
  shows "dev_inv P dv'"
proof (cases e)
  case (Command raw)
  with step have run: "app_command P raw dv = Inr (Some dv')" by (auto elim: command_stepE)
  with command_effect(2) [OF P inv run] dispatch_effect_inv [OF P inv] dev_inv_sent [OF inv]
  show ?thesis by (auto split: if_splits)
next
  case (Choice c)
  with step have "review_choice P c dv = Inr dv'" by (auto elim: choice_stepE)
  with choice_effect(2,3) [OF P inv] show ?thesis by (cases c) auto
qed

interpretation dev: run_invariant "app_start P" "dev_step P" "\<lambda>_. dev_inv P" "platform_ok P" for P
  by unfold_locales (auto intro: dev_inv_start dev_step_inv)

section \<open>What is signed is what was approved\<close>

definition signatures :: "device \<Rightarrow> response list" where
  "signatures dv = filter signature_response (dv_sent dv)"

text \<open>The states in which the user approved, in order.\<close>

definition approvals :: "(device \<times> event) list \<Rightarrow> device list" where
  "approvals tr = map fst (filter (\<lambda>(dv, e). e = Choice True) tr)"

text \<open>
  The response that a session promises for its \<open>i\<close>-th action: how many signatures are still to come,
  and the EIP-712 signature of the action, by the key of the path, for the network of the metadata.
\<close>

definition signing_path :: "s_signing_ctx \<Rightarrow> u32 list" where
  "signing_path sc = take (unat (sc_path_length sc)) (sc_path sc)"

definition signs ::
  "'h platform \<Rightarrow> (byte list \<Rightarrow> byte list) \<Rightarrow> s_hl_context \<Rightarrow> s_signing_ctx \<Rightarrow> nat \<Rightarrow> response \<Rightarrow> bool" where
  "signs P K g sc i r \<longleftrightarrow> i < length (ctx_queue g) \<and>
     (\<exists>md dom msg rr ss info. ctx_get_action_metadata g = Some md \<and>
        (dom, msg) = action_struct_hashes (pf_cmp P) K (md_network md) (sc_wallet_addr sc) (ctx_queue g ! i) \<and>
        bip32_ecdsa_sign (pf_cx P) (signing_path sc) (signing_digest K dom msg) = Some (rr, ss, info) \<and>
        r = \<lparr>rs_data = word_of_nat (length (ctx_queue g) - i - 1)
                # (27 + (if info AND cx_parity_odd (pf_cx P) \<noteq> 0 then 1 else 0)
                      + (if info AND cx_xGTn (pf_cx P) \<noteq> 0 then 2 else 0))
                # rr @ ss,
             rs_sw = SWO_SUCCESS\<rparr>)"

text \<open>The signatures of one approval.\<close>

definition batch ::
  "'h platform \<Rightarrow> (byte list \<Rightarrow> byte list) \<Rightarrow> device \<Rightarrow> response list \<Rightarrow> bool" where
  "batch P K dvc rs \<longleftrightarrow>
     (\<exists>ui md. dv_review dvc = Some ui \<and> last (dv_displayed dvc) = Review ui \<and>
        ctx_get_action_metadata (dv_ctx dvc) = Some md \<and> session_wf (dv_ctx dvc) md \<and>
        session_compatible md (ctx_queue (dv_ctx dvc)) \<and>
        review_screen (pf_wallet_screen P) (pf_bytes P) (dv_ctx dvc) md ui) \<and>
     (\<exists>pk. bip32_derive_pubkey (pf_cx P) (signing_path (dv_signing dvc)) = Some pk \<and>
        sc_wallet_addr (dv_signing dvc) = take 20 (drop 12 (K (drop 1 pk)))) \<and>
     length rs \<le> length (ctx_queue (dv_ctx dvc)) \<and>
     (\<forall>i < length rs. signs P K (dv_ctx dvc) (dv_signing dvc) i (rs ! i))"

text \<open>A session in progress: the approved one, with as many actions signed as the batch has signatures.\<close>

definition in_progress :: "device \<Rightarrow> device \<Rightarrow> response list \<Rightarrow> bool" where
  "in_progress dvc dv rs \<longleftrightarrow> dv_ctx dv = (dv_ctx dvc)\<lparr>action_index := action_index (dv_ctx dv)\<rparr> \<and>
     dv_signing dv = dv_signing dvc \<and> length rs = unat (action_index (dv_ctx dv))"

definition run_inv :: "'h platform \<Rightarrow> (byte list \<Rightarrow> byte list) \<Rightarrow> (device \<times> event) list \<Rightarrow> device \<Rightarrow> bool" where
  "run_inv P K tr dv \<longleftrightarrow> dev_inv P dv \<and>
     (\<exists>bs. signatures dv = concat bs \<and> list_all2 (batch P K) (approvals tr) bs \<and>
        (action_index (dv_ctx dv) \<noteq> 0 \<longrightarrow> bs \<noteq> [] \<and> in_progress (last (approvals tr)) dv (last bs)))"

lemma approvals_snoc [simp]:
  "approvals (tr @ [(dv, Choice True)]) = approvals tr @ [dv]"
  "e \<noteq> Choice True \<Longrightarrow> approvals (tr @ [(dv, e)]) = approvals tr"
  by (simp_all add: approvals_def)

lemma word_of_nat_unat: "word_of_nat (unat (w :: u8)) = w"
  by simp

lemma signed_by_signs:
  assumes P: "platform_ok P" and K: "cx_hashes (pf_cx P) K S" and ok: "session_ok g" and sc: "signing_ok P sc"
    and sg: "signed_by P g sc a md r"
  shows "signs P K g sc (unat (action_index g)) r" "signature_response r"
proof -
  from sg obtain d m sig where a: "ctx_get_current_action g = Some a" and md: "ctx_get_action_metadata g = Some md"
    and hash: "action_hash (pf_cmp P) (pf_bytes P) (pf_cx P) (Some a) (Some md) (sc_wallet_addr sc) = Inr (d, m)"
    and sig: "eip712_sign (pf_cx P) (signing_path sc) d m = Inr sig"
    and r: "r = \<lparr>rs_data = ctx_remaining_actions (ctx_switch_to_next_action g) # signature_bytes sig, rs_sw = SWO_SUCCESS\<rparr>"
    by (auto simp: signed_by_def signing_path_def)
  have inv: "ctx_inv g" using session_okD(1) [OF ok] .
  note cur = current_session [OF ok a]
  have wf: "action_wf (Some md) a" "payload_only a = a"
    using session_okD(2) [OF ok md] cur(4) by (auto simp: session_wf_def list_all_iff)
  have h: "(d, m) = action_struct_hashes (pf_cmp P) K (md_network md) (sc_wallet_addr sc) (ctx_queue g ! unat (action_index g))"
    using action_hash_spec [OF K platform_okD(4,3,2) [OF P] wf _ hash] sc cur(3) by (simp add: signing_ok_def)
  have "unat (ctx_remaining_actions (ctx_switch_to_next_action g)) = length (ctx_queue g) - unat (action_index g) - 1"
    using ctx.remaining_law [OF ctx.advance_law(1) [OF inv]] ctx.advance_law(2) [OF inv] a by (simp add: ctx_session_def)
  then have rem: "ctx_remaining_actions (ctx_switch_to_next_action g) = word_of_nat (length (ctx_queue g) - unat (action_index g) - 1)"
    using word_of_nat_unat by metis
  from eip712_sign_spec [OF K sig] obtain info
    where "bip32_ecdsa_sign (pf_cx P) (signing_path sc) (signing_digest K d m) = Some (sig_r sig, sig_s sig, info)"
      and "sig_v sig = 27 + (if info AND cx_parity_odd (pf_cx P) \<noteq> 0 then 1 else 0)
             + (if info AND cx_xGTn (pf_cx P) \<noteq> 0 then 2 else 0)" by blast
  with h md cur(2) r rem show "signs P K g sc (unat (action_index g)) r"
    unfolding signs_def signature_bytes_def by metis
  show "signature_response r"
    using signature_bytes_length [OF platform_okD(4) [OF P] sig] by (simp add: r signature_response_def)
qed

text \<open>What a step does to the signatures and to a session that is being signed.\<close>

definition keeps :: "device \<Rightarrow> device \<Rightarrow> bool" where
  "keeps dv dv' \<longleftrightarrow> signatures dv' = signatures dv \<and>
     (action_index (dv_ctx dv') = 0 \<or> dv_ctx dv' = dv_ctx dv \<and> dv_signing dv' = dv_signing dv)"

definition signs_next :: "'h platform \<Rightarrow> device \<Rightarrow> device \<Rightarrow> bool" where
  "signs_next P dv dv' \<longleftrightarrow> (\<exists>a md r. signed_by P (dv_ctx dv) (dv_signing dv) a md r \<and>
     signatures dv' = signatures dv @ [r] \<and> dv_signing dv' = dv_signing dv \<and>
     (action_index (dv_ctx dv') = 0 \<or> dv_ctx dv' = ctx_switch_to_next_action (dv_ctx dv)))"

lemma keepsI:
  "dv_sent dv' = dv_sent dv @ [r] \<Longrightarrow> \<not> signature_response r \<Longrightarrow>
   action_index (dv_ctx dv') = 0 \<or> dv_ctx dv' = dv_ctx dv \<and> dv_signing dv' = dv_signing dv \<Longrightarrow> keeps dv dv'"
  by (simp add: keeps_def signatures_def)

lemma sign_action_kinds:
  assumes P: "platform_ok P" and inv: "dev_inv P dv" and run: "sign_action P dv = Inr (ret, dv')"
  shows "keeps dv dv' \<or> signs_next P dv dv'"
  using P inv run
proof (cases rule: sign_action_outcome)
  case nothing
  then have "keeps dv dv'" by (intro keepsI) auto
  then show ?thesis ..
next
  case (signed a md r b g')
  from P obtain K S where "cx_hashes (pf_cx P) K S" by (auto simp: platform_ok_def)
  from signed_by_signs(2) [OF P this dev_invD(1,3) [OF inv] signed(1)] have "signature_response r" .
  moreover have "action_index g' = 0 \<or> g' = ctx_switch_to_next_action (dv_ctx dv)"
    using signed_next(2) [OF dev_invD(1) [OF inv] signed(1,2)] by blast
  ultimately have "signs_next P dv dv'"
    using signed(1) unfolding signs_next_def signed(3) by (auto simp: signatures_def)
  then show ?thesis ..
qed

lemma dispatch_effect_kinds:
  assumes P: "platform_ok P" and inv: "dev_inv P dv" and eff: "dispatch_effect P dv (ret, dv')"
  shows "keeps dv dv' \<or> (action_index (dv_ctx dv) \<noteq> 0 \<and> signs_next P dv dv')"
  using eff
proof cases
  case (opened sc ui)
  then show ?thesis
    by (simp add: keeps_def signatures_def show_display_def disable_comm_def reviewed_def)
next
  case continued
  with sign_action_kinds [OF P inv] show ?thesis by blast
qed (auto intro!: keepsI)

lemma step_kinds:
  assumes P: "platform_ok P" and inv: "dev_inv P dv" and step: "dev_step P dv e dv'"
  obtains (kept) "e \<noteq> Choice True" "keeps dv dv'"
  | (continued) "e \<noteq> Choice True" "action_index (dv_ctx dv) \<noteq> 0" "signs_next P dv dv'"
  | (approved) ui where "e = Choice True" "dv_review dv = Some ui" "keeps dv dv' \<or> signs_next P dv dv'"
proof (cases e)
  case (Command raw)
  with step have run: "app_command P raw dv = Inr (Some dv')" by (auto elim: command_stepE)
  have "keeps dv dv' \<or> (action_index (dv_ctx dv) \<noteq> 0 \<and> signs_next P dv dv')"
  proof (cases "dv_comm_enabled dv")
    case True
    with command_effect(2) [OF P inv run] dispatch_effect_kinds [OF P inv] show ?thesis by auto
  next
    case False
    with command_effect(2) [OF P inv run] have "keeps dv dv'" by (intro keepsI) auto
    then show ?thesis ..
  qed
  with Command kept continued show thesis by blast
next
  case (Choice c)
  with step have run: "review_choice P c dv = Inr dv'" and rev: "dv_review dv \<noteq> None" by (auto elim: choice_stepE)
  show thesis
  proof (cases c)
    case False
    with choice_effect(3) [OF P inv] run have "keeps dv dv'" by (intro keepsI) auto
    with Choice False kept show thesis by blast
  next
    case True
    with run have "review_choice P True dv = Inr dv'" by simp
    from choice_effect(2) [OF P inv this] obtain ret dv1
      where s: "sign_action P (answered_review dv) = Inr (ret, dv1)" and eq: "dv_sent dv' = dv_sent dv1"
        "dv_signing dv' = dv_signing dv1" "dv_ctx dv' = dv_ctx dv1 \<or> action_index (dv_ctx dv') = 0" by blast
    from sign_action_kinds [OF P answered_review_inv [OF inv] s] eq
    have "keeps dv dv' \<or> signs_next P dv dv'"
      by (auto simp: keeps_def signs_next_def signatures_def)
    with Choice True rev approved show thesis by blast
  qed
qed

text \<open>The first signature of a session that is on the screen opens a batch, the next ones extend it.\<close>

lemma batch_empty:
  assumes P: "platform_ok P" and K: "cx_hashes (pf_cx P) K S" and inv: "dev_inv P dv" and rev: "dv_review dv = Some ui"
  shows "batch P K dv []"
proof -
  from dev_invD(5) [OF inv rev] have rv: "reviewed P (dv_ctx dv) (dv_signing dv) ui" .
  have ok: "session_ok (dv_ctx dv)" using dev_invD(1) [OF inv] .
  from rv obtain md where md: "ctx_get_action_metadata (dv_ctx dv) = Some md"
    by (cases "ctx_get_action_metadata (dv_ctx dv)") (auto simp: reviewed_def handle_ui_def)
  note wf = session_okD(2) [OF ok md]
  have "screen_env (pf_bytes P) (dv_ctx dv) md"
    using wf platform_okD(3) [OF P] by (simp add: screen_env_def)
  from handle_ui_spec(2) [OF this] rv md
  have "review_screen (pf_wallet_screen P) (pf_bytes P) (dv_ctx dv) md ui" by (simp add: reviewed_def)
  moreover have "\<exists>pk. bip32_derive_pubkey (pf_cx P) (signing_path (dv_signing dv)) = Some pk \<and>
      sc_wallet_addr (dv_signing dv) = take 20 (drop 12 (K (drop 1 pk)))"
    using rv derive_addr_spec [OF K] by (simp add: reviewed_def signing_path_def)
  ultimately show ?thesis
    using md wf rev dev_invD(6) [OF inv rev] by (simp add: batch_def)
qed

lemma signs_same_session:
  assumes "in_progress dvc dv rs" "signs P K (dv_ctx dv) (dv_signing dv) i r"
  shows "signs P K (dv_ctx dvc) (dv_signing dvc) i r"
proof -
  obtain n where "dv_ctx dv = (dv_ctx dvc)\<lparr>action_index := n\<rparr>" "dv_signing dv = dv_signing dvc"
    using assms(1) by (auto simp: in_progress_def)
  then have "ctx_queue (dv_ctx dv) = ctx_queue (dv_ctx dvc)" "dv_signing dv = dv_signing dvc"
    "ctx_get_action_metadata (dv_ctx dv) = ctx_get_action_metadata (dv_ctx dvc)"
    by (simp_all add: ctx_queue_def ctx_get_action_metadata_def)
  with assms(2) show ?thesis by (simp only: signs_def)
qed

lemma batch_snoc:
  assumes P: "platform_ok P" and K: "cx_hashes (pf_cx P) K S" and inv: "dev_inv P dv"
    and b: "batch P K dvc rs" and prog: "in_progress dvc dv rs"
    and sg: "signed_by P (dv_ctx dv) (dv_signing dv) a md r"
  shows "batch P K dvc (rs @ [r])"
proof -
  have new: "signs P K (dv_ctx dvc) (dv_signing dvc) (length rs) r"
    using signs_same_session [OF prog signed_by_signs(1) [OF P K dev_invD(1,3) [OF inv] sg]] prog
    by (simp add: in_progress_def)
  then have "length rs < length (ctx_queue (dv_ctx dvc))" by (simp only: signs_def)
  moreover have "\<forall>i < length (rs @ [r]). signs P K (dv_ctx dvc) (dv_signing dvc) i ((rs @ [r]) ! i)"
    using b new by (auto simp: batch_def nth_append less_Suc_eq)
  ultimately show ?thesis using b by (auto simp: batch_def)
qed

lemma in_progress_next:
  assumes inv: "dev_inv P dv" and prog: "in_progress dvc dv rs" and sg: "signed_by P (dv_ctx dv) (dv_signing dv) a md r"
    and adv: "dv_ctx dv' = ctx_switch_to_next_action (dv_ctx dv)" "dv_signing dv' = dv_signing dv"
  shows "in_progress dvc dv' (rs @ [r])"
proof -
  obtain n where n: "dv_ctx dv = (dv_ctx dvc)\<lparr>action_index := n\<rparr>" "dv_signing dv = dv_signing dvc" "length rs = unat n"
    using prog by (auto simp: in_progress_def)
  have a: "ctx_get_current_action (dv_ctx dv) = Some a" using sg by (simp add: signed_by_def)
  have "ctx_inv (dv_ctx dv)" using session_okD(1) [OF dev_invD(1) [OF inv]] .
  from ctx.advance_law(2) [OF this] a have "unat (action_index (ctx_switch_to_next_action (dv_ctx dv)))
      = unat (action_index (dv_ctx dv)) + 1" by (simp add: ctx_session_def)
  with n adv show ?thesis by (simp add: in_progress_def ctx_switch_to_next_action_def)
qed

lemma in_progress_start:
  "action_index (dv_ctx dv) = 0 \<Longrightarrow> in_progress dv dv []"
  by (simp add: in_progress_def)

lemma run_inv_start: "platform_ok P \<Longrightarrow> run_inv P K [] (app_start P)"
  using dev_inv_start [of P]
  by (simp add: run_inv_def approvals_def signatures_def app_start_def enable_comm_def s_hl_context_0_def)

text \<open>The two ways a batch grows, as facts about the list of batches.\<close>

lemma run_inv_kept:
  assumes inv: "run_inv P K tr dv" "dev_inv P dv'" and kept: "keeps dv dv'" and e: "e \<noteq> Choice True"
  shows "run_inv P K (tr @ [(dv, e)]) dv'"
  using assms by (auto simp: run_inv_def keeps_def in_progress_def)

lemma run_inv_continued:
  assumes P: "platform_ok P" and K: "cx_hashes (pf_cx P) K S" and inv: "run_inv P K tr dv" "dev_inv P dv'"
    and nz: "action_index (dv_ctx dv) \<noteq> 0" and sg: "signs_next P dv dv'" and e: "e \<noteq> Choice True"
  shows "run_inv P K (tr @ [(dv, e)]) dv'"
proof -
  from inv(1) have di: "dev_inv P dv" by (simp add: run_inv_def)
  from inv(1) nz obtain bs where bs: "signatures dv = concat bs" "list_all2 (batch P K) (approvals tr) bs" "bs \<noteq> []"
    "in_progress (last (approvals tr)) dv (last bs)" by (auto simp: run_inv_def)
  obtain bs0 rs where split: "bs = bs0 @ [rs]" using bs(3) by (cases bs rule: rev_cases) auto
  with bs(2) obtain as0 dvc where aps: "approvals tr = as0 @ [dvc]" "list_all2 (batch P K) as0 bs0" "batch P K dvc rs"
    by (auto simp: list_all2_append2 list_all2_Cons2)
  have prog: "in_progress dvc dv rs" using bs(4) split aps(1) by simp
  from sg obtain a md r where r: "signed_by P (dv_ctx dv) (dv_signing dv) a md r" "signatures dv' = signatures dv @ [r]"
    "dv_signing dv' = dv_signing dv" "action_index (dv_ctx dv') = 0 \<or> dv_ctx dv' = ctx_switch_to_next_action (dv_ctx dv)"
    by (auto simp: signs_next_def)
  have "signatures dv' = concat (bs0 @ [rs @ [r]])" using r(2) bs(1) split by simp
  moreover have "list_all2 (batch P K) (approvals (tr @ [(dv, e)])) (bs0 @ [rs @ [r]])"
    using e aps batch_snoc [OF P K di aps(3) prog r(1)] by (simp add: list_all2_appendI)
  moreover have "action_index (dv_ctx dv') \<noteq> 0 \<longrightarrow> in_progress dvc dv' (rs @ [r])"
    using r(3,4) in_progress_next [OF di prog r(1)] by blast
  ultimately show ?thesis
    unfolding run_inv_def using inv(2) e aps(1) by (intro conjI exI [of _ "bs0 @ [rs @ [r]]"]) simp_all
qed

lemma run_inv_approved:
  assumes P: "platform_ok P" and K: "cx_hashes (pf_cx P) K S" and inv: "run_inv P K tr dv" "dev_inv P dv'"
    and rev: "dv_review dv = Some ui" and sg: "keeps dv dv' \<or> signs_next P dv dv'"
  shows "run_inv P K (tr @ [(dv, Choice True)]) dv'"
proof -
  from inv(1) have di: "dev_inv P dv" by (simp add: run_inv_def)
  from inv(1) obtain bs where bs: "signatures dv = concat bs" "list_all2 (batch P K) (approvals tr) bs"
    by (auto simp: run_inv_def)
  have zero: "action_index (dv_ctx dv) = 0" using dev_invD(5) [OF di rev] by (simp add: reviewed_def)
  note start = batch_empty [OF P K di rev] in_progress_start [OF zero]
  have "\<exists>rs. signatures dv' = signatures dv @ rs \<and> batch P K dv rs \<and>
      (action_index (dv_ctx dv') \<noteq> 0 \<longrightarrow> in_progress dv dv' rs)"
    using sg
  proof
    assume "keeps dv dv'"
    with start zero show ?thesis by (intro exI [of _ "[]"]) (auto simp: keeps_def)
  next
    assume "signs_next P dv dv'"
    then obtain a md r where r: "signed_by P (dv_ctx dv) (dv_signing dv) a md r" "signatures dv' = signatures dv @ [r]"
      "dv_signing dv' = dv_signing dv" "action_index (dv_ctx dv') = 0 \<or> dv_ctx dv' = ctx_switch_to_next_action (dv_ctx dv)"
      by (auto simp: signs_next_def)
    from batch_snoc [OF P K di start r(1)] in_progress_next [OF di start(2) r(1)] r(2-4)
    show ?thesis by (intro exI [of _ "[r]"]) auto
  qed
  then obtain rs where "signatures dv' = concat (bs @ [rs])" "batch P K dv rs"
    "action_index (dv_ctx dv') \<noteq> 0 \<longrightarrow> in_progress dv dv' rs" using bs(1) by auto
  then show ?thesis
    unfolding run_inv_def using inv(2) bs(2) by (intro conjI exI [of _ "bs @ [rs]"]) (simp_all add: list_all2_appendI)
qed

lemma run_inv_step:
  assumes P: "platform_ok P" and K: "cx_hashes (pf_cx P) K S" and inv: "run_inv P K tr dv"
    and step: "dev_step P dv e dv'"
  shows "run_inv P K (tr @ [(dv, e)]) dv'"
proof -
  from inv have di: "dev_inv P dv" by (simp add: run_inv_def)
  note di' = dev_step_inv [OF P di step]
  from P di step show ?thesis
  proof (cases rule: step_kinds)
    case kept
    from run_inv_kept [OF inv di' kept(2,1)] show ?thesis .
  next
    case continued
    from run_inv_continued [OF P K inv di' continued(2,3,1)] show ?thesis .
  next
    case (approved ui)
    from run_inv_approved [OF P K inv di' approved(2,3)] approved(1) show ?thesis by simp
  qed
qed

interpretation signed_runs: run_invariant "app_start P" "dev_step P" "run_inv P K"
  "platform_ok P \<and> (\<exists>S. cx_hashes (pf_cx P) K S)" for P K
  by unfold_locales (auto intro: run_inv_start run_inv_step)

end
