(* ===== verification/Device_Live.thy ===== *)
theory Device_Live
  imports Device_Run Action_Size
begin

text \<open>
  Progress of the machine. When the services deliver, a current action is always signed: the refusals of
  \<open>sign_action\<close> are out of reach. So after one approval, repeating the signing command produces the
  signatures of the whole session, in order, and leaves the context empty for the next one.
\<close>

section \<open>Signing succeeds\<close>

text \<open>Services that deliver, and a transport that does not fail.\<close>

definition delivers :: "'h platform \<Rightarrow> bool" where
  "delivers P \<longleftrightarrow> cx_delivers (pf_cx P) \<and> cmp_sizes (pf_cmp P) \<and> (\<forall>rs r. 0 \<le> io_ret P rs r)"

definition context_after :: "s_hl_context \<Rightarrow> s_hl_context" where
  "context_after g = (if ctx_remaining_actions (ctx_switch_to_next_action g) = 0
     then ctx_reset (ctx_switch_to_next_action g) else ctx_switch_to_next_action g)"

lemma sign_action_signs:
  assumes P: "platform_ok P" "delivers P" and inv: "dev_inv P dv"
    and a: "ctx_get_current_action (dv_ctx dv) = Some a"
  obtains md r ret where "signed_by P (dv_ctx dv) (dv_signing dv) a md r" "0 \<le> ret"
    "sign_action P dv = Inr (ret, dv\<lparr>dv_ctx := context_after (dv_ctx dv), dv_sent := dv_sent dv @ [r]\<rparr>)"
proof -
  let ?g = "dv_ctx dv" and ?sc = "dv_signing dv"
  have ok: "session_ok ?g" and sc: "signing_ok P ?sc" using dev_invD [OF inv] by auto
  from current_session [OF ok a] obtain md where md: "ctx_get_action_metadata ?g = Some md" by blast
  have wf: "action_wf (Some md) a" "payload_only a = a"
    using session_okD(2) [OF ok md] current_session(4) [OF ok a] by (auto simp: session_wf_def list_all_iff)
  have X: "cx_delivers (pf_cx P)" "cmp_sizes (pf_cmp P)" "\<And>rs r. 0 \<le> io_ret P rs r" using P(2) by (auto simp: delivers_def)
  from action_hash_accepted [OF X(1) platform_okD(4,3,2) [OF P(1)] X(2) wf, of "sc_wallet_addr ?sc"] sc
  obtain d m where hash: "action_hash (pf_cmp P) (pf_bytes P) (pf_cx P) (Some a) (Some md) (sc_wallet_addr ?sc) = Inr (d, m)"
    by (auto simp: accepted_conv signing_ok_def)
  obtain sg where sg: "eip712_sign (pf_cx P) (take (unat (sc_path_length ?sc)) (sc_path ?sc)) d m = Inr sg"
    using eip712_sign_accepted [OF X(1)] unfolding accepted_conv by blast
  have path: "read_bytes (unat (sc_path_length ?sc)) (sc_path ?sc) = Inr (take (unat (sc_path_length ?sc)) (sc_path ?sc))"
    using sc by (simp add: signing_ok_def read_bytes_def)
  let ?r = "\<lparr>rs_data = ctx_remaining_actions (ctx_switch_to_next_action ?g) # signature_bytes sg, rs_sw = SWO_SUCCESS\<rparr>"
  have "signed_by P ?g ?sc a md ?r" using a md hash sg by (auto simp: signed_by_def)
  moreover have "sign_action P dv = Inr (io_ret P (dv_sent dv) ?r,
      dv\<lparr>dv_ctx := context_after ?g, dv_sent := dv_sent dv @ [?r]\<rparr>)"
    using a md hash sg path X(3)
    by (cases "ctx_remaining_actions (ctx_switch_to_next_action ?g) = 0")
      (simp_all add: sign_action_def Let_def or_sw_def io_send_response_def device_sent_ctx context_after_def)
  ultimately show thesis using that X(3) by blast
qed

text \<open>The counts behind \<open>context_after\<close>.\<close>

lemma context_after_cases:
  assumes ok: "session_ok g" and a: "ctx_get_current_action g = Some a"
  shows "unat (action_index g) + 1 = length (ctx_queue g) \<Longrightarrow> context_after g = s_hl_context_0"
    and "unat (action_index g) + 1 < length (ctx_queue g) \<Longrightarrow> context_after g = ctx_switch_to_next_action g \<and>
      unat (action_index (context_after g)) = unat (action_index g) + 1"
proof -
  have inv: "ctx_inv g" using session_okD(1) [OF ok] .
  have adv: "unat (action_index (ctx_switch_to_next_action g)) = unat (action_index g) + 1"
    using ctx.advance_law(2) [OF inv] a by (simp add: ctx_session_def)
  have rem: "unat (ctx_remaining_actions (ctx_switch_to_next_action g)) = length (ctx_queue g) - (unat (action_index g) + 1)"
    using ctx.remaining_law [OF ctx.advance_law(1) [OF inv]] ctx.advance_law(2) [OF inv] a by (simp add: ctx_session_def)
  show "unat (action_index g) + 1 = length (ctx_queue g) \<Longrightarrow> context_after g = s_hl_context_0"
    using rem by (simp add: context_after_def ctx_reset_def unat_eq_zero)
  assume lt: "unat (action_index g) + 1 < length (ctx_queue g)"
  then have "ctx_remaining_actions (ctx_switch_to_next_action g) \<noteq> 0" using rem by auto
  then show "context_after g = ctx_switch_to_next_action g \<and>
      unat (action_index (context_after g)) = unat (action_index g) + 1"
    using adv by (simp add: context_after_def)
qed

section \<open>The signing command\<close>

definition sign_command :: "'h platform \<Rightarrow> byte list \<Rightarrow> byte list \<Rightarrow> u32 list \<Rightarrow> bool" where
  "sign_command P raw buf path \<longleftrightarrow>
     (\<exists>cmd. apdu_parser P raw = Some cmd \<and> cmd_cla cmd = CLA \<and> cmd_ins cmd = SIGN_ACTION \<and> cmd_p1 cmd = 0 \<and>
        cmd_p2 cmd = 0 \<and> cmd_data cmd = Some buf) \<and>
     buf \<noteq> [] \<and> bip32_path_read P (drop 1 buf) (unat (hd buf)) = Some path"

definition signing_for :: "'h platform \<Rightarrow> byte list \<Rightarrow> u32 list \<Rightarrow> byte list \<Rightarrow> s_signing_ctx" where
  "signing_for P buf path wallet = \<lparr>sc_path = path @ drop (length path) (replicate (pf_max_path P) 0),
     sc_path_length = hd buf, sc_wallet_addr = wallet\<rparr>"

lemma sign_command_dispatch:
  "sign_command P raw buf path \<Longrightarrow> dv_comm_enabled dv \<Longrightarrow>
   app_command P raw dv = rbind (handler_sign_action P buf dv) (\<lambda>(ret, dv). if ret < 0 then Inr None else Inr (Some dv))"
  by (auto simp: sign_command_def app_command_def comm_enabled_def apdu_dispatcher_def instruction_defs)

text \<open>A later signing command with the path of the approval signs the current action.\<close>

lemma continue_signs:
  assumes P: "platform_ok P" "delivers P" and inv: "dev_inv P dv" and enabled: "dv_comm_enabled dv"
    and cmd: "sign_command P raw buf path" and sc: "dv_signing dv = signing_for P buf path wallet"
    and nz: "action_index (dv_ctx dv) \<noteq> 0" and a: "ctx_get_current_action (dv_ctx dv) = Some a"
  obtains md r dv' where "signed_by P (dv_ctx dv) (dv_signing dv) a md r" "dev_step P dv (Command raw) dv'"
    "dv' = dv\<lparr>dv_ctx := context_after (dv_ctx dv), dv_sent := dv_sent dv @ [r]\<rparr>"
proof -
  obtain md r ret where sg: "signed_by P (dv_ctx dv) (dv_signing dv) a md r" and ret: "0 \<le> ret"
    and run: "sign_action P dv = Inr (ret, dv\<lparr>dv_ctx := context_after (dv_ctx dv), dv_sent := dv_sent dv @ [r]\<rparr>)"
    using sign_action_signs [OF P inv a] .
  have "handler_sign_action P buf dv = sign_action P dv"
    using cmd nz sc unfolding handler_sign_action_def
    by (simp add: sign_command_def signing_for_def s_signing_ctx_0_def ctx_current_action_is_first_def Let_def)
  then have "app_command P raw dv = Inr (Some (dv\<lparr>dv_ctx := context_after (dv_ctx dv), dv_sent := dv_sent dv @ [r]\<rparr>))"
    using run ret by (simp add: sign_command_dispatch [OF cmd enabled])
  from dev_step.command [OF this] sg that show thesis by blast
qed

section \<open>A whole session\<close>

lemma runs_Cons: "runs s' stp tr t \<Longrightarrow> stp s e s' \<Longrightarrow> runs s stp ((s, e) # tr) t"
proof (induction rule: runs.induct)
  case runs_none
  then show ?case using runs_snoc [OF runs.runs_none] by fastforce
next
  case (runs_snoc tr u f v)
  from runs.runs_snoc [OF runs_snoc.IH [OF runs_snoc.prems] runs_snoc.hyps(2)] show ?case by simp
qed

lemma dev_runs_Cons:
  "dev_step P s e s' \<Longrightarrow> runs s' (dev_step P) tr t \<Longrightarrow> runs s (dev_step P) ((s, e) # tr) t"
  by (rule runs_Cons)

text \<open>The signatures of the actions from \<open>i\<close> on.\<close>

definition signs_from ::
  "'h platform \<Rightarrow> (byte list \<Rightarrow> byte list) \<Rightarrow> device \<Rightarrow> nat \<Rightarrow> response list \<Rightarrow> bool" where
  "signs_from P K dv i rs \<longleftrightarrow> i + length rs = length (ctx_queue (dv_ctx dv)) \<and>
     (\<forall>j < length rs. signs P K (dv_ctx dv) (dv_signing dv) (i + j) (rs ! j))"

lemma signs_from_Cons:
  "signs P K (dv_ctx dv) (dv_signing dv) i r \<Longrightarrow> signs_from P K dv (Suc i) rs \<Longrightarrow> signs_from P K dv i (r # rs)"
  unfolding signs_from_def by (auto simp: nth_Cons split: nat.splits)

lemma signs_from_step:
  assumes "signs_from P K dv' i rs" "dv_signing dv' = dv_signing dv"
    "dv_ctx dv' = ctx_switch_to_next_action (dv_ctx dv)"
  shows "signs_from P K dv i rs"
proof -
  have same: "ctx_queue (dv_ctx dv') = ctx_queue (dv_ctx dv)"
    "ctx_get_action_metadata (dv_ctx dv') = ctx_get_action_metadata (dv_ctx dv)"
    using assms(3) by (simp_all add: ctx_switch_to_next_action_def ctx_queue_def ctx_get_action_metadata_def)
  show ?thesis using assms(1) unfolding signs_from_def signs_def same assms(2) .
qed

lemma drain_signs:
  assumes P: "platform_ok P" "delivers P" and K: "cx_hashes (pf_cx P) K S" and cmd: "sign_command P raw buf path"
  shows "dev_inv P dv \<Longrightarrow> dv_comm_enabled dv \<Longrightarrow> dv_signing dv = signing_for P buf path wallet \<Longrightarrow>
    action_index (dv_ctx dv) \<noteq> 0 \<Longrightarrow> length (ctx_queue (dv_ctx dv)) = unat (action_index (dv_ctx dv)) + Suc k \<Longrightarrow>
    \<exists>tr dv' rs. runs dv (dev_step P) tr dv' \<and> map snd tr = replicate (Suc k) (Command raw) \<and>
      signatures dv' = signatures dv @ rs \<and> signs_from P K dv (unat (action_index (dv_ctx dv))) rs \<and>
      dv_ctx dv' = s_hl_context_0"
proof (induction k arbitrary: dv)
  case (0 dv)
  have ok: "session_ok (dv_ctx dv)" using dev_invD(1) [OF 0(1)] .
  from ctx.current_law [OF session_okD(1) [OF ok]] 0(5)
  obtain a where a: "ctx_get_current_action (dv_ctx dv) = Some a" by (simp add: ctx_session_def)
  obtain md r dv' where st: "signed_by P (dv_ctx dv) (dv_signing dv) a md r" "dev_step P dv (Command raw) dv'"
    "dv' = dv\<lparr>dv_ctx := context_after (dv_ctx dv), dv_sent := dv_sent dv @ [r]\<rparr>"
    using continue_signs [OF P 0(1,2) cmd 0(3,4) a] .
  note sg = signed_by_signs [OF P(1) K ok dev_invD(3) [OF 0(1)] st(1)]
  have "runs dv (dev_step P) [(dv, Command raw)] dv'" using dev_runs_Cons [OF st(2) runs_none] .
  moreover have "signatures dv' = signatures dv @ [r]" using st(3) sg(2) by (simp add: signatures_def)
  moreover have "signs_from P K dv (unat (action_index (dv_ctx dv))) [r]" using sg(1) 0(5) by (simp add: signs_from_def)
  moreover have "dv_ctx dv' = s_hl_context_0" using context_after_cases(1) [OF ok a] 0(5) st(3) by simp
  ultimately show ?case by (intro exI [of _ "[(dv, Command raw)]"] exI [of _ dv'] exI [of _ "[r]"]) simp
next
  case (Suc k dv)
  have ok: "session_ok (dv_ctx dv)" using dev_invD(1) [OF Suc.prems(1)] .
  from ctx.current_law [OF session_okD(1) [OF ok]] Suc.prems(5)
  obtain a where a: "ctx_get_current_action (dv_ctx dv) = Some a" by (simp add: ctx_session_def)
  obtain md r dv' where st: "signed_by P (dv_ctx dv) (dv_signing dv) a md r" "dev_step P dv (Command raw) dv'"
    "dv' = dv\<lparr>dv_ctx := context_after (dv_ctx dv), dv_sent := dv_sent dv @ [r]\<rparr>"
    using continue_signs [OF P Suc.prems(1,2) cmd Suc.prems(3,4) a] .
  note sg = signed_by_signs [OF P(1) K ok dev_invD(3) [OF Suc.prems(1)] st(1)]
  have "unat (action_index (dv_ctx dv)) + 1 < length (ctx_queue (dv_ctx dv))" using Suc.prems(5) by simp
  note after = context_after_cases(2) [OF ok a this]
  have ctx': "dv_ctx dv' = ctx_switch_to_next_action (dv_ctx dv)" using conjunct1 [OF after] st(3) by simp
  have idx': "unat (action_index (dv_ctx dv')) = unat (action_index (dv_ctx dv)) + 1"
    using conjunct2 [OF after] st(3) by simp
  have q': "ctx_queue (dv_ctx dv') = ctx_queue (dv_ctx dv)"
    by (simp add: ctx' ctx_switch_to_next_action_def ctx_queue_def)
  have "\<exists>tr dv'' rs. runs dv' (dev_step P) tr dv'' \<and> map snd tr = replicate (Suc k) (Command raw) \<and>
      signatures dv'' = signatures dv' @ rs \<and> signs_from P K dv' (unat (action_index (dv_ctx dv'))) rs \<and>
      dv_ctx dv'' = s_hl_context_0"
  proof (rule Suc.IH)
    show "dev_inv P dv'" by (rule dev_step_inv [OF P(1) Suc.prems(1) st(2)])
    show "action_index (dv_ctx dv') \<noteq> 0" using idx' by auto
    show "length (ctx_queue (dv_ctx dv')) = unat (action_index (dv_ctx dv')) + Suc k"
      unfolding q' idx' using Suc.prems(5) by simp
  qed (use st(3) Suc.prems in simp_all)
  then obtain tr dv'' rs where rest: "runs dv' (dev_step P) tr dv''" "map snd tr = replicate (Suc k) (Command raw)"
    "signatures dv'' = signatures dv' @ rs" "signs_from P K dv' (unat (action_index (dv_ctx dv'))) rs"
    "dv_ctx dv'' = s_hl_context_0" by blast
  have "signs_from P K dv (Suc (unat (action_index (dv_ctx dv)))) rs"
    using signs_from_step [OF rest(4) _ ctx'] st(3) idx' by simp
  from signs_from_Cons [OF sg(1) this]
  have "signs_from P K dv (unat (action_index (dv_ctx dv))) (r # rs)" .
  moreover have "signatures dv'' = signatures dv @ r # rs" using rest(3) st(3) sg(2) by (simp add: signatures_def)
  moreover have "runs dv (dev_step P) ((dv, Command raw) # tr) dv''" using dev_runs_Cons [OF st(2) rest(1)] .
  ultimately show ?case using rest(2,5)
    by (intro exI [of _ "(dv, Command raw) # tr"] exI [of _ dv''] exI [of _ "r # rs"]) simp
qed

text \<open>The approval signs the first action.\<close>

lemma approve_signs:
  assumes P: "platform_ok P" "delivers P" and inv: "dev_inv P dv" and rev: "dv_review dv = Some ui"
  obtains md a r dv' where "signed_by P (dv_ctx dv) (dv_signing dv) a md r" "dev_step P dv (Choice True) dv'"
    "dv_ctx dv' = context_after (dv_ctx dv)" "dv_signing dv' = dv_signing dv" "dv_sent dv' = dv_sent dv @ [r]"
    "dv_comm_enabled dv'"
proof -
  have ok: "session_ok (dv_ctx dv)" using dev_invD(1) [OF inv] .
  from dev_invD(5) [OF inv rev] have zero: "action_index (dv_ctx dv) = 0" and "action_count (dv_ctx dv) \<noteq> 0"
    by (auto simp: reviewed_def)
  then have "length (ctx_queue (dv_ctx dv)) \<noteq> 0"
    using length_ctx_queue [OF session_okD(1) [OF ok]] by (simp add: unat_eq_zero)
  with ctx.current_law [OF session_okD(1) [OF ok]] zero
  obtain a where a: "ctx_get_current_action (dv_ctx (answered_review dv)) = Some a" by (auto simp: ctx_session_def)
  obtain md r ret where sg: "signed_by P (dv_ctx (answered_review dv)) (dv_signing (answered_review dv)) a md r" "0 \<le> ret"
    and run: "sign_action P (answered_review dv) = Inr (ret, (answered_review dv)
      \<lparr>dv_ctx := context_after (dv_ctx (answered_review dv)), dv_sent := dv_sent (answered_review dv) @ [r]\<rparr>)"
    using sign_action_signs [OF P answered_review_inv [OF inv] a] .
  let ?dv' = "show_display Status_message_signed ((answered_review dv)
      \<lparr>dv_ctx := context_after (dv_ctx dv), dv_sent := dv_sent dv @ [r]\<rparr>)"
  have "review_choice P True dv = Inr ?dv'"
    using run sg(2) by (simp add: review_choice_confirm after_signing_def)
  then have "dev_step P dv (Choice True) ?dv'" using rev by (intro dev_step.choice) simp_all
  from that [OF sg(1) [simplified] this] show thesis by (simp add: show_display_def)
qed

lemma approve_and_drain:
  assumes P: "platform_ok P" "delivers P" and K: "cx_hashes (pf_cx P) K S" and cmd: "sign_command P raw buf path"
    and inv: "dev_inv P dv" and rev: "dv_review dv = Some ui" and sc: "dv_signing dv = signing_for P buf path wallet"
  shows "\<exists>tr dv' rs. runs dv (dev_step P) tr dv' \<and>
      map snd tr = Choice True # replicate (length (ctx_queue (dv_ctx dv)) - 1) (Command raw) \<and>
      signatures dv' = signatures dv @ rs \<and> signs_from P K dv 0 rs \<and> dv_ctx dv' = s_hl_context_0"
proof -
  have ok: "session_ok (dv_ctx dv)" using dev_invD(1) [OF inv] .
  obtain md a r dv1 where sg: "signed_by P (dv_ctx dv) (dv_signing dv) a md r" and st: "dev_step P dv (Choice True) dv1"
    and dv1: "dv_ctx dv1 = context_after (dv_ctx dv)" "dv_signing dv1 = dv_signing dv" "dv_sent dv1 = dv_sent dv @ [r]"
      "dv_comm_enabled dv1" using approve_signs [OF P inv rev] .
  note sig = signed_by_signs [OF P(1) K ok dev_invD(3) [OF inv] sg]
  have a: "ctx_get_current_action (dv_ctx dv) = Some a" using sg by (simp add: signed_by_def)
  have zero: "unat (action_index (dv_ctx dv)) = 0" using dev_invD(5) [OF inv rev] by (simp add: reviewed_def)
  have sent: "signatures dv1 = signatures dv @ [r]" using dv1(3) sig(2) by (simp add: signatures_def)
  show ?thesis
  proof (cases "length (ctx_queue (dv_ctx dv))")
    case 0
    with current_session(2) [OF ok a] show ?thesis by simp
  next
    case (Suc n)
    show ?thesis
    proof (cases n)
      case 0
      have "dv_ctx dv1 = s_hl_context_0"
        using context_after_cases(1) [OF ok a] zero Suc 0 dv1(1) by simp
      moreover have "signs_from P K dv 0 [r]" using sig(1) zero Suc 0 by (simp add: signs_from_def)
      ultimately show ?thesis using dev_runs_Cons [OF st runs_none] sent Suc 0
        by (intro exI [of _ "[(dv, Choice True)]"] exI [of _ dv1] exI [of _ "[r]"]) simp
    next
      case (Suc k)
      have len: "length (ctx_queue (dv_ctx dv)) = Suc (Suc k)" using Suc \<open>length _ = Suc n\<close> by simp
      then have "unat (action_index (dv_ctx dv)) + 1 < length (ctx_queue (dv_ctx dv))" using zero by simp
      note after = context_after_cases(2) [OF ok a this]
      have ctx1: "dv_ctx dv1 = ctx_switch_to_next_action (dv_ctx dv)" using conjunct1 [OF after] dv1(1) by simp
      have idx1: "unat (action_index (dv_ctx dv1)) = 1" using conjunct2 [OF after] dv1(1) zero by simp
      have q1: "ctx_queue (dv_ctx dv1) = ctx_queue (dv_ctx dv)"
        by (simp add: ctx1 ctx_switch_to_next_action_def ctx_queue_def)
      have "dev_inv P dv1" by (rule dev_step_inv [OF P(1) inv st])
      moreover have "action_index (dv_ctx dv1) \<noteq> 0" using idx1 by auto
      ultimately obtain tr dv2 rs where rest: "runs dv1 (dev_step P) tr dv2" "map snd tr = replicate (Suc k) (Command raw)"
        "signatures dv2 = signatures dv1 @ rs" "signs_from P K dv1 1 rs" "dv_ctx dv2 = s_hl_context_0"
        using drain_signs [OF P K cmd, of dv1 wallet k] dv1(2,4) sc len idx1 q1 by auto
      have "signs_from P K dv 0 (r # rs)"
        using signs_from_Cons [of P K dv 0 r rs] sig(1) zero signs_from_step [OF rest(4) dv1(2) ctx1] by simp
      then show ?thesis using dev_runs_Cons [OF st rest(1)] rest(2,3,5) sent len
        by (intro exI [of _ "(dv, Choice True) # tr"] exI [of _ dv2] exI [of _ "r # rs"]) simp
    qed
  qed
qed

text \<open>The first signing command of a session opens the review, when there is a screen for the session.\<close>

lemma open_review:
  assumes P: "platform_ok P" "delivers P" and inv: "dev_inv P dv" and enabled: "dv_comm_enabled dv"
    and cmd: "sign_command P raw buf path"
    and g: "action_index (dv_ctx dv) = 0" "ctx_queue (dv_ctx dv) \<noteq> []"
    and ui: "handle_ui (pf_wallet_screen P) (pf_bytes P) (dv_ctx dv) (ctx_get_action_metadata (dv_ctx dv)) = Inr ui"
  obtains wallet dv' where "dev_step P dv (Command raw) dv'" "dv_review dv' = Some ui"
    "dv_signing dv' = signing_for P buf path wallet" "dv_ctx dv' = dv_ctx dv" "dv_sent dv' = dv_sent dv"
proof -
  have len: "length path = unat (hd buf)" "unat (hd buf) \<le> pf_max_path P"
    using cmd platform_okD(5) [OF P(1)] by (auto simp: sign_command_def)
  have "cx_delivers (pf_cx P)" using P(2) by (simp add: delivers_def)
  then obtain wallet where w: "derive_addr_from_path (pf_cx P) path = Inr wallet"
    using derive_addr_accepted unfolding accepted_conv by blast
  have "action_count (dv_ctx dv) \<noteq> 0"
    using g(2) by (auto simp: ctx_queue_def)
  then have rem: "ctx_remaining_actions (dv_ctx dv) \<noteq> 0" using g(1) by (simp add: ctx_remaining_actions_def)
  let ?dv' = "show_display (Review ui) (disable_comm (dv\<lparr>dv_signing := signing_for P buf path wallet, dv_review := Some ui\<rparr>))"
  have "handler_sign_action P buf dv = Inr (0, ?dv')"
    using cmd g(1) rem w ui len unfolding handler_sign_action_def
    by (simp add: sign_command_def signing_for_def s_signing_ctx_0_def ctx_current_action_is_first_def Let_def
        read_bytes_def or_sw_def)
  then have "app_command P raw dv = Inr (Some ?dv')" by (simp add: sign_command_dispatch [OF cmd enabled])
  from that [OF dev_step.command [OF this]] show thesis by (simp add: show_display_def disable_comm_def)
qed

lemma session_is_signed:
  assumes P: "platform_ok P" "delivers P" and K: "cx_hashes (pf_cx P) K S" and inv: "dev_inv P dv"
    and enabled: "dv_comm_enabled dv" and cmd: "sign_command P raw buf path"
    and g: "action_index (dv_ctx dv) = 0" "ctx_queue (dv_ctx dv) \<noteq> []"
    and ui: "handle_ui (pf_wallet_screen P) (pf_bytes P) (dv_ctx dv) (ctx_get_action_metadata (dv_ctx dv)) = Inr ui"
  shows "\<exists>wallet tr dv' rs. runs dv (dev_step P) tr dv' \<and>
      map snd tr = Command raw # Choice True # replicate (length (ctx_queue (dv_ctx dv)) - 1) (Command raw) \<and>
      signatures dv' = signatures dv @ rs \<and>
      signs_from P K (dv\<lparr>dv_signing := signing_for P buf path wallet\<rparr>) 0 rs \<and> dv_ctx dv' = s_hl_context_0"
proof -
  obtain wallet dv1 where st: "dev_step P dv (Command raw) dv1" and dv1: "dv_review dv1 = Some ui"
    "dv_signing dv1 = signing_for P buf path wallet" "dv_ctx dv1 = dv_ctx dv" "dv_sent dv1 = dv_sent dv"
    using open_review [OF P inv enabled cmd g ui] .
  obtain tr dv2 rs where rest: "runs dv1 (dev_step P) tr dv2"
    "map snd tr = Choice True # replicate (length (ctx_queue (dv_ctx dv1)) - 1) (Command raw)"
    "signatures dv2 = signatures dv1 @ rs" "signs_from P K dv1 0 rs" "dv_ctx dv2 = s_hl_context_0"
    using approve_and_drain [OF P K cmd dev_step_inv [OF P(1) inv st] dv1(1,2)] by (elim exE conjE)
  have "signs_from P K (dv\<lparr>dv_signing := signing_for P buf path wallet\<rparr>) 0 rs"
    using rest(4) dv1(2,3) by (simp add: signs_from_def)
  with dev_runs_Cons [OF st rest(1)] rest(2,3,5) dv1(3,4) show ?thesis
    by (intro exI [of _ wallet] exI [of _ "(dv, Command raw) # tr"] exI [of _ dv2] exI [of _ rs])
       (simp add: signatures_def)
qed

end
