(* ===== verification/Client_Run.thy ===== *)
theory Client_Run
  imports Client_Session Device_Live
begin

text \<open>
  A client's whole session: the metadata and the actions are sent in chunks, the signing command opens
  the review, the user approves, and repeating the command collects the signatures. Every session
  that is well formed, compatible with its metadata and has a screen is signed, for exactly the
  actions that were asked for.
\<close>

section \<open>Sequences of events\<close>

definition reaches :: "'h platform \<Rightarrow> event list \<Rightarrow> device \<Rightarrow> device \<Rightarrow> bool" where
  "reaches P es dv dv' \<longleftrightarrow> (\<exists>tr. runs dv (dev_step P) tr dv' \<and> map snd tr = es)"

lemma reaches_Nil: "reaches P [] dv dv"
  unfolding reaches_def using runs.runs_none by fastforce

lemma reaches_Cons: "dev_step P dv e dv1 \<Longrightarrow> reaches P es dv1 dv' \<Longrightarrow> reaches P (e # es) dv dv'"
  unfolding reaches_def using dev_runs_Cons by fastforce

lemma reaches_append:
  assumes "reaches P es dv dv1" "reaches P fs dv1 dv'"
  shows "reaches P (es @ fs) dv dv'"
proof -
  from assms(1) obtain tr where tr: "runs dv (dev_step P) tr dv1" "map snd tr = es" by (auto simp: reaches_def)
  have "runs dv (dev_step P) (tr @ ur) dv'" if "runs dv1 (dev_step P) ur dv'" for ur
    using that
  proof (induction rule: runs.induct)
    case (runs_snoc ur s e s')
    from runs.runs_snoc [OF runs_snoc.IH runs_snoc.hyps(2)] show ?case by simp
  qed (simp add: tr(1))
  with assms(2) tr(2) show ?thesis unfolding reaches_def by fastforce
qed

lemma reaches_inv:
  assumes "platform_ok P" "dev_inv P dv" "reaches P es dv dv'"
  shows "dev_inv P dv'"
proof -
  from assms(3) obtain tr where "runs dv (dev_step P) tr dv'" by (auto simp: reaches_def)
  then show ?thesis by (induction rule: runs.induct) (use assms(1,2) dev_step_inv in blast)+
qed

section \<open>Sending a payload\<close>

definition ok_response :: response where
  "ok_response = \<lparr>rs_data = [], rs_sw = SWO_SUCCESS\<rparr>"

definition handler_ins :: "f_payload_handler \<Rightarrow> u8" where
  "handler_ins h = (case h of PARSE_ACTION_METADATA \<Rightarrow> PROVIDE_ACTION_METADATA | PARSE_ACTION \<Rightarrow> SET_ACTION)"

text \<open>A command that carries a chunk, and the commands that carry a payload.\<close>

definition chunk_command :: "'h platform \<Rightarrow> f_payload_handler \<Rightarrow> bool \<Rightarrow> byte list \<Rightarrow> byte list \<Rightarrow> bool" where
  "chunk_command P h first raw data \<longleftrightarrow>
     (\<exists>cmd. apdu_parser P raw = Some cmd \<and> cmd_cla cmd = CLA \<and> cmd_ins cmd = handler_ins h \<and>
        cmd_p1 cmd = (if first then P1_FIRST else P1_FOLLOWING) \<and> cmd_p2 cmd = 0 \<and> cmd_data cmd = Some data)"

definition payload_commands :: "'h platform \<Rightarrow> f_payload_handler \<Rightarrow> byte list list \<Rightarrow> byte list \<Rightarrow> bool" where
  "payload_commands P h raws payload \<longleftrightarrow> 0 < length payload \<and> length payload \<le> PAYLOAD_BUFFER_SIZE \<and>
     (\<exists>r rs x xs. raws = r # rs \<and> payload = x @ concat xs \<and> [] \<notin> set xs \<and>
        chunk_command P h True r (be_bytes 2 (length payload) @ x) \<and> list_all2 (chunk_command P h False) rs xs)"

lemma chunk_command_step:
  assumes cmd: "chunk_command P h first raw data" and P: "delivers P" and enabled: "dv_comm_enabled dv"
    and run: "process_chunked_payload (pf_bytes P) (payload_call P) first (Some data) h (dv_payload dv) (dv_ctx dv) = (Inr u, cp, g)"
  shows "dev_step P dv (Command raw) (dv\<lparr>dv_payload := cp, dv_ctx := g, dv_sent := dv_sent dv @ [ok_response]\<rparr>)"
proof -
  have io: "0 \<le> io_ret P (dv_sent dv) ok_response" using P by (simp add: delivers_def)
  obtain cmd where c: "apdu_parser P raw = Some cmd" "cmd_cla cmd = CLA" "cmd_ins cmd = handler_ins h"
    "cmd_p1 cmd = (if first then P1_FIRST else P1_FOLLOWING)" "cmd_p2 cmd = 0" "cmd_data cmd = Some data"
    using assms(1) by (auto simp: chunk_command_def)
  have "handle_chunk P h first data dv =
    Inr (io_ret P (dv_sent dv) ok_response, dv\<lparr>dv_payload := cp, dv_ctx := g, dv_sent := dv_sent dv @ [ok_response]\<rparr>)"
    using run by (simp add: handle_chunk_def or_sw_def io_send_sw_def io_send_response_def Let_def ok_response_def)
  then have "apdu_dispatcher P cmd dv =
    Inr (io_ret P (dv_sent dv) ok_response, dv\<lparr>dv_payload := cp, dv_ctx := g, dv_sent := dv_sent dv @ [ok_response]\<rparr>)"
    using c(2-6)
    by (cases h; cases first) (simp_all add: apdu_dispatcher_def handler_ins_def instruction_defs P1_FIRST_def P1_FOLLOWING_def
        handler_provide_action_metadata_def handler_set_action_def)
  then have "app_command P raw dv = Inr (Some (dv\<lparr>dv_payload := cp, dv_ctx := g, dv_sent := dv_sent dv @ [ok_response]\<rparr>))"
    using c(1) enabled io by (simp add: app_command_def comm_enabled_def)
  then show ?thesis by (rule dev_step.command)
qed

lemma parts_reach:
  assumes P: "delivers P"
  shows "list_all2 (chunk_command P h False) raws xs \<Longrightarrow> dv_comm_enabled dv \<Longrightarrow>
    send_parts (pf_bytes P) (payload_call P) h xs (dv_payload dv) (dv_ctx dv) = (Inr (), cp, g) \<Longrightarrow>
    reaches P (map Command raws) dv
      (dv\<lparr>dv_payload := cp, dv_ctx := g, dv_sent := dv_sent dv @ replicate (length xs) ok_response\<rparr>)"
proof (induction raws xs arbitrary: dv rule: list_all2_induct)
  case Nil
  then have "dv\<lparr>dv_payload := cp, dv_ctx := g, dv_sent := dv_sent dv @ replicate (length []) ok_response\<rparr> = dv" by simp
  then show ?case using reaches_Nil by (metis list.simps(8))
next
  case (Cons r rs x xs)
  from Cons.prems(2) obtain p1 g1 where st:
    "process_chunked_payload (pf_bytes P) (payload_call P) False (Some x) h (dv_payload dv) (dv_ctx dv) = (Inr (), p1, g1)"
    and rest: "send_parts (pf_bytes P) (payload_call P) h xs p1 g1 = (Inr (), cp, g)"
    by (auto split: prod.splits sum.splits)
  let ?dv1 = "dv\<lparr>dv_payload := p1, dv_ctx := g1, dv_sent := dv_sent dv @ [ok_response]\<rparr>"
  have "reaches P (map Command rs) ?dv1
      (?dv1\<lparr>dv_payload := cp, dv_ctx := g, dv_sent := dv_sent ?dv1 @ replicate (length xs) ok_response\<rparr>)"
    using Cons.IH [of ?dv1] Cons.prems(1) rest by simp
  from reaches_Cons [OF chunk_command_step [OF Cons.hyps(1) P Cons.prems(1) st] this] show ?case by simp
qed

text \<open>A payload that its handler accepts.\<close>

lemma payload_reaches:
  assumes P: "platform_ok P" "delivers P" and cmds: "payload_commands P h raws payload"
    and dv: "dv_comm_enabled dv" "chunk_inv (dv_payload dv)" "cp_handler (dv_payload dv) = None"
    and call: "payload_call P h (Some payload) (dv_ctx dv) = (Inr (), g)"
  shows "reaches P (map Command raws) dv
    (dv\<lparr>dv_payload := s_chunked_payload_0, dv_ctx := g, dv_sent := dv_sent dv @ replicate (length raws) ok_response\<rparr>)"
proof -
  obtain r rs x xs where p: "raws = r # rs" "payload = x @ concat xs" "[] \<notin> set xs"
    "chunk_command P h True r (be_bytes 2 (length payload) @ x)" "list_all2 (chunk_command P h False) rs xs"
    using cmds unfolding payload_commands_def by (elim conjE exE)
  have len: "0 < length payload" "length payload \<le> PAYLOAD_BUFFER_SIZE" using cmds by (auto simp: payload_commands_def)
  have cat: "concat (x # xs) = payload" using p(2) by simp
  have "send_payload (pf_bytes P) (payload_call P) h (x # xs) (dv_payload dv) (dv_ctx dv) = (Inr (), s_chunked_payload_0, g)"
    using send_payload_spec [OF platform_okD(3) [OF P(1)] refl p(3) _ _ dv(2,3), of x "payload_call P" h "dv_ctx dv"]
      len call unfolding cat by simp
  then obtain p1 g1 where st: "process_chunked_payload (pf_bytes P) (payload_call P) True
      (Some (be_bytes 2 (length payload) @ x)) h (dv_payload dv) (dv_ctx dv) = (Inr (), p1, g1)"
    and rest: "send_parts (pf_bytes P) (payload_call P) h xs p1 g1 = (Inr (), s_chunked_payload_0, g)"
    unfolding send_payload_def list.case cat by (auto split: prod.splits sum.splits)
  let ?dv1 = "dv\<lparr>dv_payload := p1, dv_ctx := g1, dv_sent := dv_sent dv @ [ok_response]\<rparr>"
  have "reaches P (map Command rs) ?dv1 (?dv1\<lparr>dv_payload := s_chunked_payload_0, dv_ctx := g,
      dv_sent := dv_sent ?dv1 @ replicate (length xs) ok_response\<rparr>)"
    using parts_reach [OF P(2) p(5), of ?dv1] dv(1) rest by simp
  from reaches_Cons [OF chunk_command_step [OF p(4) P(2) dv(1) st] this]
  show ?thesis using p(1) list_all2_lengthD [OF p(5)] by simp
qed

section \<open>Loading a session\<close>

text \<open>The context that holds a metadata and some actions, none of them signed.\<close>

definition session_ctx :: "s_action_metadata \<Rightarrow> s_action list \<Rightarrow> s_hl_context" where
  "session_ctx md as = s_hl_context_0\<lparr>has_metadata := True, metadata := md,
     actions := as @ replicate (MAX_ACTION_COUNT - length as) s_action_0, action_count := word_of_nat (length as)\<rparr>"

text \<open>What a client may ask for: well-formed actions of distinct types that the operation admits.\<close>

definition session_request :: "s_action_metadata \<Rightarrow> s_action list \<Rightarrow> bool" where
  "session_request md as \<longleftrightarrow> metadata_wf md \<and> metadata_canonical md \<and>
     list_all (\<lambda>a. action_wf (Some md) a \<and> action_canonical a) as \<and>
     distinct (map act_type as) \<and> session_compatible md as \<and> 1 \<le> length as \<and> length as \<le> MAX_ACTION_COUNT"

lemma session_ctx_simps [simp]:
  "ctx_get_action_metadata (session_ctx md as) = Some md"
  "action_index (session_ctx md as) = 0"
  by (simp_all add: session_ctx_def ctx_get_action_metadata_def s_hl_context_0_def)

lemma unat_count: "length as \<le> 10 \<Longrightarrow> unat (word_of_nat (length as) :: u8) = length as"
  by (simp add: unat_of_nat take_bit_eq_mod)

lemma session_ctx_queue: "length as \<le> 10 \<Longrightarrow> ctx_queue (session_ctx md as) = as"
  by (simp add: ctx_queue_def session_ctx_def unat_count)

lemma session_ctx_inv:
  assumes "length as \<le> 10" "distinct (map act_type as)"
  shows "ctx_inv (session_ctx md as)"
  using assms session_ctx_queue [OF assms(1), of md]
  by (simp add: ctx_inv_def) (simp add: session_ctx_def unat_count s_hl_context_0_def)

lemma session_ctx_start: "ctx_save_action_metadata (Some md) (ctx_reset g) = session_ctx md []"
  by (simp add: ctx_save_action_metadata_def ctx_reset_def session_ctx_def s_hl_context_0_def)

lemma session_ctx_push:
  assumes "length as < 10" "distinct (map act_type (as @ [a]))"
  shows "ctx_push_action a (session_ctx md as) = Inr (session_ctx md (as @ [a]))"
proof -
  have inv: "ctx_inv (session_ctx md as)" using assms by (intro session_ctx_inv) simp_all
  have q: "ctx_queue (session_ctx md as) = as" using assms(1) by (intro session_ctx_queue) simp
  have n: "unat (action_count (session_ctx md as)) = length as"
    using assms(1) by (simp add: session_ctx_def unat_count)
  have "\<not> list_ex (\<lambda>i. act_type a = act_type (actions (session_ctx md as) ! i)) [0..<length as]"
    using ctx_scan [OF inv, of "act_type a"] assms(2) unfolding q n by simp
  then show ?thesis
    using assms(1) n
    by (simp add: ctx_push_action_def) (simp add: session_ctx_def s_hl_context_0_def list_update_append
        Suc_diff_Suc [symmetric] arr_set_def)
qed

lemma allowed_compatible:
  assumes "t \<in> allowed_types op" "ctx_inv g" "op = OP_TYPE_MODIFY \<Longrightarrow> ctx_queue g = []"
  shows "is_action_compatible t op g"
proof -
  have none: "ctx_get_action u g = None" if "op = OP_TYPE_MODIFY" for u
    using ctx.lookup_None_iff [OF assms(2), of u] assms(3) [OF that] by (simp add: ctx_session_def)
  from assms(1) show ?thesis
    using none by (cases op) (auto simp: is_action_compatible_def allowed_types_def)
qed

text \<open>The actions one by one.\<close>

lemma actions_reach:
  assumes P: "platform_ok P" "delivers P" and L: "pf_tlv P = der_tlv" and req: "session_request md (as @ bs)"
    and cmds: "list_all2 (\<lambda>raws a. payload_commands P PARSE_ACTION raws (action_payload a)) rawss bs"
    and dv: "dv_comm_enabled dv" "dv_payload dv = s_chunked_payload_0" "dv_ctx dv = session_ctx md as"
  shows "\<exists>n. reaches P (map Command (concat rawss)) dv
    (dv\<lparr>dv_ctx := session_ctx md (as @ bs), dv_sent := dv_sent dv @ replicate n ok_response\<rparr>)"
  using cmds req dv
proof (induction rawss bs arbitrary: as dv rule: list_all2_induct)
  case Nil
  then have "dv\<lparr>dv_ctx := session_ctx md (as @ []), dv_sent := dv_sent dv @ replicate 0 ok_response\<rparr> = dv" by simp
  then show ?case using reaches_Nil by (metis concat.simps(1) list.simps(8))
next
  case (Cons raws rest a bs)
  have r: "length as < 10" "distinct (map act_type (as @ [a]))" "action_wf (Some md) a" "action_canonical a"
    "act_type a \<in> allowed_types (md_op_type md)" "md_op_type md = OP_TYPE_MODIFY \<Longrightarrow> as = []"
    using Cons.prems(1) by (auto simp: session_request_def session_compatible_def)
  have inv: "ctx_inv (session_ctx md as)" using r(1,2) by (intro session_ctx_inv) simp_all
  have "is_action_compatible (act_type a) (md_op_type md) (session_ctx md as)"
    using r(1,6) by (intro allowed_compatible [OF r(5) inv]) (simp add: session_ctx_queue)
  from parse_action_payload [OF session_ctx_simps(1) r(3,4) this] session_ctx_push [OF r(1,2), of md]
  have call: "payload_call P PARSE_ACTION (Some (action_payload a)) (dv_ctx dv) = (Inr (), session_ctx md (as @ [a]))"
    by (simp add: payload_call_def L Cons.prems(4))
  let ?dv1 = "dv\<lparr>dv_ctx := session_ctx md (as @ [a]), dv_sent := dv_sent dv @ replicate (length raws) ok_response\<rparr>"
  have "dv\<lparr>dv_payload := s_chunked_payload_0, dv_ctx := session_ctx md (as @ [a]),
      dv_sent := dv_sent dv @ replicate (length raws) ok_response\<rparr> = ?dv1" using Cons.prems(3) by simp
  moreover have "cp_handler (dv_payload dv) = None" "chunk_inv (dv_payload dv)"
    using chunk_inv_0(1) by (simp_all add: Cons.prems(3)) (simp add: s_chunked_payload_0_def)
  ultimately have st: "reaches P (map Command raws) dv ?dv1"
    using payload_reaches [OF P Cons.hyps(1) Cons.prems(2) _ _ call] by metis
  from Cons.IH [of "as @ [a]" ?dv1] Cons.prems obtain n where
    "reaches P (map Command (concat rest)) ?dv1
      (?dv1\<lparr>dv_ctx := session_ctx md ((as @ [a]) @ bs), dv_sent := dv_sent ?dv1 @ replicate n ok_response\<rparr>)" by auto
  from reaches_append [OF st this] show ?case
    by (intro exI [of _ "length raws + n"]) (simp add: replicate_add)
qed

lemma load_session:
  assumes P: "platform_ok P" "delivers P" and L: "pf_tlv P = der_tlv" and S: "cx_hashes (pf_cx P) K S"
    and req: "session_request md as" and sig: "metadata_signature (pf_cx P) S md s"
    and mcmds: "payload_commands P PARSE_ACTION_METADATA mraws (metadata_payload md s)"
    and cmds: "list_all2 (\<lambda>raws a. payload_commands P PARSE_ACTION raws (action_payload a)) rawss as"
    and dv: "dev_inv P dv" "dv_comm_enabled dv" "cp_handler (dv_payload dv) = None" "action_index (dv_ctx dv) = 0"
  shows "\<exists>n. reaches P (map Command (mraws @ concat rawss)) dv
    (dv\<lparr>dv_payload := s_chunked_payload_0, dv_ctx := session_ctx md as,
        dv_sent := dv_sent dv @ replicate n ok_response\<rparr>)"
proof -
  have "cx_delivers (pf_cx P)" using P(2) by (simp add: delivers_def)
  moreover have "metadata_wf md" "metadata_canonical md" using req by (auto simp: session_request_def)
  ultimately have call: "payload_call P PARSE_ACTION_METADATA (Some (metadata_payload md s)) (dv_ctx dv) = (Inr (), session_ctx md [])"
    using parse_metadata_payload [OF _ S _ _ sig, of "dv_ctx dv"] dv(4)
    by (simp add: payload_call_def L ctx_current_action_is_first_def session_ctx_start)
  let ?dv1 = "dv\<lparr>dv_payload := s_chunked_payload_0, dv_ctx := session_ctx md [],
      dv_sent := dv_sent dv @ replicate (length mraws) ok_response\<rparr>"
  have st: "reaches P (map Command mraws) dv ?dv1"
    using payload_reaches [OF P mcmds dv(2) _ dv(3) call] dev_invD(2) [OF dv(1)] by simp
  from actions_reach [OF P L _ cmds, of md "[]" ?dv1] req dv(2) obtain n where
    "reaches P (map Command (concat rawss)) ?dv1
      (?dv1\<lparr>dv_ctx := session_ctx md as, dv_sent := dv_sent ?dv1 @ replicate n ok_response\<rparr>)" by auto
  from reaches_append [OF st this] show ?thesis
    by (intro exI [of _ "length mraws + n"]) (simp add: replicate_add)
qed

section \<open>The whole session\<close>

lemma signatures_ok_responses:
  "signatures (dv\<lparr>dv_payload := p, dv_ctx := g, dv_sent := dv_sent dv @ replicate n ok_response\<rparr>) = signatures dv"
  by (simp add: signatures_def signature_response_def ok_response_def)

text \<open>The signatures of the actions of a request, in order, for a path and the address of its key.\<close>

definition request_signatures ::
  "'h platform \<Rightarrow> (byte list \<Rightarrow> byte list) \<Rightarrow> s_action_metadata \<Rightarrow> s_action list \<Rightarrow> s_signing_ctx \<Rightarrow> response list \<Rightarrow> bool" where
  "request_signatures P K md as sc rs \<longleftrightarrow> length rs = length as \<and>
     (\<forall>i < length as. signs P K (session_ctx md as) sc i (rs ! i))"

lemma client_session_signed:
  assumes P: "platform_ok P" "delivers P" and L: "pf_tlv P = der_tlv" and S: "cx_hashes (pf_cx P) K S"
    and req: "session_request md as" and sig: "metadata_signature (pf_cx P) S md s"
    and mcmds: "payload_commands P PARSE_ACTION_METADATA mraws (metadata_payload md s)"
    and cmds: "list_all2 (\<lambda>raws a. payload_commands P PARSE_ACTION raws (action_payload a)) rawss as"
    and cmd: "sign_command P raw buf path"
    and dv: "dev_inv P dv" "dv_comm_enabled dv" "cp_handler (dv_payload dv) = None" "action_index (dv_ctx dv) = 0"
    and ui: "handle_ui (pf_wallet_screen P) (pf_bytes P) (session_ctx md as) (Some md) = Inr ui"
  shows "\<exists>wallet dv' rs. reaches P (map Command (mraws @ concat rawss) @
        Command raw # Choice True # replicate (length as - 1) (Command raw)) dv dv' \<and>
      signatures dv' = signatures dv @ rs \<and>
      request_signatures P K md as (signing_for P buf path wallet) rs \<and> dv_ctx dv' = s_hl_context_0"
proof -
  obtain n where load: "reaches P (map Command (mraws @ concat rawss)) dv
    (dv\<lparr>dv_payload := s_chunked_payload_0, dv_ctx := session_ctx md as,
        dv_sent := dv_sent dv @ replicate n ok_response\<rparr>)" (is "reaches P _ dv ?dv1")
    using load_session [OF P L S req sig mcmds cmds dv] by blast
  have as: "1 \<le> length as" "length as \<le> 10" using req by (auto simp: session_request_def)
  note q = session_ctx_queue [OF as(2), of md]
  have "dev_inv P ?dv1" by (rule reaches_inv [OF P(1) dv(1) load])
  moreover have "ctx_queue (dv_ctx ?dv1) \<noteq> []" using as q by auto
  ultimately obtain wallet tr dv' rs where run: "runs ?dv1 (dev_step P) tr dv'"
    "map snd tr = Command raw # Choice True # replicate (length (ctx_queue (dv_ctx ?dv1)) - 1) (Command raw)"
    "signatures dv' = signatures ?dv1 @ rs"
    "signs_from P K (?dv1\<lparr>dv_signing := signing_for P buf path wallet\<rparr>) 0 rs" "dv_ctx dv' = s_hl_context_0"
    using session_is_signed [OF P S _ _ cmd, of ?dv1 ui] dv(2) ui by auto
  have "reaches P (Command raw # Choice True # replicate (length as - 1) (Command raw)) ?dv1 dv'"
    unfolding reaches_def using run(1,2) q by auto
  from reaches_append [OF load this] run(3-5) q show ?thesis
    by (intro exI [of _ wallet] exI [of _ dv'] exI [of _ rs])
       (simp add: signatures_ok_responses signs_from_def request_signatures_def)
qed

end
