(* ===== verification/App_Main.thy ===== *)
theory App_Main
  imports Client_Run
begin

text \<open>
  The main function (\<open>app_main.c\<close>) as a program on a list of what happens while it waits for a command:
  commands, and touches on the screen. It is compared with the step relation: the loop performs exactly
  the steps of \<open>dev_step\<close>, and as long as the transport works it does not end.
\<close>

section \<open>The program\<close>

record internal_storage_t =
  initialized :: bool

definition init_nvm :: "internal_storage_t \<Rightarrow> internal_storage_t" where
  "init_nvm nvm = (if \<not> initialized nvm then \<lparr>initialized = True\<rparr> else nvm)"

text \<open>
  A touch reaches the application only while a review is displayed, through the callback given to
  \<open>nbgl_useCaseReview\<close>. The result is \<open>None\<close> when \<open>app_main\<close> returned.
\<close>

fun app_loop :: "'h platform \<Rightarrow> event list \<Rightarrow> device \<Rightarrow> device option result" where
  "app_loop P [] dv = Inr (Some dv)"
| "app_loop P (Command raw # es) dv =
     rbind (app_command P raw dv) (\<lambda>r. case r of None \<Rightarrow> Inr None | Some dv' \<Rightarrow> app_loop P es dv')"
| "app_loop P (Choice c # es) dv =
     (if dv_review dv = None then app_loop P es dv
      else rbind (review_choice P c dv) (app_loop P es))"

definition app_main ::
  "'h platform \<Rightarrow> event list \<Rightarrow> internal_storage_t \<Rightarrow> (internal_storage_t \<times> device option) result" where
  "app_main P es nvm = (let nvm = init_nvm nvm in rbind (app_loop P es (app_start P)) (\<lambda>r. Inr (nvm, r)))"

lemma init_nvm_once: "initialized (init_nvm nvm)" "init_nvm (init_nvm nvm) = init_nvm nvm"
  by (simp_all add: init_nvm_def)

section \<open>The loop performs the steps\<close>

lemma app_loop_append:
  "app_loop P (es @ fs) dv = rbind (app_loop P es dv) (\<lambda>r. case r of None \<Rightarrow> Inr None | Some dv' \<Rightarrow> app_loop P fs dv')"
proof (induction P es dv rule: app_loop.induct)
  case (2 P raw es dv)
  then show ?case by (cases "app_command P raw dv") (auto split: option.splits)
next
  case (3 P c es dv)
  then show ?case by (cases "review_choice P c dv") auto
qed simp

lemma app_loop_step: "dev_step P dv e dv' \<Longrightarrow> app_loop P [e] dv = Inr (Some dv')"
  by (cases rule: dev_step.cases) auto

lemma reaches_app_loop:
  assumes "reaches P es dv dv'"
  shows "app_loop P es dv = Inr (Some dv')"
proof -
  from assms obtain tr where "runs dv (dev_step P) tr dv'" "map snd tr = es" by (auto simp: reaches_def)
  then show ?thesis
  proof (induction arbitrary: es rule: runs.induct)
    case (runs_snoc tr s e s')
    have "app_loop P (map snd tr) dv = Inr (Some s)" using runs_snoc.IH by simp
    with app_loop_step [OF runs_snoc.hyps(2)] show ?case
      unfolding runs_snoc.prems [symmetric] by (simp add: app_loop_append)
  qed simp
qed

definition is_command :: "event \<Rightarrow> bool" where
  "is_command e \<longleftrightarrow> (case e of Command _ \<Rightarrow> True | Choice _ \<Rightarrow> False)"

lemma is_command_simps [simp]: "is_command (Command raw)" "\<not> is_command (Choice c)"
  by (simp_all add: is_command_def)

lemma app_loop_reaches:
  "app_loop P es dv = Inr (Some dv') \<Longrightarrow> \<exists>fs. reaches P fs dv dv' \<and> filter is_command fs = filter is_command es"
proof (induction P es dv arbitrary: dv' rule: app_loop.induct)
  case (1 P dv)
  then show ?case using reaches_Nil by fastforce
next
  case (2 P raw es dv)
  from "2.prems" obtain dv1 where s: "app_command P raw dv = Inr (Some dv1)" and r: "app_loop P es dv1 = Inr (Some dv')"
    by (auto simp: rbind_Inr_conv split: option.splits)
  from "2.IH" [OF r] obtain fs where "reaches P fs dv1 dv'" "filter is_command fs = filter is_command es" by blast
  with reaches_Cons [OF dev_step.command [OF s]] show ?case by (intro exI [of _ "Command raw # fs"]) simp
next
  case (3 P c es dv)
  show ?case
  proof (cases "dv_review dv = None")
    case True
    with "3.IH"(1) [OF True, of dv'] "3.prems" show ?thesis by simp
  next
    case False
    with "3.prems" obtain dv1 where s: "review_choice P c dv = Inr dv1" and r: "app_loop P es dv1 = Inr (Some dv')"
      by (auto simp: rbind_Inr_conv)
    from "3.IH"(2) [OF False r] obtain fs where "reaches P fs dv1 dv'" "filter is_command fs = filter is_command es" by blast
    with reaches_Cons [OF dev_step.choice [OF False s]] show ?thesis
      by (intro exI [of _ "Choice c # fs"]) simp
  qed
qed

section \<open>The loop goes on\<close>

text \<open>What a handler returns is what sending returned, or 0.\<close>

definition returns_sent :: "'h platform \<Rightarrow> (int \<times> device) result \<Rightarrow> bool" where
  "returns_sent P m \<longleftrightarrow> (\<forall>ret dv. m = Inr (ret, dv) \<longrightarrow> ret = 0 \<or> (\<exists>rs r. ret = io_ret P rs r))"

lemma returns_sent_send [simp]:
  "returns_sent P (Inr (io_send_sw P sw dv))" "returns_sent P (Inr (io_send_response P d sw dv))"
  "returns_sent P (Inr (0, dv))" "returns_sent P (Inl e)"
  by (auto simp: returns_sent_def io_send_sw_def io_send_response_def Let_def)

lemma returns_sent_or_sw:
  "(\<And>a. m = Inr a \<Longrightarrow> returns_sent P (k a)) \<Longrightarrow> returns_sent P (or_sw P sw dv m k)"
  by (auto simp: or_sw_def split: sum.splits fault.splits)

lemma sign_action_returns: "returns_sent P (sign_action P dv)"
proof -
  have "returns_sent P (case io_send_response P d sw dv1 of (ret, dv2) \<Rightarrow> if b ret then Inr (ret, f dv2) else Inr (ret, dv2))"
    for d sw dv1 b f by (auto simp: returns_sent_def io_send_response_def Let_def)
  then show ?thesis
    by (auto simp: sign_action_def Let_def intro!: returns_sent_or_sw split: option.splits)
qed

lemma handlers_return:
  "returns_sent P (handler_get_addr P payload dv)" "returns_sent P (handle_chunk P h first payload dv)"
  "returns_sent P (handler_sign_action P payload dv)"
  using sign_action_returns
  by (auto simp: handler_get_addr_def handle_chunk_def handler_sign_action_def Let_def
      intro!: returns_sent_or_sw split: option.splits prod.splits)

lemma dispatcher_returns: "returns_sent P (apdu_dispatcher P cmd dv)"
  by (simp add: apdu_dispatcher_def handler_provide_action_metadata_def handler_set_action_def handlers_return
      split: option.splits)

text \<open>A transport that works: sending does not fail.\<close>

definition transport_works :: "'h platform \<Rightarrow> bool" where
  "transport_works P \<longleftrightarrow> (\<forall>rs r. 0 \<le> io_ret P rs r)"

lemma app_command_continues:
  assumes P: "platform_ok P" "transport_works P" and inv: "dev_inv P dv"
  shows "\<exists>dv'. app_command P raw dv = Inr (Some dv') \<and> dev_inv P dv'"
proof -
  have "\<exists>dv'. app_command P raw dv = Inr (Some dv')"
  proof (cases "dv_comm_enabled dv")
    case True
    show ?thesis
    proof (cases "apdu_parser P raw")
      case None
      with True show ?thesis by (simp add: app_command_def comm_enabled_def)
    next
      case (Some cmd)
      obtain ret dv' where run: "apdu_dispatcher P cmd dv = Inr (ret, dv')"
        using dispatcher_effect [OF P(1) inv, of cmd] by (auto simp: has_effect_def)
      have "0 \<le> ret" using dispatcher_returns [of P cmd dv] run P(2) by (auto simp: returns_sent_def transport_works_def)
      with True Some run show ?thesis by (simp add: app_command_def comm_enabled_def)
    qed
  qed (simp add: app_command_def comm_enabled_def)
  then show ?thesis using dev_step_inv [OF P(1) inv dev_step.command] by blast
qed

lemma review_choice_continues:
  assumes P: "platform_ok P" and inv: "dev_inv P dv" and rev: "dv_review dv \<noteq> None"
  shows "\<exists>dv'. review_choice P c dv = Inr dv' \<and> dev_inv P dv'"
proof -
  have "\<exists>dv'. review_choice P c dv = Inr dv'"
  proof (cases c)
    case True
    from sign_action_cases [OF P answered_review_inv [OF inv]] True show ?thesis
      by (elim disjE exE conjE) (simp_all add: review_choice_confirm)
  qed (simp add: review_choice_def Let_def)
  then show ?thesis using dev_step_inv [OF P inv dev_step.choice [OF rev]] by blast
qed

lemma app_loop_continues:
  assumes P: "platform_ok P" "transport_works P"
  shows "dev_inv P dv \<Longrightarrow> \<exists>dv'. app_loop P es dv = Inr (Some dv') \<and> dev_inv P dv'"
  using P
proof (induction P es dv rule: app_loop.induct)
  case (2 P raw es dv)
  from app_command_continues [OF "2.prems"(2,3,1)] obtain dv1 where s: "app_command P raw dv = Inr (Some dv1)" "dev_inv P dv1"
    by blast
  from "2.IH" [OF s(2) "2.prems"(2,3)] s(1) show ?case by simp
next
  case (3 P c es dv)
  show ?case
  proof (cases "dv_review dv = None")
    case True
    with "3.IH"(1) [OF True "3.prems"] show ?thesis by simp
  next
    case False
    from review_choice_continues [OF "3.prems"(2,1) False] obtain dv1 where s: "review_choice P c dv = Inr dv1" "dev_inv P dv1"
      by blast
    from "3.IH"(2) [OF False s(2) "3.prems"(2,3)] s(1) False show ?thesis by auto
  qed
qed simp

lemma app_main_continues:
  assumes "platform_ok P" "transport_works P"
  shows "\<exists>nvm' dv. app_main P es nvm = Inr (nvm', Some dv) \<and> initialized nvm' \<and> dev_inv P dv"
  using app_loop_continues [OF assms dev_inv_start [OF assms(1)], of es] init_nvm_once(1)
  by (auto simp: app_main_def)

end
