(* ===== verification/Device_Protocol.thy ===== *)
theory Device_Protocol
  imports Device_Run
begin

text \<open>
  The protocol of the machine with its client: every command is answered by exactly one response. A
  command that opens a review is answered later, by the choice of the user; until then every other
  command is answered with an error.
\<close>

section \<open>Every command is answered once\<close>

text \<open>A command is answered when it is handled, or, when it opened a review, by the user's choice.\<close>

definition pending :: "device \<Rightarrow> nat" where
  "pending dv = (if dv_review dv = None then 0 else 1)"

definition commands :: "(device \<times> event) list \<Rightarrow> nat" where
  "commands tr = length (filter (\<lambda>(dv, e). \<exists>raw. e = Command raw) tr)"

lemma commands_snoc [simp]:
  "commands [] = 0"
  "commands (tr @ [(dv, Command raw)]) = Suc (commands tr)" "commands (tr @ [(dv, Choice c)]) = commands tr"
  by (simp_all add: commands_def)

lemma sign_action_sends:
  assumes "platform_ok P" "dev_inv P dv" "sign_action P dv = Inr (ret, dv')"
  shows "length (dv_sent dv') = Suc (length (dv_sent dv))" "dv_review dv' = dv_review dv"
  using assms by (cases rule: sign_action_outcome; simp)+

lemma command_sends:
  assumes P: "platform_ok P" and inv: "dev_inv P dv" and step: "dev_step P dv (Command raw) dv'"
  shows "length (dv_sent dv') + pending dv' = Suc (length (dv_sent dv) + pending dv)"
proof -
  from step have run: "app_command P raw dv = Inr (Some dv')" by (auto elim: command_stepE)
  show ?thesis
  proof (cases "dv_comm_enabled dv")
    case False
    with command_effect(2) [OF P inv run] show ?thesis by (simp add: pending_def)
  next
    case True
    then have none: "dv_review dv = None" using dev_invD(4) [OF inv] by simp
    from True command_effect(2) [OF P inv run] obtain ret where "dispatch_effect P dv (ret, dv')" by auto
    then show ?thesis
    proof cases
      case continued
      with sign_action_sends [OF P inv] none show ?thesis by (simp add: pending_def)
    qed (simp_all add: none pending_def show_display_def disable_comm_def)
  qed
qed

lemma choice_sends:
  assumes P: "platform_ok P" and inv: "dev_inv P dv" and step: "dev_step P dv (Choice c) dv'"
  shows "length (dv_sent dv') + pending dv' = length (dv_sent dv) + pending dv"
proof -
  from step have run: "review_choice P c dv = Inr dv'" and rev: "dv_review dv \<noteq> None" by (auto elim: choice_stepE)
  show ?thesis
  proof (cases c)
    case False
    with run rev show ?thesis
      by (auto simp: review_choice_def Let_def enable_comm_def show_display_def io_send_sw_def io_send_response_def pending_def)
  next
    case True
    with run obtain ret dv1 where s: "sign_action P (answered_review dv) = Inr (ret, dv1)" and dv': "dv' = after_signing ret dv1"
      by (auto simp: review_choice_confirm rbind_Inr_conv)
    from sign_action_sends [OF P answered_review_inv [OF inv] s] rev show ?thesis
      by (simp add: dv' after_signing_def show_display_def pending_def answered_review_def enable_comm_def)
  qed
qed

definition answered_inv :: "'h platform \<Rightarrow> (device \<times> event) list \<Rightarrow> device \<Rightarrow> bool" where
  "answered_inv P tr dv \<longleftrightarrow> dev_inv P dv \<and> length (dv_sent dv) + pending dv = commands tr"

lemma answered_inv_step:
  assumes "platform_ok P" "answered_inv P tr dv" "dev_step P dv e dv'"
  shows "answered_inv P (tr @ [(dv, e)]) dv'"
proof (cases e)
  case (Command raw)
  with assms dev_step_inv [OF assms(1) _ assms(3)] command_sends [of P dv raw dv'] show ?thesis by (auto simp: answered_inv_def)
next
  case (Choice c)
  with assms dev_step_inv [OF assms(1) _ assms(3)] choice_sends [of P dv c dv'] show ?thesis by (auto simp: answered_inv_def)
qed

lemma answered_inv_start: "platform_ok P \<Longrightarrow> answered_inv P [] (app_start P)"
  using dev_inv_start [of P] by (simp add: answered_inv_def app_start_def enable_comm_def pending_def)

interpretation answered_runs: run_invariant "app_start P" "dev_step P" "answered_inv P" "platform_ok P" for P
  by unfold_locales (auto intro: answered_inv_start answered_inv_step)

section \<open>What signing returns\<close>

lemma sign_action_ret: "sign_action P dv = Inr (ret, dv') \<Longrightarrow> \<exists>r. ret = io_ret P (dv_sent dv) r"
  by (auto simp: sign_action_def Let_def or_sw_def io_send_sw_def io_send_response_def
      split: option.splits sum.splits fault.splits if_splits)

end
