(* ===== verification/Signing_Flow.thy ===== *)
theory Signing_Flow
  imports App_Main Device_Protocol
begin

text \<open>
  The state machine of the documentation (\<open>doc/signing_flow.md\<close>), with the data that its states carry:
  the metadata, the queue of actions and the number of those already signed. The device refines it: a
  function reads the state of the flow off the device, every step of the device is a step of the flow,
  and the signatures that are sent are those of the actions that the flow says are signed.

  One edge is not in the diagram: when the first signature fails after the approval, the device is
  in \<open>MetadataLoaded\<close> again, with the approved actions.
\<close>

section \<open>The abstract machine\<close>

datatype flow =
    Idle
  | MetadataLoaded s_action_metadata "s_action list"
  | WaitingForUser s_action_metadata "s_action list"
  | Signing s_action_metadata "s_action list" nat

datatype flow_event =
    Unchanged
  | Metadata_stored s_action_metadata
  | Metadata_refused
  | Action_stored s_action
  | Review_shown
  | User_approves s_action_metadata s_action
  | Approval_fails
  | User_rejects
  | Action_signed s_action_metadata s_action

definition storable :: "s_action_metadata \<Rightarrow> s_action list \<Rightarrow> s_action \<Rightarrow> bool" where
  "storable md q a \<longleftrightarrow> action_wf (Some md) a \<and> payload_only a = a \<and> length q < MAX_ACTION_COUNT \<and>
     act_type a \<notin> act_type ` set q \<and> session_compatible md (q @ [a])"

text \<open>Where the flow is after the first \<open>n\<close> actions were signed.\<close>

definition signed_upto :: "s_action_metadata \<Rightarrow> s_action list \<Rightarrow> nat \<Rightarrow> flow" where
  "signed_upto md q n = (if n = length q then Idle else Signing md q n)"

inductive flow_step :: "(s_action_metadata \<Rightarrow> bool) \<Rightarrow> flow \<Rightarrow> flow_event \<Rightarrow> flow \<Rightarrow> bool" for auth where
  unchanged: "flow_step auth s Unchanged s"
| provide_first: "auth md \<Longrightarrow> flow_step auth Idle (Metadata_stored md) (MetadataLoaded md [])"
| provide_again: "auth md \<Longrightarrow> flow_step auth (MetadataLoaded md' q) (Metadata_stored md) (MetadataLoaded md [])"
| provide_refused: "flow_step auth (Signing md q n) Metadata_refused Idle"
| store: "storable md q a \<Longrightarrow> flow_step auth (MetadataLoaded md q) (Action_stored a) (MetadataLoaded md (q @ [a]))"
| review: "q \<noteq> [] \<Longrightarrow> flow_step auth (MetadataLoaded md q) Review_shown (WaitingForUser md q)"
| approve: "a = hd q \<Longrightarrow> flow_step auth (WaitingForUser md q) (User_approves md a) (signed_upto md q 1)"
| approve_fails: "flow_step auth (WaitingForUser md q) Approval_fails (MetadataLoaded md q)"
| reject: "flow_step auth (WaitingForUser md q) User_rejects Idle"
| sign_next: "n < length q \<Longrightarrow> a = q ! n \<Longrightarrow>
    flow_step auth (Signing md q n) (Action_signed md a) (signed_upto md q (Suc n))"

inductive_cases flow_stepE: "flow_step auth s l s'"

definition signed_in :: "flow_event \<Rightarrow> (s_action_metadata \<times> s_action) list" where
  "signed_in l = (case l of User_approves md a \<Rightarrow> [(md, a)] | Action_signed md a \<Rightarrow> [(md, a)] | _ \<Rightarrow> [])"

lemma signed_in_simps [simp]:
  "signed_in Unchanged = []" "signed_in (Metadata_stored md) = []" "signed_in Metadata_refused = []"
  "signed_in (Action_stored a) = []" "signed_in Review_shown = []" "signed_in (User_approves md a) = [(md, a)]"
  "signed_in Approval_fails = []" "signed_in User_rejects = []" "signed_in (Action_signed md a) = [(md, a)]"
  by (simp_all add: signed_in_def)

section \<open>Reachable states of the flow\<close>

text \<open>Only authentic metadata and storable actions get into a session, and a signing session is never empty.\<close>

inductive stored_queue :: "s_action_metadata \<Rightarrow> s_action list \<Rightarrow> bool" for md where
  stored_none: "stored_queue md []"
| stored_snoc: "stored_queue md q \<Longrightarrow> storable md q a \<Longrightarrow> stored_queue md (q @ [a])"

definition flow_inv :: "(s_action_metadata \<Rightarrow> bool) \<Rightarrow> flow \<Rightarrow> bool" where
  "flow_inv auth s = (case s of
       Idle \<Rightarrow> True
     | MetadataLoaded md q \<Rightarrow> auth md \<and> stored_queue md q
     | WaitingForUser md q \<Rightarrow> auth md \<and> stored_queue md q \<and> q \<noteq> []
     | Signing md q n \<Rightarrow> auth md \<and> stored_queue md q \<and> 0 < n \<and> n < length q)"

lemma flow_inv_simps [simp]:
  "flow_inv auth Idle"
  "flow_inv auth (MetadataLoaded md q) \<longleftrightarrow> auth md \<and> stored_queue md q"
  "flow_inv auth (WaitingForUser md q) \<longleftrightarrow> auth md \<and> stored_queue md q \<and> q \<noteq> []"
  "flow_inv auth (Signing md q n) \<longleftrightarrow> auth md \<and> stored_queue md q \<and> 0 < n \<and> n < length q"
  by (simp_all add: flow_inv_def)

lemma flow_inv_step: "flow_inv auth s \<Longrightarrow> flow_step auth s l s' \<Longrightarrow> flow_inv auth s'"
  by (erule flow_stepE) (auto simp: signed_upto_def neq_Nil_conv intro: stored_queue.intros)

interpretation flow_runs: run_invariant Idle "flow_step auth" "\<lambda>_. flow_inv auth" True for auth
  by unfold_locales (auto intro: flow_inv_step)

lemma stored_queue_props:
  "stored_queue md q \<Longrightarrow> length q \<le> MAX_ACTION_COUNT \<and> distinct (map act_type q) \<and>
   list_all (\<lambda>a. action_wf (Some md) a \<and> payload_only a = a) q"
  by (induction rule: stored_queue.induct) (auto simp: storable_def)

section \<open>The state of the flow in the device\<close>

definition session_flow :: "bool \<Rightarrow> session \<Rightarrow> flow" where
  "session_flow waiting s = (case ss_metadata s of
       None \<Rightarrow> Idle
     | Some md \<Rightarrow>
         if waiting then WaitingForUser md (ss_queue s)
         else if ss_pos s = 0 then MetadataLoaded md (ss_queue s)
         else Signing md (ss_queue s) (ss_pos s))"

definition flow_of :: "device \<Rightarrow> flow" where
  "flow_of dv = session_flow (dv_review dv \<noteq> None) (ctx_session (dv_ctx dv))"

text \<open>The event of the device that a step of the flow abstracts.\<close>

definition abstracts :: "event \<Rightarrow> flow_event \<Rightarrow> bool" where
  "abstracts e l = (case e of
       Command raw \<Rightarrow> (case l of User_approves md a \<Rightarrow> False | Approval_fails \<Rightarrow> False | User_rejects \<Rightarrow> False | _ \<Rightarrow> True)
     | Choice c \<Rightarrow> (case l of User_approves md a \<Rightarrow> c | Approval_fails \<Rightarrow> c | User_rejects \<Rightarrow> \<not> c | _ \<Rightarrow> False))"

definition signature_of :: "'h platform \<Rightarrow> s_action_metadata \<times> s_action \<Rightarrow> response \<Rightarrow> bool" where
  "signature_of P ma r \<longleftrightarrow> (\<exists>g sc. signed_by P g sc (snd ma) (fst ma) r)"

definition simulated :: "'h platform \<Rightarrow> device \<Rightarrow> event \<Rightarrow> device \<Rightarrow> bool" where
  "simulated P dv e dv' \<longleftrightarrow> (\<exists>l rs. flow_step (authentic P) (flow_of dv) l (flow_of dv') \<and> abstracts e l \<and>
     signatures dv' = signatures dv @ rs \<and> list_all2 (signature_of P) (signed_in l) rs)"

lemma simulatedI:
  "flow_step (authentic P) (flow_of dv) l (flow_of dv') \<Longrightarrow> abstracts e l \<Longrightarrow>
   signatures dv' = signatures dv \<Longrightarrow> signed_in l = [] \<Longrightarrow> simulated P dv e dv'"
  unfolding simulated_def by (rule exI [of _ l], rule exI [of _ "[]"]) simp

lemma session_flow_simps:
  "ss_metadata s = None \<Longrightarrow> session_flow w s = Idle"
  "ss_metadata s = Some md \<Longrightarrow> session_flow True s = WaitingForUser md (ss_queue s)"
  "ss_metadata s = Some md \<Longrightarrow> ss_pos s = 0 \<Longrightarrow> session_flow False s = MetadataLoaded md (ss_queue s)"
  "ss_metadata s = Some md \<Longrightarrow> ss_pos s \<noteq> 0 \<Longrightarrow> session_flow False s = Signing md (ss_queue s) (ss_pos s)"
  by (simp_all add: session_flow_def)

lemma session_fields:
  "ss_metadata (ctx_session g) = ctx_get_action_metadata g" "ss_queue (ctx_session g) = ctx_queue g"
  "ss_pos (ctx_session g) = unat (action_index g)"
  by (simp_all add: ctx_session_def)

lemma session_reset [simp]: "session_flow w (ctx_session (ctx_reset g)) = Idle"
  using ctx.reset_law(2) [of g] by (simp add: session_flow_def empty_session_def)

section \<open>Payloads\<close>

lemma payload_flow:
  assumes ok: "session_ok g" and eff: "payload_effect P g g'"
  shows "\<exists>l. flow_step (authentic P) (session_flow False (ctx_session g)) l (session_flow False (ctx_session g')) \<and>
     abstracts (Command raw) l \<and> signed_in l = []"
  using eff
proof cases
  case kept
  then show ?thesis by (intro exI [of _ Unchanged]) (simp add: abstracts_def unchanged)
next
  case (loaded m)
  have target: "session_flow False (ctx_session g') = MetadataLoaded m []"
    by (simp add: loaded session_flow_def empty_session_def)
  have "flow_step (authentic P) (session_flow False (ctx_session g)) (Metadata_stored m) (MetadataLoaded m [])"
    using loaded(1,2) by (cases "ctx_get_action_metadata g")
      (simp_all add: session_flow_def session_fields provide_first provide_again)
  then show ?thesis unfolding target by (intro exI [of _ "Metadata_stored m"]) (simp add: abstracts_def)
next
  case (pushed md a)
  have inv: "ctx_inv g" using session_okD(1) [OF ok] .
  note acc = ctx.push_accepted [OF inv pushed(5)]
  have "session_ok g'" using session_ok_push [OF ok pushed] by simp
  moreover have md': "ctx_get_action_metadata g' = Some md" "ctx_queue g' = ctx_queue g @ [a]"
    using acc pushed(1) by (simp_all add: session_fields)
  ultimately have "session_compatible md (ctx_queue g @ [a])" using session_okD(2) [of g' md] by simp
  with acc pushed(2,3) have "storable md (ctx_queue g) a" by (simp add: storable_def session_fields)
  from store [OF this] acc md' pushed(1) show ?thesis
    by (intro exI [of _ "Action_stored a"]) (simp add: session_flow_def session_fields abstracts_def)
next
  case dropped
  have "flow_step (authentic P) (session_flow False (ctx_session g)) l Idle"
    if "l = (if ctx_get_action_metadata g = None then Unchanged else Metadata_refused)" for l
    using dropped(2) that
    by (cases "ctx_get_action_metadata g")
      (simp_all add: session_flow_def session_fields unat_eq_zero unchanged provide_refused)
  then show ?thesis unfolding dropped(1)
    by (intro exI [of _ "if ctx_get_action_metadata g = None then Unchanged else Metadata_refused"]) (simp add: abstracts_def)
qed

section \<open>Signing\<close>

text \<open>What signing does to the session, when sending works: nothing, or one action further.\<close>

lemma signed_session:
  assumes P: "platform_ok P" "transport_works P" and inv: "dev_inv P dv" and run: "sign_action P dv = Inr (ret, dv')"
  obtains (nothing) "0 \<le> ret" "signatures dv' = signatures dv" "ctx_session (dv_ctx dv') = ctx_session (dv_ctx dv)"
      "dv_review dv' = dv_review dv"
  | (signed) md r n where "0 \<le> ret" "signatures dv' = signatures dv @ [r]" "dv_review dv' = dv_review dv"
      "ctx_get_action_metadata (dv_ctx dv) = Some md" "n = unat (action_index (dv_ctx dv))" "n < length (ctx_queue (dv_ctx dv))"
      "signature_of P (md, ctx_queue (dv_ctx dv) ! n) r"
      "session_flow False (ctx_session (dv_ctx dv')) = signed_upto md (ctx_queue (dv_ctx dv)) (Suc n)"
  using sign_action_cases [OF P(1) inv]
proof (elim disjE exE conjE)
  fix ret0 assume "sign_action P dv = Inr (ret0, dv\<lparr>dv_sent := dv_sent dv @ [\<lparr>rs_data = [], rs_sw = SWO_INCORRECT_DATA\<rparr>]\<rparr>)"
  with run have "dv' = dv\<lparr>dv_sent := dv_sent dv @ [\<lparr>rs_data = [], rs_sw = SWO_INCORRECT_DATA\<rparr>]\<rparr>" by auto
  moreover have "0 \<le> ret" using sign_action_ret [OF run] P(2) by (auto simp: transport_works_def)
  ultimately show thesis by - (rule nothing, simp_all add: signatures_def)
next
  fix ret0 a md r g'
  let ?g = "dv_ctx dv" and ?g1 = "ctx_switch_to_next_action (dv_ctx dv)"
  assume sg: "signed_by P ?g (dv_signing dv) a md r" and ret0: "ret0 = io_ret P (dv_sent dv) r"
    and g': "g' = (if 0 \<le> ret0 \<and> ctx_remaining_actions ?g1 = 0 then ctx_reset ?g1 else ?g1)"
    and eq: "sign_action P dv = Inr (ret0, dv\<lparr>dv_ctx := g', dv_sent := dv_sent dv @ [r]\<rparr>)"
  have dv': "ret = ret0" "dv' = dv\<lparr>dv_ctx := g', dv_sent := dv_sent dv @ [r]\<rparr>" using eq run by auto
  have pos: "0 \<le> ret0" using P(2) by (simp add: ret0 transport_works_def)
  have ok: "session_ok ?g" and sok: "signing_ok P (dv_signing dv)" using dev_invD [OF inv] by auto
  have i: "ctx_inv ?g" using session_okD(1) [OF ok] .
  have a: "ctx_get_current_action ?g = Some a" and md: "ctx_get_action_metadata ?g = Some md"
    using sg by (simp_all add: signed_by_def)
  note cur = current_session [OF ok a]
  let ?n = "unat (action_index ?g)"
  have s1: "ctx_session ?g1 = (ctx_session ?g)\<lparr>ss_pos := ?n + 1\<rparr>"
    using ctx.advance_law(2) [OF i] a by (simp add: session_fields)
  have i1: "ctx_inv ?g1" using ctx.advance_law(1) [OF i] a by simp
  have "ctx_remaining_actions ?g1 = 0 \<longleftrightarrow> length (ctx_queue ?g) - (?n + 1) = 0"
    using ctx.remaining_law [OF i1] s1 by (simp add: session_fields unat_eq_zero [symmetric])
  then have rem: "ctx_remaining_actions ?g1 = 0 \<longleftrightarrow> Suc ?n = length (ctx_queue ?g)" using cur(2) by auto
  have flow: "session_flow False (ctx_session g') = signed_upto md (ctx_queue ?g) (Suc ?n)"
  proof (cases "Suc ?n = length (ctx_queue ?g)")
    case True
    then have "g' = ctx_reset ?g1" using rem pos g' by simp
    then show ?thesis using True by (simp add: signed_upto_def)
  next
    case False
    then have "ctx_session g' = (ctx_session ?g)\<lparr>ss_pos := ?n + 1\<rparr>" using rem g' s1 by simp
    then show ?thesis using False md by (simp add: session_flow_def session_fields signed_upto_def)
  qed
  from P(1) obtain K S where "cx_hashes (pf_cx P) K S" by (auto simp: platform_ok_def)
  from signed_by_signs(2) [OF P(1) this ok sok sg] have "signature_response r" .
  then have "signatures dv' = signatures dv @ [r]" by (simp add: dv'(2) signatures_def)
  moreover have "signature_of P (md, ctx_queue ?g ! ?n) r" using sg cur(3) by (auto simp: signature_of_def)
  ultimately show thesis using pos cur(2) md flow dv' by - (rule signed [of r md ?n], simp_all)
qed

section \<open>The simulation\<close>

lemma command_simulated:
  assumes P: "platform_ok P" "transport_works P" and inv: "dev_inv P dv" and step: "dev_step P dv (Command raw) dv'"
  shows "simulated P dv (Command raw) dv'"
proof -
  have same: "simulated P dv (Command raw) dv'" if "flow_of dv' = flow_of dv" "signatures dv' = signatures dv" for dv'
    by (rule simulatedI [of _ _ Unchanged]) (simp_all add: that unchanged abstracts_def)
  from step have run: "app_command P raw dv = Inr (Some dv')" by (auto elim: command_stepE)
  have ok: "session_ok (dv_ctx dv)" using dev_invD(1) [OF inv] .
  show ?thesis
  proof (cases "dv_comm_enabled dv")
    case False
    with command_effect(2) [OF P(1) inv run] show ?thesis by (intro same) (simp_all add: flow_of_def signatures_def)
  next
    case True
    then have none: "dv_review dv = None" using dev_invD(4) [OF inv] by simp
    from True command_effect(2) [OF P(1) inv run] obtain ret where "dispatch_effect P dv (ret, dv')" by auto
    then show ?thesis
    proof cases
      case (answered r)
      then show ?thesis by (intro same) (simp_all add: flow_of_def signatures_def)
    next
      case (received r cp g)
      from payload_flow [OF ok received(6)] obtain l
        where "flow_step (authentic P) (session_flow False (ctx_session (dv_ctx dv))) l (session_flow False (ctx_session g))"
          "abstracts (Command raw) l" "signed_in l = []" by blast
      with received(1,2) none show ?thesis by (intro simulatedI [of _ _ l]) (simp_all add: flow_of_def signatures_def)
    next
      case (refused r sc)
      then show ?thesis by (intro same) (simp_all add: flow_of_def signatures_def)
    next
      case (opened sc ui)
      then obtain md where md: "ctx_get_action_metadata (dv_ctx dv) = Some md"
        by (cases "ctx_get_action_metadata (dv_ctx dv)") (auto simp: reviewed_def handle_ui_def)
      have "length (ctx_queue (dv_ctx dv)) = unat (action_count (dv_ctx dv))"
        using length_ctx_queue [OF session_okD(1) [OF ok]] .
      then have "ctx_queue (dv_ctx dv) \<noteq> []" "action_index (dv_ctx dv) = 0"
        using opened(4) by (auto simp: reviewed_def unat_eq_zero)
      with review [of "ctx_queue (dv_ctx dv)" "authentic P" md] md none opened(2) show ?thesis
        by (intro simulatedI [of _ _ Review_shown])
          (simp_all add: flow_of_def session_flow_def session_fields show_display_def disable_comm_def signatures_def abstracts_def)
    next
      case continued
      from P inv continued(2) show ?thesis
      proof (cases rule: signed_session)
        case nothing
        then show ?thesis by (intro same) (simp_all add: flow_of_def)
      next
        case (signed md r n)
        have "flow_of dv = Signing md (ctx_queue (dv_ctx dv)) n"
          using signed(4,5) continued(1) none by (simp add: flow_of_def session_flow_def session_fields unat_eq_zero)
        moreover have "flow_of dv' = signed_upto md (ctx_queue (dv_ctx dv)) (Suc n)"
          using signed(3,8) none by (simp add: flow_of_def)
        ultimately show ?thesis
          using sign_next [OF signed(6) refl, of "authentic P" md] signed(2,7) unfolding simulated_def
          by (intro exI [of _ "Action_signed md (ctx_queue (dv_ctx dv) ! n)"] exI [of _ "[r]"]) (simp add: abstracts_def)
      qed
    qed
  qed
qed

lemma choice_simulated:
  assumes P: "platform_ok P" "transport_works P" and inv: "dev_inv P dv" and step: "dev_step P dv (Choice c) dv'"
  shows "simulated P dv (Choice c) dv'"
proof -
  from step have run: "review_choice P c dv = Inr dv'" and "dv_review dv \<noteq> None" by (auto elim: choice_stepE)
  then obtain ui where rev: "dv_review dv = Some ui" by blast
  from dev_invD(5) [OF inv rev] have zero: "action_index (dv_ctx dv) = 0" by (simp add: reviewed_def)
  from dev_invD(5) [OF inv rev] obtain md where md: "ctx_get_action_metadata (dv_ctx dv) = Some md"
    by (cases "ctx_get_action_metadata (dv_ctx dv)") (auto simp: reviewed_def handle_ui_def)
  have waiting: "flow_of dv = WaitingForUser md (ctx_queue (dv_ctx dv))"
    using rev md by (simp add: flow_of_def session_flow_def session_fields)
  show ?thesis
  proof (cases c)
    case False
    with run have "flow_of dv' = Idle" "signatures dv' = signatures dv"
      by (auto simp: review_choice_def Let_def enable_comm_def show_display_def io_send_sw_def io_send_response_def
          flow_of_def signatures_def signature_response_def)
    with waiting reject [of "authentic P" md] False show ?thesis
      by (intro simulatedI [of _ _ User_rejects]) (simp_all add: abstracts_def)
  next
    case True
    with run obtain ret dv1 where s: "sign_action P (answered_review dv) = Inr (ret, dv1)" and dv': "dv' = after_signing ret dv1"
      by (auto simp: review_choice_confirm rbind_Inr_conv)
    have done_review: "dv_review (answered_review dv) = None" "signatures (answered_review dv) = signatures dv"
      by (simp_all add: answered_review_def enable_comm_def signatures_def)
    have shown: "flow_of dv' = session_flow False (ctx_session (dv_ctx dv1)) \<and> signatures dv' = signatures dv1"
      if "0 \<le> ret" "dv_review dv1 = None"
      using that by (simp add: dv' after_signing_def show_display_def flow_of_def signatures_def)
    from P answered_review_inv [OF inv] s show ?thesis
    proof (cases rule: signed_session)
      case nothing
      with shown done_review md zero have "flow_of dv' = MetadataLoaded md (ctx_queue (dv_ctx dv))" "signatures dv' = signatures dv"
        by (simp_all add: session_flow_def session_fields)
      with waiting approve_fails [of "authentic P" md] True show ?thesis
        by (intro simulatedI [of _ _ Approval_fails]) (simp_all add: abstracts_def)
    next
      case (signed md' r n)
      have n: "n = 0" "md' = md" using signed(4,5) zero md by simp_all
      have "ctx_queue (dv_ctx dv) \<noteq> []" using signed(6) n by auto
      then have "ctx_queue (dv_ctx dv) ! 0 = hd (ctx_queue (dv_ctx dv))" by (simp add: hd_conv_nth)
      moreover have "flow_of dv' = signed_upto md (ctx_queue (dv_ctx dv)) 1" "signatures dv' = signatures dv @ [r]"
        using shown signed(1,2,3,8) done_review n by simp_all
      ultimately show ?thesis
        using approve [OF refl, of "authentic P" md "ctx_queue (dv_ctx dv)"] signed(7) n waiting True unfolding simulated_def
        by (intro exI [of _ "User_approves md (hd (ctx_queue (dv_ctx dv)))"] exI [of _ "[r]"]) (simp add: abstracts_def)
    qed
  qed
qed

lemma dev_step_simulated:
  assumes "platform_ok P" "transport_works P" "dev_inv P dv" "dev_step P dv e dv'"
  shows "simulated P dv e dv'"
  using assms command_simulated choice_simulated by (cases e) blast+

section \<open>Runs\<close>

text \<open>A run of the flow with the same events as a run of the device and the same signatures.\<close>

definition refines_run :: "'h platform \<Rightarrow> (device \<times> event) list \<Rightarrow> device \<Rightarrow> bool" where
  "refines_run P tr dv \<longleftrightarrow> (\<exists>fl. runs Idle (flow_step (authentic P)) fl (flow_of dv) \<and>
     list_all2 (\<lambda>(dv, e) (s, l). s = flow_of dv \<and> abstracts e l) tr fl \<and>
     list_all2 (signature_of P) (concat (map (signed_in \<circ> snd) fl)) (signatures dv))"

lemma refines_run_start: "refines_run P [] (app_start P)"
proof -
  have "flow_of (app_start P) = Idle" "signatures (app_start P) = []"
    by (simp_all add: flow_of_def session_flow_def session_fields app_start_def enable_comm_def zero_defs
        ctx_get_action_metadata_def signatures_def)
  then show ?thesis unfolding refines_run_def by (intro exI [of _ "[]"]) (simp add: runs_none)
qed

lemma refines_run_step:
  assumes "refines_run P tr dv" "simulated P dv e dv'"
  shows "refines_run P (tr @ [(dv, e)]) dv'"
proof -
  from assms(1) obtain fl where fl: "runs Idle (flow_step (authentic P)) fl (flow_of dv)"
    "list_all2 (\<lambda>(dv, e) (s, l). s = flow_of dv \<and> abstracts e l) tr fl"
    "list_all2 (signature_of P) (concat (map (signed_in \<circ> snd) fl)) (signatures dv)" by (auto simp: refines_run_def)
  from assms(2) obtain l rs where l: "flow_step (authentic P) (flow_of dv) l (flow_of dv')" "abstracts e l"
    "signatures dv' = signatures dv @ rs" "list_all2 (signature_of P) (signed_in l) rs" by (auto simp: simulated_def)
  from runs_snoc [OF fl(1) l(1)] fl(2,3) l(2,3,4) show ?thesis unfolding refines_run_def
    by (intro exI [of _ "fl @ [(flow_of dv, l)]"]) (simp add: list_all2_appendI)
qed

interpretation flow_refinement: run_invariant "app_start P" "dev_step P" "\<lambda>tr dv. dev_inv P dv \<and> refines_run P tr dv"
  "platform_ok P \<and> transport_works P" for P
  by unfold_locales (auto intro: dev_inv_start refines_run_start dev_step_inv refines_run_step dev_step_simulated)

end
