(* ===== verification/Ui_Complete.thy ===== *)
theory Ui_Complete
  imports Device_Run
begin

text \<open>
  Completeness of the review. Signing goes through the queue by index while the screens look actions up
  by type; \<open>is_action_compatible\<close> is there so that no action is signed without having been displayed,
  apart from the two kinds that accompany an order silently by design. Here that is a theorem.
\<close>

definition silent_type :: "e_action_type \<Rightarrow> bool" where
  "silent_type t \<longleftrightarrow> t = ACTION_TYPE_APPROVE_BUILDER_FEE \<or> t = ACTION_TYPE_USER_SET_ABSTRACTION"

text \<open>What it means that the lines of a screen account for an action.\<close>

definition accounts_for :: "byte_lib \<Rightarrow> s_action_metadata \<Rightarrow> (string \<times> string) list \<Rightarrow> s_action \<Rightarrow> bool" where
  "accounts_for B md ls a = (case act_type a of
       ACTION_TYPE_BULK_ORDER \<Rightarrow>
         (case md_op_type md of
            OP_TYPE_MODIFY \<Rightarrow> \<exists>t. modify_review a t \<and> ls = leading_lines md @ modify_lines B md False t
          | OP_TYPE_CLOSE \<Rightarrow> \<exists>r. bulk_orders (act_bulk_order a) = [r] \<and> ls = leading_lines md @ close_lines B md r
          | _ \<Rightarrow> \<exists>lim lev tp sl. order_review (act_bulk_order a) lim tp sl \<and>
              ls = leading_lines md @ order_lines B md lim lev tp sl)
     | ACTION_TYPE_BULK_MODIFY \<Rightarrow> \<exists>t. modify_review a t \<and> ls = leading_lines md @ modify_lines B md True t
     | ACTION_TYPE_BULK_CANCEL \<Rightarrow> set (oid_lines B (bulk_cancels (act_bulk_cancel a))) \<subseteq> set ls
     | ACTION_TYPE_UPDATE_LEVERAGE \<Rightarrow> \<not> ul_is_cross (act_update_leverage a) \<and>
         (''Leverage'', dec_of_nat (unat (ul_leverage (act_update_leverage a))) @ ''x'') \<in> set ls
     | ACTION_TYPE_UPDATE_ISOLATED_MARGIN \<Rightarrow>
         ls = leading_lines md @ margin_lines B md (act_update_isolated_margin a)
     | _ \<Rightarrow> False)"

lemma queue_type_unique:
  assumes "ctx_inv g" "a \<in> set (ctx_queue g)" "b \<in> set (ctx_queue g)" "act_type a = act_type b"
  shows "a = b"
  using assms by (auto simp: ctx_inv_def distinct_map dest: inj_onD)

lemma op_type_allowed:
  "session_compatible md q \<Longrightarrow> a \<in> set q \<Longrightarrow> act_type a \<in> allowed_types (md_op_type md)"
  by (auto simp: session_compatible_def)

lemma start_screen_pairs [simp]: "ui_pairs (start_screen md) = leading_lines md"
  by (simp add: start_screen_def)

lemma order_accounts:
  assumes inv: "ctx_inv g" and sh: "order_shown W B g md (start_screen md) ui" and op: "md_op_type md = OP_TYPE_ORDER"
    and a: "a \<in> set (ctx_queue g)" "act_type a \<in> allowed_types OP_TYPE_ORDER"
  shows "accounts_for B md (ui_pairs ui) a \<or> silent_type (act_type a)"
proof -
  let ?lev = "map_option act_update_leverage (ctx_get_action ACTION_TYPE_UPDATE_LEVERAGE g)"
  from sh obtain b lim tp sl where b: "b \<in> set (ctx_queue g)" "act_type b = ACTION_TYPE_BULK_ORDER"
    "order_review (act_bulk_order b) lim tp sl" "\<forall>u. ?lev = Some u \<longrightarrow> \<not> ul_is_cross u"
    "ui_pairs ui = leading_lines md @ order_lines B md lim ?lev tp sl" by (auto simp: order_shown_def Let_def)
  show ?thesis
  proof (cases "act_type a")
    case ACTION_TYPE_BULK_ORDER
    with queue_type_unique [OF inv a(1) b(1)] b(2) have "a = b" by simp
    with b ACTION_TYPE_BULK_ORDER op show ?thesis by (auto simp: accounts_for_def)
  next
    case ACTION_TYPE_UPDATE_LEVERAGE
    have "ctx_get_action ACTION_TYPE_UPDATE_LEVERAGE g = Some a"
      using session_lookup_iff [OF inv, of ACTION_TYPE_UPDATE_LEVERAGE a] a(1) ACTION_TYPE_UPDATE_LEVERAGE by simp
    then have "?lev = Some (act_update_leverage a)" by simp
    with b(4,5) ACTION_TYPE_UPDATE_LEVERAGE show ?thesis
      by (auto simp: accounts_for_def order_lines_def order_common_lines_def set_leverage_line_def)
  qed (use a(2) in \<open>simp_all add: allowed_types_def silent_type_def\<close>)
qed

lemma cancel_accounts:
  assumes inv: "ctx_inv g" and sh: "cancel_shown B g md n op intent ui0 ui"
    and a: "a \<in> set (ctx_queue g)" "act_type a = ACTION_TYPE_BULK_CANCEL"
  shows "accounts_for B md (ui_pairs ui) a"
proof -
  from sh obtain b where b: "b \<in> set (ctx_queue g)" "act_type b = ACTION_TYPE_BULK_CANCEL"
    "ui_pairs ui = ui_pairs ui0 @ cancel_lines B md op (bulk_cancels (act_bulk_cancel b))" by (auto simp: cancel_shown_def)
  from queue_type_unique [OF inv a(1) b(1)] a(2) b(2) have "a = b" by simp
  with b a(2) show ?thesis by (auto simp: accounts_for_def cancel_lines_def)
qed

lemma modify_accounts:
  assumes inv: "ctx_inv g" and sh: "modify_shown W B g md (start_screen md) ui" and op: "md_op_type md = OP_TYPE_MODIFY"
    and q: "length (ctx_queue g) \<le> 1" and a: "a \<in> set (ctx_queue g)"
  shows "accounts_for B md (ui_pairs ui) a"
proof -
  from sh obtain b t where b: "b \<in> set (ctx_queue g)" "modify_review b t"
    "ui_pairs ui = leading_lines md @ modify_lines B md (act_type b = ACTION_TYPE_BULK_MODIFY) t"
    by (auto simp: modify_shown_def)
  from q a b(1) have "a = b" by (cases "ctx_queue g") auto
  moreover have "act_type b = ACTION_TYPE_BULK_MODIFY \<or> act_type b = ACTION_TYPE_BULK_ORDER"
    using b(2) by (auto simp: modify_review_def split: if_splits)
  ultimately show ?thesis using b op by (auto simp: accounts_for_def)
qed

lemma close_accounts:
  assumes inv: "ctx_inv g" and sh: "close_shown W B g md (start_screen md) ui" and op: "md_op_type md = OP_TYPE_CLOSE"
    and a: "a \<in> set (ctx_queue g)" "act_type a = ACTION_TYPE_BULK_ORDER"
  shows "accounts_for B md (ui_pairs ui) a"
proof -
  from sh obtain b r where b: "b \<in> set (ctx_queue g)" "act_type b = ACTION_TYPE_BULK_ORDER"
    "bulk_orders (act_bulk_order b) = [r]" "ui_pairs ui = leading_lines md @ close_lines B md r"
    by (auto simp: close_shown_def)
  from queue_type_unique [OF inv a(1) b(1)] a(2) b(2) have "a = b" by simp
  with b a(2) op show ?thesis by (auto simp: accounts_for_def)
qed

lemma margin_accounts:
  assumes inv: "ctx_inv g" and sh: "margin_shown W B g md (start_screen md) ui"
    and a: "a \<in> set (ctx_queue g)" "act_type a = ACTION_TYPE_UPDATE_ISOLATED_MARGIN"
  shows "accounts_for B md (ui_pairs ui) a"
proof -
  from sh obtain b where b: "b \<in> set (ctx_queue g)" "act_type b = ACTION_TYPE_UPDATE_ISOLATED_MARGIN"
    "ui_pairs ui = leading_lines md @ margin_lines B md (act_update_isolated_margin b)"
    by (auto simp: margin_shown_def)
  from queue_type_unique [OF inv a(1) b(1)] a(2) b(2) have "a = b" by simp
  with b a(2) show ?thesis by (simp add: accounts_for_def)
qed

text \<open>Every action of the session is accounted for, or is one of the silent kinds of an order session.\<close>

lemma review_accounts:
  assumes env: "screen_env B g md" and comp: "session_compatible md (ctx_queue g)"
    and ui: "handle_ui W B g (Some md) = Inr ui" and a: "a \<in> set (ctx_queue g)"
  shows "accounts_for B md (ui_pairs ui) a \<or> md_op_type md = OP_TYPE_ORDER \<and> silent_type (act_type a)"
proof -
  have inv: "ctx_inv g" using env by (simp add: screen_env_def session_wf_def)
  from handle_ui_spec(2) [OF env ui] obtain ui0
    where sh: "op_shown W B g md (start_screen md) ui0" and pairs: "ui_pairs ui = ui_pairs ui0"
    by (auto simp: review_screen_def)
  note allowed = op_type_allowed [OF comp a]
  show ?thesis
  proof (cases "md_op_type md")
    case OP_TYPE_ORDER
    with order_accounts [OF inv _ OP_TYPE_ORDER a] sh allowed pairs show ?thesis by (simp add: op_shown_def)
  next
    case OP_TYPE_MODIFY
    with modify_accounts [OF inv _ OP_TYPE_MODIFY _ a] sh comp pairs show ?thesis
      by (simp add: op_shown_def session_compatible_def)
  next
    case OP_TYPE_CLOSE
    with close_accounts [OF inv _ OP_TYPE_CLOSE a] sh allowed pairs show ?thesis by (simp add: op_shown_def allowed_types_def)
  next
    case OP_TYPE_UPDATE_MARGIN
    with margin_accounts [OF inv _ a] sh allowed pairs show ?thesis by (simp add: op_shown_def allowed_types_def)
  next
    case OP_TYPE_UPDATE_LEVERAGE
    with allowed show ?thesis by (simp add: allowed_types_def)
  qed (use cancel_accounts [OF inv _ a] sh allowed pairs in \<open>auto simp: op_shown_def allowed_types_def\<close>)
qed

text \<open>So for the review displayed in a state of the device.\<close>

lemma displayed_accounts:
  assumes P: "platform_ok P" and inv: "dev_inv P dv" and rev: "dv_review dv = Some ui" and a: "a \<in> set (ctx_queue (dv_ctx dv))"
  shows "\<exists>md. ctx_get_action_metadata (dv_ctx dv) = Some md \<and>
     (accounts_for (pf_bytes P) md (ui_pairs ui) a \<or> md_op_type md = OP_TYPE_ORDER \<and> silent_type (act_type a))"
proof -
  have ok: "session_ok (dv_ctx dv)" using dev_invD(1) [OF inv] .
  from dev_invD(5) [OF inv rev] obtain md where md: "ctx_get_action_metadata (dv_ctx dv) = Some md"
    and ui: "handle_ui (pf_wallet_screen P) (pf_bytes P) (dv_ctx dv) (Some md) = Inr ui"
    by (cases "ctx_get_action_metadata (dv_ctx dv)") (auto simp: reviewed_def handle_ui_def)
  have "screen_env (pf_bytes P) (dv_ctx dv) md" "session_compatible md (ctx_queue (dv_ctx dv))"
    using session_okD(2) [OF ok md] platform_okD(3) [OF P] by (auto simp: screen_env_def)
  from review_accounts [OF this ui a] md show ?thesis by blast
qed

section \<open>A reduce-only order under the operation for opening\<close>

text \<open>
  The order screen does not look at \<open>reduce_only\<close> of the limit order, except for the name of the side: a
  reduce-only buy, which closes a short position, is accepted with the prompt to open one.
\<close>

lemma single_order_accepted:
  assumes "bulk_orders b = [r]" "get_limit_request r" "tif (or_limit r) \<noteq> TIF_ALO"
  shows "get_order_request (bo_orders b) (bo_order_count b) get_limit_request = Some r"
    and "bo_order_count b = 1 \<Longrightarrow> \<not> order_refused b None r"
proof -
  have kinds: "\<not> get_trigger_tp r" "\<not> get_trigger_sl r" using assms(2) order_kinds(1) [of r] by auto
  show "get_order_request (bo_orders b) (bo_order_count b) get_limit_request = Some r"
    using assms(1,2) by (simp add: get_order_request_def bulk_orders_def)
  show "bo_order_count b = 1 \<Longrightarrow> \<not> order_refused b None r"
    using assms kinds by (simp add: order_refused_def Let_def order_structure_bad_def trigger_mismatch_def
        get_order_request_def count_order_requests_filter bulk_orders_def)
qed

lemma reduce_only_opening:
  assumes env: "screen_env B g md" and room: "length (ui_pairs ui) \<le> 2"
    and a: "ctx_get_action ACTION_TYPE_BULK_ORDER g = Some a" and none: "ctx_get_action ACTION_TYPE_UPDATE_LEVERAGE g = None"
    and r: "bulk_orders (act_bulk_order a) = [r]" "get_limit_request r" "tif (or_limit r) = TIF_IOC" "or_reduce_only r"
  shows "\<exists>ui'. ui_order True B g ui md = Inr ui' \<and>
     ui_intent ui' = ''Open '' @ md_asset_ticker md @ '' '' @ (if or_is_buy r then ''short'' else ''long'')"
proof -
  have wf: "session_wf g md" using env by (simp add: screen_env_def)
  from session_lookup [OF wf a] have "action_wf (Some md) a" "act_type a = ACTION_TYPE_BULK_ORDER" by auto
  from bulk_orders_length [OF this] have one: "bo_order_count (act_bulk_order a) = 1" by (simp add: r(1))
  have tif: "tif (or_limit r) \<noteq> TIF_ALO" by (simp add: r(3))
  note single = single_order_accepted [OF r(1,2) tif]
  have "side r = (if or_is_buy r then ''short'' else ''long'')" using r(4) by (simp add: side_def position_is_long_def)
  with ui_order_run [OF env room a single(1), of True] single(2) [OF one] show ?thesis
    by (simp add: none order_intent_def r(3) Let_def)
qed

end
