(* ===== verification/Test_Support.thy ===== *)
theory Test_Support
  imports Device_Inv
begin

unbundle bit_operations_syntax

text \<open>
  The support code of the tests: the buffer of the serialization tests (\<open>unit-tests/ser_helpers.h\<close>) and
  the fuzz targets (\<open>fuzzing/harness\<close>). The test buffer behaves as the application's own, so what the
  tests read back is what the application hashes; the fuzz targets return on every input.
\<close>

section \<open>The buffer of the serialization tests\<close>

definition SER_BUF_SIZE :: nat where "SER_BUF_SIZE = 512"

record ser_buf_t =
  sb_data :: "byte list"
  sb_len :: nat
  sb_rpos :: nat

definition ser_buf_0 :: ser_buf_t where
  "ser_buf_0 = \<lparr>sb_data = replicate SER_BUF_SIZE 0, sb_len = 0, sb_rpos = 0\<rparr>"

definition test_ser_writer :: "ser_buf_t \<Rightarrow> byte list \<Rightarrow> nat \<times> ser_buf_t" where
  "test_ser_writer sb data =
     (if sb_len sb + length data > SER_BUF_SIZE then (0, sb)
      else (length data, sb\<lparr>sb_data := memcpy_at (sb_data sb) (sb_len sb) data,
                            sb_len := sb_len sb + length data\<rparr>))"

definition ser_reader :: "ser_buf_t \<Rightarrow> nat \<Rightarrow> (byte list \<times> ser_buf_t) option" where
  "ser_reader sb n =
     (if sb_rpos sb + n > sb_len sb then None
      else Some (take n (drop (sb_rpos sb) (sb_data sb)), sb\<lparr>sb_rpos := sb_rpos sb + n\<rparr>))"

definition make_reader :: "ser_buf_t \<Rightarrow> ser_buf_t" where
  "make_reader sb = sb\<lparr>sb_rpos := 0\<rparr>"

text \<open>\<open>find_bytes\<close>, with the offset of the occurrence for the pointer to it.\<close>

definition find_bytes :: "byte list \<Rightarrow> byte list \<Rightarrow> nat option" where
  "find_bytes buf needle =
     (if length needle = 0 \<or> length needle > length buf then None
      else find (\<lambda>i. take (length needle) (drop i buf) = needle) [0..<length buf - length needle + 1])"

definition fixstr :: "byte list \<Rightarrow> byte list" where
  "fixstr s = (0xa0 OR word_of_nat (length s)) # s"

definition ASSERT_SERIALIZED_STR :: "ser_buf_t \<Rightarrow> string \<Rightarrow> bool" where
  "ASSERT_SERIALIZED_STR sb s \<longleftrightarrow> find_bytes (take (sb_len sb) (sb_data sb)) (fixstr (bytes_of s)) \<noteq> None"

section \<open>It is the application's buffer\<close>

definition app_buffer :: "ser_buf_t \<Rightarrow> buffer_t" where
  "app_buffer sb = \<lparr>buf_ptr = sb_data sb, buf_size = SER_BUF_SIZE, buf_offset = sb_len sb\<rparr>"

definition ser_buf_wf :: "ser_buf_t \<Rightarrow> bool" where
  "ser_buf_wf sb \<longleftrightarrow> length (sb_data sb) = SER_BUF_SIZE \<and> sb_rpos sb \<le> sb_len sb \<and> sb_len sb \<le> SER_BUF_SIZE"

lemma ser_buf_0_wf: "ser_buf_wf ser_buf_0"
  by (simp add: ser_buf_wf_def ser_buf_0_def)

lemma test_writer_is_app_writer:
  "ser_writer (Some (app_buffer sb)) data = map_prod id (\<lambda>sb. Some (app_buffer sb)) (test_ser_writer sb data)"
  by (simp add: test_ser_writer_def app_buffer_def)

lemma test_ser_writer_wf: "ser_buf_wf sb \<Longrightarrow> ser_buf_wf (snd (test_ser_writer sb data))"
  by (simp add: test_ser_writer_def ser_buf_wf_def)

text \<open>What was written is read back.\<close>

lemma ser_reader_written:
  assumes "ser_buf_wf sb" "sb_rpos sb = sb_len sb" "test_ser_writer sb data = (length data, sb')" "data \<noteq> []"
  shows "ser_reader sb' (length data) = Some (data, sb'\<lparr>sb_rpos := sb_len sb'\<rparr>)"
proof -
  have fits: "sb_len sb + length data \<le> SER_BUF_SIZE" and
    sb': "sb' = sb\<lparr>sb_data := memcpy_at (sb_data sb) (sb_len sb) data, sb_len := sb_len sb + length data\<rparr>"
    using assms(3,4) by (auto simp: test_ser_writer_def split: if_splits)
  have "take (length data) (drop (sb_len sb) (memcpy_at (sb_data sb) (sb_len sb) data)) = data"
    using assms(1) by (simp add: memcpy_at_def ser_buf_wf_def)
  then show ?thesis by (simp add: ser_reader_def sb' assms(2))
qed

lemma ser_reader_all:
  assumes "ser_buf_wf sb"
  shows "ser_reader (make_reader sb) (sb_len sb) = Some (written (app_buffer sb), sb\<lparr>sb_rpos := sb_len sb\<rparr>)"
  by (simp add: ser_reader_def make_reader_def written_def app_buffer_def)

section \<open>The search\<close>

lemma find_bytes_Some:
  assumes "find_bytes buf needle = Some i"
  shows "take i buf @ needle @ drop (i + length needle) buf = buf" "\<forall>j < i. take (length needle) (drop j buf) \<noteq> needle"
proof -
  from assms have hit: "take (length needle) (drop i buf) = needle" "i \<le> length buf - length needle"
    and first: "\<forall>j < i. take (length needle) (drop j buf) \<noteq> needle" and le: "length needle \<le> length buf"
    by (auto simp: find_bytes_def find_Some_iff simp del: upt_Suc split: if_splits)
  from first show "\<forall>j < i. take (length needle) (drop j buf) \<noteq> needle" .
  have "needle @ drop (i + length needle) buf = drop i buf"
    using append_take_drop_id [of "length needle" "drop i buf"] hit(1) by (simp add: add.commute)
  then show "take i buf @ needle @ drop (i + length needle) buf = buf" by simp
qed

lemma find_bytes_complete:
  assumes "needle \<noteq> []"
  shows "find_bytes (pre @ needle @ post) needle \<noteq> None"
proof
  let ?buf = "pre @ needle @ post" and ?n = "length needle"
  assume "find_bytes ?buf needle = None"
  with assms have "\<forall>i \<in> set [0..<length ?buf - ?n + 1]. take ?n (drop i ?buf) \<noteq> needle"
    by (simp add: find_bytes_def find_None_iff del: upt_Suc)
  then have "take ?n (drop (length pre) ?buf) \<noteq> needle" by (rule bspec) simp
  then show False by simp
qed

text \<open>
  The assertion of the tests holds of every string that was written, when the encoder writes short
  strings as MessagePack prescribes.
\<close>

definition cmp_fixstr :: "cmp_lib \<Rightarrow> bool" where
  "cmp_fixstr C \<longleftrightarrow> (\<forall>bs. length bs \<le> 31 \<longrightarrow> concat (cmp_str C bs) = fixstr bs)"

lemma serialized_str_found:
  assumes "cmp_fixstr C" "length s \<le> 31" "written (app_buffer sb) = pre @ mp_bytes C (MStr s) @ post"
  shows "ASSERT_SERIALIZED_STR sb s"
proof -
  have "take (sb_len sb) (sb_data sb) = pre @ fixstr (bytes_of s) @ post"
    using assms by (simp add: cmp_fixstr_def written_def app_buffer_def)
  then show ?thesis using find_bytes_complete [of "fixstr (bytes_of s)" pre post]
    by (simp add: ASSERT_SERIALIZED_STR_def fixstr_def)
qed

section \<open>The fuzz targets\<close>

definition fuzz_metadata :: s_action_metadata where
  "fuzz_metadata = s_action_metadata_0\<lparr>md_op_type := OP_TYPE_ORDER, md_asset_id := 42,
     md_asset_ticker := ''FUZZ'', md_network := NETWORK_MAINNET, md_has_builder_addr := False\<rparr>"

text \<open>A function that returns \<open>bool\<close>, called for its value.\<close>

definition or_false :: "'a result \<Rightarrow> (bool \<Rightarrow> 'b result) \<Rightarrow> 'b result" where
  "or_false r k = (case r of Inl Reject \<Rightarrow> k False | Inl e \<Rightarrow> Inl e | Inr _ \<Rightarrow> k True)"

definition fuzz_action ::
  "tlv_lib \<Rightarrow> cmp_lib \<Rightarrow> byte_lib \<Rightarrow> 'h cx_lib \<Rightarrow> byte list \<Rightarrow> s_hl_context \<Rightarrow> (int \<times> s_hl_context) result" where
  "fuzz_action L C B X data g =
     (case parse_action L (Some data) g of
        Inl Reject \<Rightarrow> Inr (1, g)
      | Inl e \<Rightarrow> Inl e
      | Inr g1 \<Rightarrow>
          or_false (action_hash C B X (ctx_get_current_action g1) (ctx_get_action_metadata g1)
                      (replicate ADDRESS_LENGTH 0))
            (\<lambda>ok. Inr (if ok then 1 else 0, g1)))"

definition fuzz_one_action ::
  "tlv_lib \<Rightarrow> cmp_lib \<Rightarrow> byte_lib \<Rightarrow> 'h cx_lib \<Rightarrow> byte list \<Rightarrow> s_hl_context \<Rightarrow> (int \<times> s_hl_context) result" where
  "fuzz_one_action L C B X data g =
     (let g0 = ctx_save_action_metadata (Some fuzz_metadata) (ctx_reset g) in
      rbind (fuzz_action L C B X data g0) (\<lambda>(_, g1). Inr (0, g1)))"

definition fuzz_one_action_metadata ::
  "tlv_lib \<Rightarrow> 'h cx_lib \<Rightarrow> byte list \<Rightarrow> s_hl_context \<Rightarrow> (int \<times> s_hl_context) result" where
  "fuzz_one_action_metadata L X data g =
     (case parse_action_metadata L X (Some data) (ctx_reset g) of
        (r, g1) \<Rightarrow> or_false r (\<lambda>_. Inr (0, g1)))"

lemma or_false_no_ub: "no_ub r \<Longrightarrow> \<exists>b. or_false r k = k b"
  by (cases r) (auto simp: or_false_def)

text \<open>The session of the action target: the fixed metadata and no action.\<close>

lemma fuzz_session:
  defines "g0 g \<equiv> ctx_save_action_metadata (Some fuzz_metadata) (ctx_reset g)"
  shows "ctx_inv (g0 g)" "ctx_session (g0 g) = empty_session\<lparr>ss_metadata := Some fuzz_metadata\<rparr>"
  unfolding g0_def using ctx.save_law ctx.reset_law by simp_all

lemma fuzz_action_returns:
  assumes L: "tlv_lib_ok L" and C: "cmp_int_agrees C" and inv: "ctx_inv g"
    and s: "ctx_session g = empty_session\<lparr>ss_metadata := Some md\<rparr>"
  shows "\<exists>n g'. fuzz_action L C B X data g = Inr (n, g') \<and> ctx_get_action_metadata g' = Some md \<and>
     length (ctx_queue g') \<le> 1 \<and> list_all (action_wf (Some md)) (ctx_queue g')"
proof (cases "parse_action L (Some data) g")
  case (Inl e)
  with parse_action_spec(1) [OF L inv, of "Some data"] s show ?thesis
    by (simp add: fuzz_action_def) (simp add: ctx_session_def empty_session_def)
next
  case (Inr g1)
  from parse_action_spec(2) [OF L inv Inr] obtain m a where m: "ctx_get_action_metadata g = Some m"
    and a: "action_wf (Some m) a" "payload_only a = a" and push: "ctx_push_action a g = Inr g1" by blast
  have md: "m = md" using m s by (simp add: ctx_session_def empty_session_def)
  have "ctx_inv g1" using ctx.push_law(1) [OF inv push] .
  moreover from ctx.push_accepted [OF inv push] s
  have s1: "ss_queue (ctx_session g1) = [a]" "ss_pos (ctx_session g1) = 0" "ss_metadata (ctx_session g1) = Some md"
    by (simp_all add: empty_session_def)
  ultimately have current: "ctx_get_current_action g1 = Some a" by (simp add: ctx.current_law)
  have "no_ub (action_hash C B X (Some a) (ctx_get_action_metadata g1) (replicate ADDRESS_LENGTH 0))"
    by (rule action_hash_no_ub [OF action_wf_counts [OF a] C])
  from or_false_no_ub [OF this, of "\<lambda>ok. Inr (if ok then 1 else 0, g1)"]
  obtain b where "fuzz_action L C B X data g = Inr (if b then 1 else 0, g1)"
    by (auto simp: fuzz_action_def Inr current)
  with s1 a(1) md show ?thesis by (simp add: ctx_session_def)
qed

lemma fuzz_one_action_returns:
  assumes "tlv_lib_ok L" "cmp_int_agrees C"
  shows "\<exists>g'. fuzz_one_action L C B X data g = Inr (0, g') \<and> ctx_get_action_metadata g' = Some fuzz_metadata \<and>
     length (ctx_queue g') \<le> 1 \<and> list_all (action_wf (Some fuzz_metadata)) (ctx_queue g')"
  using fuzz_action_returns [OF assms fuzz_session, of B X data g] by (auto simp: fuzz_one_action_def)

lemma fuzz_one_action_metadata_returns:
  assumes L: "tlv_lib_ok L"
  shows "\<exists>g'. fuzz_one_action_metadata L X data g = Inr (0, g') \<and> ctx_inv g'"
proof -
  obtain r g' where m: "parse_action_metadata L X (Some data) (ctx_reset g) = (r, g')" by fastforce
  from or_false_no_ub [OF parse_action_metadata_spec(1) [OF L m], of "\<lambda>_. Inr (0 :: int, g')"]
    parse_action_metadata_spec(4) [OF L m ctx.reset_law(1)] show ?thesis
    by (simp add: fuzz_one_action_metadata_def m)
qed

end
