(* ===== verification/Reference_Platform.thy ===== *)
theory Reference_Platform
  imports Device_Live Tlv_Encoding
begin

text \<open>
  One concrete platform: a MessagePack encoder written from the format's specification, decimal and
  fixed-point text, the TLV decoder of \<open>Tlv_Encoding\<close>, the plain APDU format, and a stand-in for the
  cryptography. It shows that the contracts of the parameters can be met together; the properties
  of the application are proved for every platform that meets them.
\<close>

section \<open>MessagePack\<close>

definition mp_uint_bytes :: "u64 \<Rightarrow> byte list" where
  "mp_uint_bytes n = (let k = unat n in
     if k < 128 then [word_of_nat k]
     else if k < 256 then 0xcc # be_bytes 1 k
     else if k < 65536 then 0xcd # be_bytes 2 k
     else if k < 4294967296 then 0xce # be_bytes 4 k
     else 0xcf # be_bytes 8 k)"

definition mp_int_bytes :: "u64 \<Rightarrow> byte list" where
  "mp_int_bytes n = (let i = sint n in
     if 0 \<le> i then mp_uint_bytes n
     else if - 32 \<le> i then [word_of_int i]
     else if - 128 \<le> i then 0xd0 # be_bytes 1 (nat (i mod 256))
     else if - 32768 \<le> i then 0xd1 # be_bytes 2 (nat (i mod 65536))
     else if - 2147483648 \<le> i then 0xd2 # be_bytes 4 (nat (i mod 4294967296))
     else 0xd3 # be_bytes 8 (unat n))"

definition mp_header :: "nat \<Rightarrow> byte \<Rightarrow> byte \<Rightarrow> byte \<Rightarrow> nat \<Rightarrow> byte list" where
  "mp_header small fix16 m16 m32 n =
     (if n < small then [fix16 + word_of_nat n]
      else if n < 65536 then m16 # be_bytes 2 n else m32 # be_bytes 4 n)"

definition mp_str_blocks :: "byte list \<Rightarrow> byte list list" where
  "mp_str_blocks s = (let n = length s in
     [if n < 32 then [0xa0 + word_of_nat n]
      else if n < 256 then 0xd9 # be_bytes 1 n
      else if n < 65536 then 0xda # be_bytes 2 n else 0xdb # be_bytes 4 n, s])"

definition ref_cmp :: cmp_lib where
  "ref_cmp = \<lparr>cmp_str = mp_str_blocks,
     cmp_bool = (\<lambda>b. [[if b then 0xc3 else 0xc2]]),
     cmp_uint = (\<lambda>n. [mp_uint_bytes n]),
     cmp_int = (\<lambda>n. [mp_int_bytes n]),
     cmp_array = (\<lambda>n. [mp_header 16 0x90 0xdc 0xdd n]),
     cmp_map = (\<lambda>n. [mp_header 16 0x80 0xde 0xdf n])\<rparr>"

lemma ref_cmp_int_agrees: "cmp_int_agrees ref_cmp"
  by (simp add: cmp_int_agrees_def ref_cmp_def mp_int_bytes_def)

lemma mp_uint_size: "length (mp_uint_bytes n) \<le> int_size (uint n)"
proof -
  have "uint n < 4294967296 \<longleftrightarrow> unat n < 4294967296" by (simp only: unat_eq_nat_uint nat_less_iff [OF uint_ge_0]) simp
  then show ?thesis by (simp add: mp_uint_bytes_def int_size_def Let_def)
qed

lemma mp_uint_size_9: "length (mp_uint_bytes n) \<le> 9"
  by (simp add: mp_uint_bytes_def Let_def)

lemma ref_cmp_sizes: "cmp_sizes ref_cmp"
proof -
  have "length (mp_int_bytes n) \<le> 9" for n
    using mp_uint_size_9 [of n] by (simp add: mp_int_bytes_def Let_def)
  then show ?thesis
    using mp_uint_size
    by (simp add: cmp_sizes_def ref_cmp_def mp_str_blocks_def mp_header_def str_size_def container_size_def Let_def)
qed

section \<open>Decimal and fixed-point text\<close>

fun digits :: "nat \<Rightarrow> nat \<Rightarrow> string" where
  "digits 0 n = []"
| "digits (Suc k) n = digits k (n div 10) @ [dec_digit (n mod 10)]"

text \<open>The trailing zeros of the fraction are removed, and the point with them when nothing is left.\<close>

definition fraction :: "nat \<Rightarrow> nat \<Rightarrow> string" where
  "fraction k n = rev (dropWhile (\<lambda>c. c = CHR ''0'') (rev (digits k n)))"

definition fixed_point :: "nat \<Rightarrow> nat \<Rightarrow> string" where
  "fixed_point k n = (let f = fraction k (n mod 10 ^ k) in
     dec_of_nat (n div 10 ^ k) @ (if f = [] then [] else CHR ''.'' # f))"

definition ref_bytes :: byte_lib where
  "ref_bytes = \<lparr>read_u16_be = (\<lambda>bs. word_of_nat (be_value (take 2 bs))),
     write_u64_be = (\<lambda>n. be_bytes 8 (unat n)),
     format_u64 = (\<lambda>sz n. dec_of_nat (unat n)),
     format_fpu64_trimmed = (\<lambda>sz n k. fixed_point k (unat n))\<rparr>"

lemma dec_digit_dot: "d < 10 \<Longrightarrow> dec_digit d \<noteq> CHR ''.''"
proof -
  assume "d < 10"
  then have "dec_digit d \<in> set ''0123456789''" unfolding dec_digit_def by (intro nth_mem) simp
  then show ?thesis by auto
qed

lemma length_digits [simp]: "length (digits k n) = k"
  by (induction k n rule: digits.induct) simp_all

lemma digits_inject: "m < 10 ^ k \<Longrightarrow> n < 10 ^ k \<Longrightarrow> digits k m = digits k n \<Longrightarrow> m = n"
proof (induction k arbitrary: m n)
  case (Suc k)
  have "m div 10 < 10 ^ k" "n div 10 < 10 ^ k"
    using Suc.prems(1,2) by (simp_all add: less_mult_imp_div_less mult.commute)
  moreover have "digits k (m div 10) = digits k (n div 10)" "m mod 10 = n mod 10"
    using Suc.prems(3) by (simp_all add: dec_digit_inject)
  ultimately have "m div 10 = n div 10" "m mod 10 = n mod 10" using Suc.IH by blast+
  then show ?case by (metis div_mod_decomp)
qed simp

lemma dec_of_nat_dot: "CHR ''.'' \<notin> set (dec_of_nat n)"
proof (induction n rule: dec_of_nat.induct)
  case (1 n)
  then show ?case by (subst dec_of_nat.simps) (auto simp: dec_digit_dot [symmetric])
qed

lemma u64_less: "unat (n :: u64) < 10 ^ 20"
  using unsigned_less [of n, where 'a = nat] by simp

text \<open>The digits come back from the fraction by padding it with zeros.\<close>

lemma fraction_digits: "\<exists>j. digits k n = fraction k n @ replicate j CHR ''0''"
proof -
  let ?d = "rev (digits k n)"
  have "takeWhile (\<lambda>c. c = CHR ''0'') ?d = replicate (length (takeWhile (\<lambda>c. c = CHR ''0'') ?d)) CHR ''0''"
    by (rule replicate_eqI) (auto dest: set_takeWhileD)
  moreover have "rev ?d = rev (dropWhile (\<lambda>c. c = CHR ''0'') ?d) @ rev (takeWhile (\<lambda>c. c = CHR ''0'') ?d)"
    by (metis rev_append takeWhile_dropWhile_id)
  ultimately show ?thesis by (metis fraction_def rev_replicate rev_rev_ident)
qed

lemma fraction_inject:
  assumes "fraction k m = fraction k n" "m < 10 ^ k" "n < 10 ^ k"
  shows "m = n"
proof -
  obtain i j where d: "digits k m = fraction k m @ replicate i CHR ''0''" "digits k n = fraction k n @ replicate j CHR ''0''"
    using fraction_digits by metis
  have "k = length (fraction k m) + i" "k = length (fraction k n) + j"
    using arg_cong [OF d(1), of length] arg_cong [OF d(2), of length] by simp_all
  then have "digits k m = digits k n" using d assms(1) by simp
  with assms(2,3) show ?thesis by (rule digits_inject)
qed

lemma fraction_length: "length (fraction k n) \<le> k"
  using length_dropWhile_le [of _ "rev (digits k n)"] by (simp add: fraction_def)

lemma split_at_dot:
  assumes "as @ (if f = [] then [] else CHR ''.'' # f) = bs @ (if g = [] then [] else CHR ''.'' # g)"
    "CHR ''.'' \<notin> set as" "CHR ''.'' \<notin> set bs"
  shows "as = bs \<and> f = g"
proof -
  have t: "takeWhile (\<lambda>c. c \<noteq> CHR ''.'') (xs @ (if h = [] then [] else CHR ''.'' # h)) = xs"
    if "CHR ''.'' \<notin> set xs" for xs h
    using that by (subst takeWhile_append2) auto
  from t [OF assms(2), of f] t [OF assms(3), of g] have "as = bs" using assms(1) by metis
  then show ?thesis using assms(1) by (auto split: if_splits)
qed

lemma fixed_point_inject:
  assumes "fixed_point k m = fixed_point k n"
  shows "m = n"
proof -
  from assms have "dec_of_nat (m div 10 ^ k) = dec_of_nat (n div 10 ^ k) \<and>
    fraction k (m mod 10 ^ k) = fraction k (n mod 10 ^ k)"
    unfolding fixed_point_def Let_def by (rule split_at_dot) (simp_all add: dec_of_nat_dot)
  then have "m div 10 ^ k = n div 10 ^ k" "m mod 10 ^ k = n mod 10 ^ k"
    by (auto simp: dec_of_nat_inject intro: fraction_inject)
  then show ?thesis by (metis div_mod_decomp)
qed

lemma fixed_point_length:
  assumes "n < 2 ^ 64"
  shows "length (fixed_point 6 n) \<le> 21"
proof -
  have "n div 10 ^ 6 < 10 ^ 14" using assms by simp
  then have "length (dec_of_nat (n div 10 ^ 6)) \<le> 14" by (intro dec_of_nat_length) simp_all
  with fraction_length [of 6 "n mod 10 ^ 6"] show ?thesis by (simp add: fixed_point_def Let_def)
qed

lemma be_value_be_bytes: "be_bytes (length bs) (be_value bs) = bs"
proof (induction bs rule: rev_induct)
  case (snoc b bs)
  have "be_value (bs @ [b]) = be_value bs * 256 + unat b" by (simp add: be_value_def)
  moreover have "unat b < 256" using unsigned_less [of b, where 'a = nat] by simp
  ultimately show ?case using snoc by simp
qed (simp add: be_value_def)

lemma ref_bytes_ok: "bytes_ok ref_bytes"
proof -
  have "be_bytes 2 (unat (word_of_nat (be_value (take 2 bs)) :: u16)) = take 2 bs" if "2 \<le> length bs" for bs
  proof -
    have "be_value (take 2 bs) < 65536" using be_value_less [of "take 2 bs"] that by simp
    then have "unat (word_of_nat (be_value (take 2 bs)) :: u16) = be_value (take 2 bs)"
      by (simp add: unat_of_nat take_bit_eq_mod)
    then show ?thesis using be_value_be_bytes [of "take 2 bs"] that by (simp del: be_bytes.simps)
  qed
  moreover have "length (dec_of_nat (unat n)) \<le> 20" for n :: u64
    by (rule dec_of_nat_length [OF _ u64_less]) simp
  moreover have "length (fixed_point 6 (unat n)) \<le> 21" for n :: u64
    using fixed_point_length unsigned_less [of n, where 'a = nat] by simp
  moreover have "m = n" if "fixed_point 6 (unat m) = fixed_point 6 (unat n)" for m n :: u64
    using fixed_point_inject [OF that] by (rule word_unat_eq_iff [THEN iffD2])
  ultimately show ?thesis
    by (simp add: bytes_ok_def ref_bytes_def dec_of_nat_inject word_unat_eq_iff del: be_bytes.simps)
qed

section \<open>Cryptography\<close>

text \<open>
  A stand-in: a digest is the first bytes of the data, padded with a tag. A certificate signature is
  accepted when it starts with the digest.
\<close>

definition toy_digest :: "byte \<Rightarrow> byte list \<Rightarrow> byte list" where
  "toy_digest tag d = take 32 (d @ replicate 32 tag)"

definition ref_keccak :: "byte list \<Rightarrow> byte list" where
  "ref_keccak = toy_digest 0x4b"

definition ref_sha256 :: "byte list \<Rightarrow> byte list" where
  "ref_sha256 = toy_digest 0x53"

definition path_bytes :: "u32 list \<Rightarrow> byte list" where
  "path_bytes p = concat (map (\<lambda>i. be_bytes 4 (unat i)) p)"

definition ref_cx :: "(hash_kind \<times> byte list) cx_lib" where
  "ref_cx = \<lparr>cx_keccak_init = Some (Keccak, []),
     cx_sha256_init = Some (Sha256, []),
     cx_hash_update = (\<lambda>h d. Some (fst h, snd h @ d)),
     cx_hash_final = (\<lambda>h. Some (case h of (Keccak, d) \<Rightarrow> ref_keccak d | (Sha256, d) \<Rightarrow> ref_sha256 d)),
     cx_keccak_256_hash = (\<lambda>d. Some (ref_keccak d)),
     bip32_derive_pubkey = (\<lambda>p. Some (0x04 # toy_digest 1 (path_bytes p) @ toy_digest 2 (path_bytes p))),
     bip32_ecdsa_sign = (\<lambda>p m. Some (toy_digest 3 m, toy_digest 4 (path_bytes p @ m), 1)),
     cx_parity_odd = 1, cx_xGTn = 2,
     check_signature_with_pki = (\<lambda>h usage s. usage = 0x11 \<and> take 32 s = h)\<rparr>"

lemma length_toy_digest [simp]: "length (toy_digest t d) = 32"
  by (simp add: toy_digest_def)

lemma ref_cx_hashes: "cx_hashes ref_cx ref_keccak ref_sha256"
  unfolding cx_hashes_def
  by (rule exI [of _ id]) (auto simp: absorbs_def ref_cx_def split: prod.splits)

lemma ref_cx_sizes: "cx_sizes ref_cx"
  by (auto simp: cx_sizes_def ref_cx_def ref_keccak_def ref_sha256_def split: prod.splits hash_kind.splits)

lemma ref_cx_delivers: "cx_delivers ref_cx"
  by (simp add: cx_delivers_def ref_cx_def)

section \<open>The platform\<close>

fun read_path :: "nat \<Rightarrow> byte list \<Rightarrow> u32 list option" where
  "read_path 0 bs = Some []"
| "read_path (Suc n) bs =
     (if length bs < 4 then None
      else map_option ((#) (word_of_nat (be_value (take 4 bs)))) (read_path n (drop 4 bs)))"

fun plain_apdu :: "byte list \<Rightarrow> command_t option" where
  "plain_apdu [cla, ins, p1, p2] = Some \<lparr>cmd_cla = cla, cmd_ins = ins, cmd_p1 = p1, cmd_p2 = p2, cmd_data = None\<rparr>"
| "plain_apdu (cla # ins # p1 # p2 # lc # d) =
     (if unat lc \<noteq> length d then None
      else Some \<lparr>cmd_cla = cla, cmd_ins = ins, cmd_p1 = p1, cmd_p2 = p2,
                cmd_data = (if d = [] then None else Some d)\<rparr>)"
| "plain_apdu raw = None"

definition ref_platform :: "(hash_kind \<times> byte list) platform" where
  "ref_platform = \<lparr>pf_tlv = der_tlv, pf_cmp = ref_cmp, pf_bytes = ref_bytes, pf_cx = ref_cx,
     pf_wallet_screen = True, pf_max_path = 10,
     bip32_path_read = (\<lambda>bs n. if 0 < n \<and> n \<le> 10 then read_path n bs else None),
     apdu_parser = plain_apdu, io_ret = (\<lambda>rs r. 0)\<rparr>"

lemma read_path_length: "read_path n bs = Some p \<Longrightarrow> length p = n"
  by (induction n bs arbitrary: p rule: read_path.induct) (auto split: if_splits)

lemma ref_platform_ok: "platform_ok ref_platform"
  using der_tlv_ok ref_cmp_int_agrees ref_bytes_ok ref_cx_sizes ref_cx_hashes
  by (auto simp: platform_ok_def ref_platform_def read_path_length split: if_splits)

lemma ref_platform_delivers: "delivers ref_platform"
  by (simp add: delivers_def ref_platform_def ref_cx_delivers ref_cmp_sizes)

lemma ref_platform_hashes: "cx_hashes (pf_cx ref_platform) ref_keccak ref_sha256"
  by (simp add: ref_platform_def ref_cx_hashes)

end
