(* ===== verification/Action_Value.thy ===== *)
theory Action_Value
  imports Client_Encoding
begin

text \<open>
  The value that an action is serialized to determines the action: two different actions that a client
  can ask for never have the same MessagePack value. With the equality of the written bytes and that
  value (\<open>Action\<close>), nothing of an action escapes the hash that is signed.
\<close>

lemma tif_str_inject [simp]: "tif_str a = tif_str b \<longleftrightarrow> a = b"
  by (cases a; cases b) simp_all

lemma tpsl_str_inject [simp]: "tpsl_str a = tpsl_str b \<longleftrightarrow> a = b"
  by (cases a; cases b) simp_all

lemma grouping_str_inject [simp]: "grouping_str a = grouping_str b \<longleftrightarrow> a = b"
  by (cases a; cases b) simp_all

lemmas order_value_defs = order_request_mp_def order_body_entry_def limit_entry_def trigger_entry_def

lemma order_value_inject:
  assumes "order_canonical r" "order_canonical r'" "order_request_mp r = order_request_mp r'"
  shows "r = r'"
proof -
  from assms(3) have c: "or_has_cloid r = or_has_cloid r'"
    by (cases "or_has_cloid r"; cases "or_has_cloid r'") (simp_all add: order_request_mp_def)
  have t: "or_order_type r = or_order_type r'"
    using assms(3) by (cases "or_order_type r"; cases "or_order_type r'") (simp_all add: order_value_defs)
  show ?thesis
    using assms c t
    by (cases "or_order_type r'")
      (auto simp: order_value_defs order_canonical_def word_uint_eq_iff [symmetric]
        intro!: s_order_request.equality s_limit.equality s_trigger.equality split: if_splits)
qed

lemma modify_value_inject:
  assumes "order_canonical (mr_order m)" "order_canonical (mr_order m')" "modify_request_mp m = modify_request_mp m'"
  shows "m = m'"
  using assms order_value_inject [OF assms(1,2)]
  by (auto simp: modify_request_mp_def word_uint_eq_iff [symmetric] intro!: s_modify_request.equality)

lemma cancel_value_inject: "cancel_request_mp r = cancel_request_mp r' \<Longrightarrow> r = r'"
  by (auto simp: cancel_request_mp_def word_uint_eq_iff [symmetric] intro!: s_cancel_request.equality)

lemma values_inject:
  assumes "\<And>x y. P x \<Longrightarrow> P y \<Longrightarrow> f x = f y \<Longrightarrow> x = y"
  shows "list_all P xs \<Longrightarrow> list_all P ys \<Longrightarrow> map f xs = map f ys \<Longrightarrow> xs = ys"
proof (induction xs arbitrary: ys)
  case (Cons x xs)
  then show ?case using assms by (cases ys) auto
qed simp

text \<open>A list of at most five requests is determined by its used part.\<close>

lemma padded_count:
  assumes "xs = padded z (take n xs)" "ys = padded z (take m ys)" "take n xs = take m ys"
    and "n \<le> length xs" "m \<le> length ys"
  shows "xs = ys" "n = m"
proof -
  show "xs = ys" using assms(1,2,3) by metis
  have "length (take n xs) = length (take m ys)" using assms(3) by simp
  then show "n = m" using assms(4,5) by simp
qed

lemma builder_value_inject:
  assumes "length (bi_builder b) = ADDRESS_LENGTH" "length (bi_builder b') = ADDRESS_LENGTH"
    and "builder_entry b = builder_entry b'"
  shows "b = b'"
  using assms
  by (auto simp: builder_entry_def builder_addr_str_def bytes_to_lowercase_hex_def ADDRESS_LENGTH_def
      hex_of_bytes_inject word_uint_eq_iff [symmetric] intro!: s_builder_info.equality)

lemma bulk_order_value_inject:
  assumes wf: "bulk_order_wf md b" "bulk_order_wf md' b'" and canon: "bulk_order_canonical b" "bulk_order_canonical b'"
    and eq: "bulk_order_mp b = bulk_order_mp b'"
  shows "b = b'"
proof -
  let ?xs = "take (bo_order_count b) (bo_orders b)" and ?ys = "take (bo_order_count b') (bo_orders b')"
  have h: "bo_has_builder b = bo_has_builder b'"
    using eq by (cases "bo_has_builder b"; cases "bo_has_builder b'") (simp_all add: bulk_order_mp_def)
  have vals: "map order_request_mp ?xs = map order_request_mp ?ys" and g: "bo_grouping b = bo_grouping b'"
    and e: "bo_has_builder b \<Longrightarrow> builder_entry (bo_builder b) = builder_entry (bo_builder b')"
    using eq h by (auto simp: bulk_order_mp_def)
  have "?xs = ?ys"
    using vals canon by (intro values_inject [where P = order_canonical, OF order_value_inject]) (auto simp: bulk_order_canonical_def)
  from padded_count [OF _ _ this] canon wf have "bo_orders b = bo_orders b'" "bo_order_count b = bo_order_count b'"
    by (auto simp: bulk_order_canonical_def bulk_order_wf_def)
  moreover have "bo_builder b = bo_builder b'"
    using e h canon wf builder_value_inject by (cases "bo_has_builder b") (auto simp: bulk_order_canonical_def bulk_order_wf_def)
  ultimately show ?thesis using g h by (intro s_bulk_order.equality) simp_all
qed

lemma bulk_modify_value_inject:
  assumes wf: "bulk_modify_wf md b" "bulk_modify_wf md' b'" and canon: "bulk_modify_canonical b" "bulk_modify_canonical b'"
    and eq: "bulk_modify_mp b = bulk_modify_mp b'"
  shows "b = b'"
proof -
  have "take (bm_modify_count b) (bm_modifies b) = take (bm_modify_count b') (bm_modifies b')"
    using eq canon by (intro values_inject [where P = "\<lambda>m. order_canonical (mr_order m)", OF modify_value_inject])
      (auto simp: bulk_modify_canonical_def bulk_modify_mp_def)
  from padded_count [OF _ _ this] canon wf show ?thesis
    by (intro s_bulk_modify.equality) (auto simp: bulk_modify_canonical_def bulk_modify_wf_def)
qed

lemma bulk_cancel_value_inject:
  assumes wf: "bulk_cancel_wf md b" "bulk_cancel_wf md' b'" and canon: "bulk_cancel_canonical b" "bulk_cancel_canonical b'"
    and eq: "bulk_cancel_mp b = bulk_cancel_mp b'"
  shows "b = b'"
proof -
  have "take (bc_cancel_count b) (bc_cancels b) = take (bc_cancel_count b') (bc_cancels b')"
    using eq by (intro values_inject [where P = "\<lambda>_. True", OF cancel_value_inject]) (auto simp: bulk_cancel_mp_def list_all_iff)
  from padded_count [OF _ _ this] canon wf show ?thesis
    by (intro s_bulk_cancel.equality) (auto simp: bulk_cancel_canonical_def bulk_cancel_wf_def)
qed

lemma update_value_inject:
  "update_leverage_mp u = update_leverage_mp u' \<Longrightarrow> u = u'"
  "update_isolated_margin_mp v = update_isolated_margin_mp v' \<Longrightarrow> v = v'"
  by (auto simp: update_leverage_mp_def update_isolated_margin_mp_def word_uint_eq_iff [symmetric] word_eq_iff_signed [symmetric]
      intro!: s_update_leverage.equality s_update_isolated_margin.equality)

text \<open>The \<open>type\<close> entry tells the kinds of action apart.\<close>

lemmas action_value_defs = bulk_order_mp_def bulk_modify_mp_def bulk_cancel_mp_def update_leverage_mp_def
  update_isolated_margin_mp_def

lemma action_value_type:
  "l1_action a \<Longrightarrow> l1_action a' \<Longrightarrow> action_mp a = action_mp a' \<Longrightarrow> act_type a = act_type a'"
  by (cases "act_type a"; cases "act_type a'") (simp_all add: action_mp_def l1_action_def action_value_defs)

lemma action_value_inject:
  assumes l1: "l1_action a" "l1_action a'" and wf: "action_wf md a" "action_wf md' a'"
    and canon: "action_canonical a" "action_canonical a'"
    and eq: "action_mp a = action_mp a'" "act_nonce a = act_nonce a'"
  shows "a = a'"
proof -
  note t = action_value_type [OF l1 eq(1)]
  have "payload_only a = payload_only a'"
  proof (cases "act_type a'")
    case ACTION_TYPE_BULK_ORDER
    with t wf canon eq(1) have "act_bulk_order a = act_bulk_order a'"
      by (intro bulk_order_value_inject [of md _ md']) (simp_all add: action_mp_def action_wf_def action_canonical_def)
    with ACTION_TYPE_BULK_ORDER t eq(2) show ?thesis by (simp add: payload_only_def)
  next
    case ACTION_TYPE_BULK_MODIFY
    with t wf canon eq(1) have "act_bulk_modify a = act_bulk_modify a'"
      by (intro bulk_modify_value_inject [of md _ md']) (simp_all add: action_mp_def action_wf_def action_canonical_def)
    with ACTION_TYPE_BULK_MODIFY t eq(2) show ?thesis by (simp add: payload_only_def)
  next
    case ACTION_TYPE_BULK_CANCEL
    with t wf canon eq(1) have "act_bulk_cancel a = act_bulk_cancel a'"
      by (intro bulk_cancel_value_inject [of md _ md']) (simp_all add: action_mp_def action_wf_def action_canonical_def)
    with ACTION_TYPE_BULK_CANCEL t eq(2) show ?thesis by (simp add: payload_only_def)
  next
    case ACTION_TYPE_UPDATE_LEVERAGE
    with t eq(1) have "act_update_leverage a = act_update_leverage a'"
      by (intro update_value_inject(1)) (simp add: action_mp_def)
    with ACTION_TYPE_UPDATE_LEVERAGE t eq(2) show ?thesis by (simp add: payload_only_def)
  next
    case ACTION_TYPE_UPDATE_ISOLATED_MARGIN
    with t eq(1) have "act_update_isolated_margin a = act_update_isolated_margin a'"
      by (intro update_value_inject(2)) (simp add: action_mp_def)
    with ACTION_TYPE_UPDATE_ISOLATED_MARGIN t eq(2) show ?thesis by (simp add: payload_only_def)
  qed (use l1(2) in \<open>simp_all add: l1_action_def\<close>)
  with canon show ?thesis by (simp add: action_canonical_def)
qed

end
