(* ===== verification/Example_Session.thy ===== *)
theory Example_Session
  imports Signing_Flow Ui_Complete Test_Support Client_Run Reference_Platform Device_Protocol Action_Value App_Main
begin

text \<open>
  Two sessions on the platform of \<open>Reference_Platform\<close>, with the commands a client sends for them: the
  cancellation of one order, and the change of a leverage followed by a limit order. They meet the
  hypotheses of the theorems on runs and on client sessions.
\<close>

section \<open>Commands\<close>

definition apdu :: "u8 \<Rightarrow> u8 \<Rightarrow> byte list \<Rightarrow> byte list" where
  "apdu ins p1 d = [CLA, ins, p1, 0, word_of_nat (length d)] @ d"

definition one_chunk :: "f_payload_handler \<Rightarrow> byte list \<Rightarrow> byte list" where
  "one_chunk h p = apdu (handler_ins h) P1_FIRST (be_bytes 2 (length p) @ p)"

lemma tlv_fields_nonempty: "0 < length (tlv_fields (f # fs))"
  using field_bytes_length [of f] by (simp add: tlv_fields_concat)

lemma plain_apdu_apdu:
  "0 < length d \<Longrightarrow> length d \<le> 255 \<Longrightarrow> plain_apdu (apdu ins p1 d) =
     Some \<lparr>cmd_cla = CLA, cmd_ins = ins, cmd_p1 = p1, cmd_p2 = 0, cmd_data = Some d\<rparr>"
  by (simp add: apdu_def unat_of_nat take_bit_eq_mod)

lemma one_chunk_commands:
  assumes "0 < length p" "length p \<le> 253"
  shows "payload_commands ref_platform h [one_chunk h p] p"
proof -
  have "chunk_command ref_platform h True (one_chunk h p) (be_bytes 2 (length p) @ p)"
    using assms plain_apdu_apdu [of "be_bytes 2 (length p) @ p" "handler_ins h" P1_FIRST]
    by (simp add: chunk_command_def one_chunk_def ref_platform_def del: be_bytes.simps)
  then show ?thesis
    using assms unfolding payload_commands_def
    by (intro conjI exI [of _ "one_chunk h p"] exI [of _ "[]"] exI [of _ p] exI [of _ "[]"])
       (simp_all add: PAYLOAD_BUFFER_SIZE_def)
qed

text \<open>The path \<open>44'\<close>, as one element.\<close>

definition sign_data :: "byte list" where
  "sign_data = [1, 0x80, 0, 0, 0x2c]"

definition sign_apdu :: "byte list" where
  "sign_apdu = apdu SIGN_ACTION 0 sign_data"

lemma sign_apdu_command: "sign_command ref_platform sign_apdu sign_data [0x8000002c]"
proof -
  have "plain_apdu sign_apdu = Some \<lparr>cmd_cla = CLA, cmd_ins = SIGN_ACTION, cmd_p1 = 0, cmd_p2 = 0, cmd_data = Some sign_data\<rparr>"
    unfolding sign_apdu_def by (rule plain_apdu_apdu) (simp_all add: sign_data_def)
  moreover have "read_path 1 (drop 1 sign_data) = Some [0x8000002c]"
    by (simp add: sign_data_def be_value_def)
  ultimately show ?thesis by (simp add: sign_command_def ref_platform_def sign_data_def)
qed

section \<open>Metadata\<close>

definition btc_metadata :: "e_operation_type \<Rightarrow> s_action_metadata" where
  "btc_metadata op = s_action_metadata_0\<lparr>md_op_type := op, md_asset_ticker := ''BTC'', md_network := NETWORK_TESTNET\<rparr>"

definition ref_signature :: "s_action_metadata \<Rightarrow> byte list" where
  "ref_signature m = ref_sha256 (tlv_fields (metadata_fields m)) @ replicate 38 0"

lemma ref_metadata_signature: "metadata_signature ref_cx ref_sha256 m (ref_signature m)"
  by (simp add: metadata_signature_def ref_signature_def ref_cx_def ref_sha256_def CERTIFICATE_PUBLIC_KEY_USAGE_PERPS_DATA_def)

lemma btc_metadata_ok:
  "op \<noteq> OP_TYPE_UPDATE_LEVERAGE \<Longrightarrow> metadata_wf (btc_metadata op) \<and> metadata_canonical (btc_metadata op)"
  by (simp add: metadata_wf_def metadata_canonical_def btc_metadata_def s_action_metadata_0_def cstr_fits_def)

lemma btc_metadata_commands:
  "payload_commands ref_platform PARSE_ACTION_METADATA
     [one_chunk PARSE_ACTION_METADATA (metadata_payload (btc_metadata op) (ref_signature (btc_metadata op)))]
     (metadata_payload (btc_metadata op) (ref_signature (btc_metadata op)))"
proof (rule one_chunk_commands)
  let ?fs = "metadata_fields (btc_metadata op) @ [(0x15, ref_signature (btc_metadata op))]"
  show "0 < length (metadata_payload (btc_metadata op) (ref_signature (btc_metadata op)))"
    unfolding metadata_payload_def metadata_fields_def append_Cons by (rule tlv_fields_nonempty)
  have "sum_list (map (\<lambda>f. 8 + length (snd f)) ?fs) \<le> 253"
    using encode_int_be_le [of 0] encode_int_be_le [of 1] encode_int_be_le [of "ucast METADATA_STRUCT_TYPE"]
      encode_int_be_le [of "ucast (op_type_code op)"]
    by (simp add: metadata_fields_def btc_metadata_def s_action_metadata_0_def ref_signature_def ref_sha256_def)
  with tlv_fields_bound [of ?fs] show "length (metadata_payload (btc_metadata op) (ref_signature (btc_metadata op))) \<le> 253"
    by (simp add: metadata_payload_def)
qed

section \<open>A cancellation\<close>

definition cancel_action :: s_action where
  "cancel_action = s_action_0\<lparr>act_type := ACTION_TYPE_BULK_CANCEL, act_nonce := 5,
     act_bulk_cancel := \<lparr>bc_cancel_count = 1, bc_cancels = padded s_cancel_request_0 [\<lparr>cr_asset = 0, cr_oid = 7\<rparr>]\<rparr>\<rparr>"

lemma cancel_request_ok: "session_request (btc_metadata OP_TYPE_CANCEL) [cancel_action]"
  using btc_metadata_ok [of OP_TYPE_CANCEL]
  by (simp add: session_request_def session_compatible_def allowed_types_def)
     (simp add: cancel_action_def action_wf_def action_canonical_def bulk_cancel_wf_def bulk_cancel_canonical_def
       cancel_wf_md_def btc_metadata_def s_action_metadata_0_def payload_only_def padded_def Let_def)

lemma cancel_commands:
  "payload_commands ref_platform PARSE_ACTION [one_chunk PARSE_ACTION (action_payload cancel_action)] (action_payload cancel_action)"
proof (rule one_chunk_commands)
  show "0 < length (action_payload cancel_action)"
    unfolding action_payload_def by (rule tlv_fields_nonempty)
  have "length (action_body cancel_action) \<le> 40"
    using fields_bound_bulk [of cancel_payload 32 "[\<lparr>cr_asset = 0, cr_oid = 7\<rparr>]" "0xd9 :: u32"] cancel_payload_bound
      tlv_fields_bound [of "[(0xd9 :: u32, cancel_payload \<lparr>cr_asset = 0, cr_oid = 7\<rparr>)]"]
    by (simp add: action_body_def cancel_action_def bulk_cancel_payload_def padded_def)
      (rule order_trans, assumption, simp add: cancel_payload_bound)
  then show "length (action_payload cancel_action) \<le> 253"
    unfolding action_payload_def
    using encode_int_be_le [of "ucast ACTION_STRUCT_TYPE"] encode_int_be_le [of 1]
      encode_int_be_le [of "ucast (action_type_code (act_type cancel_action))"] encode_int_be_le [of "act_nonce cancel_action"]
    by (intro order_trans [OF tlv_fields_bound]) simp
qed

lemma session_ctx_lookup:
  "length as \<le> 10 \<Longrightarrow> distinct (map act_type as) \<Longrightarrow>
   ctx_get_action t (session_ctx md as) = find (\<lambda>a. t = act_type a) as"
  using ctx.lookup_law [OF session_ctx_inv] by (simp add: ctx_session_def session_ctx_queue)

definition cancel_screen :: s_ui_ctx where
  "cancel_screen = \<lparr>ui_pairs = [(''Protocol'', ''Hyperliquid''), (''Network'', ''Testnet''),
        (''Operation'', ''Cancel order - BTC''), (''Order ID'', ''7'')],
     ui_intent = ''Cancel BTC order'', ui_review_msg = ''Review message to Cancel BTC order'',
     ui_sign_msg = ''Sign message to Cancel BTC order?''\<rparr>"

lemma cancel_ui:
  "handle_ui True ref_bytes (session_ctx (btc_metadata OP_TYPE_CANCEL) [cancel_action]) (Some (btc_metadata OP_TYPE_CANCEL)) =
   Inr cancel_screen"
proof -
  let ?g = "session_ctx (btc_metadata OP_TYPE_CANCEL) [cancel_action]"
  have a: "ctx_get_action ACTION_TYPE_BULK_CANCEL ?g = Some cancel_action"
    by (simp add: session_ctx_lookup) (simp add: cancel_action_def)
  show ?thesis
    unfolding handle_ui_def by (simp add: btc_metadata_def s_action_metadata_0_def show_pair_def s_ui_ctx_0_def ui_cancel_def
        a [unfolded btc_metadata_def s_action_metadata_0_def, simplified] show_metadata_margin_def show_metadata_leverage_def)
      (simp add: cancel_action_def show_cancel_oids_def show_pair_def padded_def oid_text_def ref_bytes_def dec_of_nat.simps
        dec_digit_def prepare_review_sign_msgs_def cancel_screen_def APPNAME_def cancel_operation_size_def snprintf_def)
qed

section \<open>A leverage and an order\<close>

definition leverage_action :: s_action where
  "leverage_action = s_action_0\<lparr>act_type := ACTION_TYPE_UPDATE_LEVERAGE, act_nonce := 5,
     act_update_leverage := \<lparr>ul_asset = 0, ul_is_cross = False, ul_leverage = 5\<rparr>\<rparr>"

definition limit_order :: s_order_request where
  "limit_order = s_order_request_0\<lparr>or_is_buy := True, or_limit_px := ''30000'', or_sz := ''0.5'',
     or_limit := \<lparr>tif = TIF_GTC\<rparr>\<rparr>"

definition order_action :: s_action where
  "order_action = s_action_0\<lparr>act_nonce := 6,
     act_bulk_order := s_bulk_order_0\<lparr>bo_order_count := 1, bo_orders := padded s_order_request_0 [limit_order]\<rparr>\<rparr>"

lemma limit_order_wf: "order_wf 0 limit_order" "order_canonical limit_order"
  by (simp_all add: limit_order_def order_wf_def order_canonical_def s_order_request_0_def num_str_def cstr_fits_def)

lemma order_request_ok: "session_request (btc_metadata OP_TYPE_ORDER) [leverage_action, order_action]"
proof -
  have "md_asset_id (btc_metadata OP_TYPE_ORDER) = 0" by (simp add: btc_metadata_def s_action_metadata_0_def)
  then have "action_wf (Some (btc_metadata OP_TYPE_ORDER)) leverage_action" "action_canonical leverage_action"
    "action_wf (Some (btc_metadata OP_TYPE_ORDER)) order_action" "action_canonical order_action"
    using limit_order_wf
    by (simp_all add: leverage_action_def order_action_def action_wf_def action_canonical_def leverage_wf_md_def
        bulk_order_wf_def bulk_order_canonical_def order_wf_md_def payload_only_def padded_def Let_def s_action_0_def
        s_bulk_order_0_def s_builder_info_0_def)
  moreover have "act_type leverage_action = ACTION_TYPE_UPDATE_LEVERAGE" "act_type order_action = ACTION_TYPE_BULK_ORDER"
    "md_op_type (btc_metadata OP_TYPE_ORDER) = OP_TYPE_ORDER"
    by (simp_all add: leverage_action_def order_action_def s_action_0_def btc_metadata_def)
  ultimately show ?thesis
    using btc_metadata_ok [of OP_TYPE_ORDER]
    by (simp add: session_request_def session_compatible_def allowed_types_def)
qed

lemma action_payload_length: "length (action_body a) \<le> 181 \<Longrightarrow> length (action_payload a) \<le> 253"
  unfolding action_payload_def
  using encode_int_be_le [of "ucast ACTION_STRUCT_TYPE"] encode_int_be_le [of 1]
    encode_int_be_le [of "ucast (action_type_code (act_type a))"] encode_int_be_le [of "act_nonce a"]
  by (intro order_trans [OF tlv_fields_bound]) simp

lemma action_commands:
  "length (action_body a) \<le> 181 \<Longrightarrow>
   payload_commands ref_platform PARSE_ACTION [one_chunk PARSE_ACTION (action_payload a)] (action_payload a)"
  by (intro one_chunk_commands action_payload_length) (simp_all add: action_payload_def tlv_fields_nonempty del: length_greater_0_conv)

lemma leverage_commands:
  "payload_commands ref_platform PARSE_ACTION [one_chunk PARSE_ACTION (action_payload leverage_action)] (action_payload leverage_action)"
proof (rule action_commands)
  let ?u = "act_update_leverage leverage_action"
  have "length (leverage_payload ?u) \<le> 181"
    unfolding leverage_payload_def
    using encode_int_be_le [of "ucast (ul_asset ?u)"] encode_int_be_le [of "ucast (ul_leverage ?u)"]
    by (intro order_trans [OF tlv_fields_bound]) simp
  then show "length (action_body leverage_action) \<le> 181" by (simp add: action_body_def leverage_action_def)
qed

lemma order_commands:
  "payload_commands ref_platform PARSE_ACTION [one_chunk PARSE_ACTION (action_payload order_action)] (action_payload order_action)"
proof (rule action_commands)
  have "length (order_payload limit_order) \<le> 142"
    unfolding order_payload_def
    using encode_int_be_le [of "ucast (order_type_code (or_order_type limit_order))"]
      encode_int_be_le [of "ucast (or_asset limit_order)"] body_payload_bound [OF limit_order_wf(1)]
    by (intro order_trans [OF tlv_fields_bound]) (simp add: order_fields_def, simp add: limit_order_def s_order_request_0_def)
  then have "length (bulk_order_payload (act_bulk_order order_action)) \<le> 181"
    unfolding bulk_order_payload_def
    using encode_int_be_le [of "ucast (grouping_code GROUPING_NA)"]
    by (intro order_trans [OF tlv_fields_bound]) (simp add: order_action_def padded_def s_bulk_order_0_def)
  then show "length (action_body order_action) \<le> 181" by (simp add: action_body_def order_action_def s_action_0_def)
qed

definition order_screen :: s_ui_ctx where
  "order_screen = \<lparr>ui_pairs = [(''Protocol'', ''Hyperliquid''), (''Network'', ''Testnet''),
        (''Operation'', ''Limit Long - BTC''), (''Limit Price'', ''30000 USDC''), (''Leverage'', ''5x''),
        (''Size'', ''0.5 BTC'')],
     ui_intent = ''Open BTC limit order'', ui_review_msg = ''Review message to Open BTC limit order'',
     ui_sign_msg = ''Sign message to Open BTC limit order?''\<rparr>"

lemma order_ui:
  "handle_ui True ref_bytes (session_ctx (btc_metadata OP_TYPE_ORDER) [leverage_action, order_action])
     (Some (btc_metadata OP_TYPE_ORDER)) = Inr order_screen"
proof -
  let ?g = "session_ctx (btc_metadata OP_TYPE_ORDER) [leverage_action, order_action]"
  have t: "act_type leverage_action = ACTION_TYPE_UPDATE_LEVERAGE" "act_type order_action = ACTION_TYPE_BULK_ORDER"
    by (simp_all add: leverage_action_def order_action_def s_action_0_def)
  have a: "ctx_get_action ACTION_TYPE_BULK_ORDER ?g = Some order_action"
    "ctx_get_action ACTION_TYPE_UPDATE_LEVERAGE ?g = Some leverage_action"
    by (simp_all add: session_ctx_lookup t)
  have o: "bo_orders (act_bulk_order order_action) = padded s_order_request_0 [limit_order]"
    "bo_order_count (act_bulk_order order_action) = Suc 0" by (simp_all add: order_action_def)
  have l: "act_update_leverage leverage_action = \<lparr>ul_asset = 0, ul_is_cross = False, ul_leverage = 5\<rparr>"
    by (simp add: leverage_action_def)
  have kind: "get_limit_request limit_order" "\<not> get_trigger_tp limit_order" "\<not> get_trigger_sl limit_order"
    by (simp_all add: limit_order_def s_order_request_0_def get_limit_request_def get_trigger_tp_def get_trigger_sl_def)
  have pick: "get_order_request (bo_orders (act_bulk_order order_action)) (Suc 0) m = (if m limit_order then Some limit_order else None)"
    "count_order_requests (bo_orders (act_bulk_order order_action)) (Suc 0) m = (if m limit_order then 1 else 0)" for m
    by (simp_all add: o padded_def get_order_request_def count_order_requests_def)
  have "ui_order True ref_bytes ?g ui (btc_metadata OP_TYPE_ORDER) =
      ui_limit_order True ref_bytes (btc_metadata OP_TYPE_ORDER) limit_order
        (Some \<lparr>ul_asset = 0, ul_is_cross = False, ul_leverage = 5\<rparr>) None None ui" for ui
  proof -
    have "tif (or_limit limit_order) = TIF_GTC" by (simp add: limit_order_def)
    then show ?thesis
      by (simp add: ui_order_def a Let_def o(2) pick kind l order_structure_bad_def trigger_mismatch_def)
  qed
  then show ?thesis
    unfolding handle_ui_def
    by (simp add: btc_metadata_def s_action_metadata_0_def show_pair_def s_ui_ctx_0_def)
       (simp add: ui_limit_order_def ui_order_common_def show_metadata_margin_def show_update_leverage_def
        show_trigger_price_def show_size_def show_pair_def limit_order_def s_order_request_0_def dec_of_nat.simps
        dec_digit_def prepare_review_sign_msgs_def order_screen_def APPNAME_def order_operation_size_def snprintf_def
        get_short_long_string_capitalized_def get_short_long_string_def short_long_string_def str_arg_def COUNTERVALUE_TICKER_def)
qed

section \<open>The runs\<close>

definition session_events :: "s_action_metadata \<Rightarrow> s_action list \<Rightarrow> event list" where
  "session_events md as =
     map Command ([one_chunk PARSE_ACTION_METADATA (metadata_payload md (ref_signature md))] @
       concat (map (\<lambda>a. [one_chunk PARSE_ACTION (action_payload a)]) as)) @
     Command sign_apdu # Choice True # replicate (length as - 1) (Command sign_apdu)"

lemma app_start_idle:
  "dev_inv ref_platform (app_start ref_platform)" "dv_comm_enabled (app_start ref_platform)"
  "cp_handler (dv_payload (app_start ref_platform)) = None" "action_index (dv_ctx (app_start ref_platform)) = 0"
  "dv_sent (app_start ref_platform) = []"
  using dev_inv_start [OF ref_platform_ok]
  by (simp_all add: app_start_def enable_comm_def s_chunked_payload_0_def s_hl_context_0_def)

lemma ref_platform_simps:
  "pf_tlv ref_platform = der_tlv" "pf_bytes ref_platform = ref_bytes" "pf_wallet_screen ref_platform = True"
  "pf_cx ref_platform = ref_cx"
  by (simp_all add: ref_platform_def)

lemma example_signature: "metadata_signature (pf_cx ref_platform) ref_sha256 md (ref_signature md)"
  by (simp add: ref_platform_simps ref_metadata_signature)

lemma example_commands:
  "list_all2 (\<lambda>raws a. payload_commands ref_platform PARSE_ACTION raws (action_payload a))
     [[one_chunk PARSE_ACTION (action_payload cancel_action)]] [cancel_action]"
  "list_all2 (\<lambda>raws a. payload_commands ref_platform PARSE_ACTION raws (action_payload a))
     [[one_chunk PARSE_ACTION (action_payload leverage_action)], [one_chunk PARSE_ACTION (action_payload order_action)]]
     [leverage_action, order_action]"
  by (simp_all add: cancel_commands leverage_commands order_commands)

lemmas session_hyps = ref_platform_ok ref_platform_delivers ref_platform_simps(1) ref_platform_hashes

lemma order_session_run:
  "\<exists>wallet dv rs. reaches ref_platform (session_events (btc_metadata OP_TYPE_ORDER) [leverage_action, order_action])
      (app_start ref_platform) dv \<and> signatures dv = rs \<and>
    request_signatures ref_platform ref_keccak (btc_metadata OP_TYPE_ORDER) [leverage_action, order_action]
      (signing_for ref_platform sign_data [0x8000002c] wallet) rs \<and> dv_ctx dv = s_hl_context_0"
proof -
  have "signatures (app_start ref_platform) = []" by (simp add: signatures_def app_start_idle)
  then show ?thesis
    using client_session_signed [OF session_hyps order_request_ok example_signature btc_metadata_commands
        example_commands(2) sign_apdu_command app_start_idle(1-4) order_ui [folded ref_platform_simps(2,3)]]
    by (simp add: session_events_def)
qed

lemma length_approvals: "length (approvals tr) = length (filter (\<lambda>e. e = Choice True) (map snd tr))"
  by (induction tr) (auto simp: approvals_def)

lemma session_approvals: "length (filter (\<lambda>e. e = Choice True) (session_events md as)) = 1"
  by (simp add: session_events_def filter_map comp_def)

lemma order_run:
  obtains tr dv where "runs (app_start ref_platform) (dev_step ref_platform) tr dv"
    "length (approvals tr) = 1" "length (signatures dv) = 2"
proof -
  obtain wallet dv rs where r: "reaches ref_platform (session_events (btc_metadata OP_TYPE_ORDER) [leverage_action, order_action])
      (app_start ref_platform) dv" "signatures dv = rs" "request_signatures ref_platform ref_keccak
      (btc_metadata OP_TYPE_ORDER) [leverage_action, order_action] (signing_for ref_platform sign_data [0x8000002c] wallet) rs"
    using order_session_run by blast
  from r(1) obtain tr where tr: "runs (app_start ref_platform) (dev_step ref_platform) tr dv"
    "map snd tr = session_events (btc_metadata OP_TYPE_ORDER) [leverage_action, order_action]" by (auto simp: reaches_def)
  have "length (approvals tr) = 1" unfolding length_approvals tr(2) by (rule session_approvals)
  moreover have "length (signatures dv) = 2" using r(2,3) by (simp add: request_signatures_def)
  ultimately show thesis using that tr(1) by blast
qed

section \<open>Devices with a session\<close>

lemma session_request_ctx:
  assumes "session_request md as"
  shows "session_wf (session_ctx md as) md" "session_ok (session_ctx md as)"
proof -
  have q: "ctx_queue (session_ctx md as) = as" "ctx_inv (session_ctx md as)"
    using assms by (simp_all add: session_request_def session_ctx_queue session_ctx_inv)
  then show wf: "session_wf (session_ctx md as) md"
    using assms by (auto simp: session_wf_def session_request_def action_canonical_def list_all_iff)
  show "session_ok (session_ctx md as)"
    using assms wf q by (simp add: session_ok_def session_request_def)
qed

definition loaded :: "s_action_metadata \<Rightarrow> s_action list \<Rightarrow> device" where
  "loaded md as = (app_start ref_platform)\<lparr>dv_ctx := session_ctx md as\<rparr>"

lemma loaded_inv: "session_request md as \<Longrightarrow> dev_inv ref_platform (loaded md as)"
  using session_request_ctx(2) [of md as] app_start_idle(1)
  by (simp add: loaded_def dev_inv_def app_start_def enable_comm_def)

lemma loaded_simps [simp]:
  "dv_ctx (loaded md as) = session_ctx md as" "dv_comm_enabled (loaded md as)" "dv_sent (loaded md as) = []"
  by (simp_all add: loaded_def app_start_idle)

lemma request_env: "session_request md as \<Longrightarrow> screen_env ref_bytes (session_ctx md as) md"
  by (simp add: screen_env_def ref_bytes_ok session_request_ctx)

lemma loaded_current:
  "session_request md (a # as) \<Longrightarrow> ctx_get_current_action (session_ctx md (a # as)) = Some a"
  using ctx.current_law [OF session_ctx_inv, of "a # as" md]
  by (simp add: session_request_def ctx_session_def session_ctx_queue)

text \<open>The two devices of the examples, and the second one under review.\<close>

lemmas example_requests = cancel_request_ok order_request_ok

lemma order_reviewed:
  obtains dv where "dev_inv ref_platform dv" "dv_review dv = Some order_screen"
    "dv_ctx dv = session_ctx (btc_metadata OP_TYPE_ORDER) [leverage_action, order_action]"
proof -
  let ?dv = "loaded (btc_metadata OP_TYPE_ORDER) [leverage_action, order_action]"
  have q: "ctx_queue (dv_ctx ?dv) \<noteq> []" by (simp add: session_ctx_queue)
  obtain wallet dv where "dev_step ref_platform ?dv (Command sign_apdu) dv" "dv_review dv = Some order_screen"
    "dv_ctx dv = dv_ctx ?dv"
    using open_review [OF ref_platform_ok ref_platform_delivers loaded_inv [OF order_request_ok] _ sign_apdu_command _ q,
        of order_screen] order_ui by (auto simp: ref_platform_simps)
  with that dev_step_inv [OF ref_platform_ok loaded_inv [OF order_request_ok]] show thesis by (metis loaded_simps(1))
qed

section \<open>Facts about the examples\<close>

lemma order_action_ok:
  "action_wf (Some (btc_metadata OP_TYPE_ORDER)) order_action" "payload_only order_action = order_action"
  using order_request_ok by (simp_all add: session_request_def action_canonical_def)

lemma order_action_l1: "l1_action order_action"
  by (simp add: l1_action_def order_action_def s_action_0_def)

lemma cancel_parsed:
  "parse_action der_tlv (Some (action_payload cancel_action)) (session_ctx (btc_metadata OP_TYPE_CANCEL) []) =
   ctx_push_action cancel_action (session_ctx (btc_metadata OP_TYPE_CANCEL) [])"
proof (rule parse_action_payload)
  show "ctx_get_action_metadata (session_ctx (btc_metadata OP_TYPE_CANCEL) []) = Some (btc_metadata OP_TYPE_CANCEL)" by simp
  show "action_wf (Some (btc_metadata OP_TYPE_CANCEL)) cancel_action" "action_canonical cancel_action"
    using cancel_request_ok by (simp_all add: session_request_def)
  show "is_action_compatible (act_type cancel_action) (md_op_type (btc_metadata OP_TYPE_CANCEL)) (session_ctx (btc_metadata OP_TYPE_CANCEL) [])"
    by (simp add: is_action_compatible_def cancel_action_def btc_metadata_def)
qed

lemma order_load_run:
  obtains tr dv where "runs (app_start ref_platform) (dev_step ref_platform) tr dv"
    "ctx_queue (dv_ctx dv) = [leverage_action, order_action]"
proof -
  let ?md = "btc_metadata OP_TYPE_ORDER"
  obtain n where "reaches ref_platform (map Command ([one_chunk PARSE_ACTION_METADATA (metadata_payload ?md (ref_signature ?md))] @
      concat [[one_chunk PARSE_ACTION (action_payload leverage_action)], [one_chunk PARSE_ACTION (action_payload order_action)]]))
    (app_start ref_platform) ((app_start ref_platform)\<lparr>dv_payload := s_chunked_payload_0,
      dv_ctx := session_ctx ?md [leverage_action, order_action], dv_sent := dv_sent (app_start ref_platform) @ replicate n ok_response\<rparr>)"
    using load_session [OF session_hyps order_request_ok example_signature btc_metadata_commands example_commands(2)
        app_start_idle(1-4)] by blast
  then show thesis using that by (auto simp: reaches_def session_ctx_queue)
qed

end
