(* ===== verification/Example_Requests.thy ===== *)
theory Example_Requests
  imports Example_Session
begin

text \<open>
  One request for each of the other operations: the change of a stop loss, the closing of a position, the
  withdrawal of margin and the cancellation of a pair of triggers; and a platform on which signing fails.
\<close>

section \<open>Requests\<close>

definition stop_order :: s_order_request where
  "stop_order = s_order_request_0\<lparr>or_order_type := ORDER_TYPE_TRIGGER, or_limit_px := ''25000'', or_sz := ''0.5'',
     or_reduce_only := True, or_trigger := \<lparr>is_market = True, trigger_px = ''25000'', tpsl = TRIGGER_TYPE_SL\<rparr>\<rparr>"

definition modify_action :: s_action where
  "modify_action = s_action_0\<lparr>act_type := ACTION_TYPE_BULK_MODIFY, act_nonce := 7,
     act_bulk_modify := \<lparr>bm_modify_count = 1, bm_modifies = padded s_modify_request_0 [\<lparr>mr_oid = 9, mr_order = stop_order\<rparr>]\<rparr>\<rparr>"

definition close_action :: s_action where
  "close_action = s_action_0\<lparr>act_nonce := 8, act_bulk_order := s_bulk_order_0\<lparr>bo_order_count := 1,
     bo_orders := padded s_order_request_0 [limit_order\<lparr>or_reduce_only := True\<rparr>]\<rparr>\<rparr>"

definition margin_action :: s_action where
  "margin_action = s_action_0\<lparr>act_type := ACTION_TYPE_UPDATE_ISOLATED_MARGIN, act_nonce := 9,
     act_update_isolated_margin := \<lparr>um_asset = 0, um_is_buy = True, um_ntli = - 5000000\<rparr>\<rparr>"

definition cancel_pair_action :: s_action where
  "cancel_pair_action = s_action_0\<lparr>act_type := ACTION_TYPE_BULK_CANCEL, act_nonce := 5,
     act_bulk_cancel := \<lparr>bc_cancel_count = 2,
       bc_cancels = padded s_cancel_request_0 [\<lparr>cr_asset = 0, cr_oid = 7\<rparr>, \<lparr>cr_asset = 0, cr_oid = 8\<rparr>]\<rparr>\<rparr>"

lemma stop_order_wf: "order_wf 0 stop_order" "order_canonical stop_order"
  by (simp_all add: stop_order_def order_wf_def order_canonical_def s_order_request_0_def num_str_def cstr_fits_def)

lemma close_order_wf:
  "order_wf 0 (limit_order\<lparr>or_reduce_only := True\<rparr>)" "order_canonical (limit_order\<lparr>or_reduce_only := True\<rparr>)"
  using limit_order_wf by (simp_all add: order_wf_def order_canonical_def split: e_order_type.splits)

lemma single_request:
  assumes "op \<noteq> OP_TYPE_UPDATE_LEVERAGE" "action_wf (Some (btc_metadata op)) a" "action_canonical a" "act_type a \<in> allowed_types op"
  shows "session_request (btc_metadata op) [a]"
proof -
  have "md_op_type (btc_metadata op) = op" by (simp add: btc_metadata_def)
  then show ?thesis using assms btc_metadata_ok [OF assms(1)] by (simp add: session_request_def session_compatible_def)
qed

lemma more_requests:
  "session_request (btc_metadata OP_TYPE_MODIFY) [modify_action]"
  "session_request (btc_metadata OP_TYPE_CLOSE) [close_action]"
  "session_request (btc_metadata OP_TYPE_UPDATE_MARGIN) [margin_action]"
  "session_request (btc_metadata OP_TYPE_CANCEL_TP_SL) [cancel_pair_action]"
proof -
  have id: "md_asset_id (btc_metadata op) = 0" for op by (simp add: btc_metadata_def s_action_metadata_0_def)
  show "session_request (btc_metadata OP_TYPE_MODIFY) [modify_action]"
    using stop_order_wf id by (intro single_request)
      (simp_all add: modify_action_def action_wf_def action_canonical_def bulk_modify_wf_def bulk_modify_canonical_def
        order_wf_md_def payload_only_def padded_def Let_def allowed_types_def s_action_0_def)
  show "session_request (btc_metadata OP_TYPE_CLOSE) [close_action]"
    using close_order_wf id by (intro single_request)
      (simp_all add: close_action_def action_wf_def action_canonical_def bulk_order_wf_def bulk_order_canonical_def
        order_wf_md_def payload_only_def padded_def Let_def allowed_types_def s_action_0_def s_bulk_order_0_def s_builder_info_0_def)
  show "session_request (btc_metadata OP_TYPE_UPDATE_MARGIN) [margin_action]"
    using id by (intro single_request)
      (simp_all add: margin_action_def action_wf_def action_canonical_def margin_wf_md_def payload_only_def Let_def
        allowed_types_def s_action_0_def)
  show "session_request (btc_metadata OP_TYPE_CANCEL_TP_SL) [cancel_pair_action]"
    using id by (intro single_request)
      (simp_all add: cancel_pair_action_def action_wf_def action_canonical_def bulk_cancel_wf_def bulk_cancel_canonical_def
        cancel_wf_md_def payload_only_def padded_def Let_def allowed_types_def s_action_0_def)
qed

text \<open>A reduce-only market order, sent under the operation for orders.\<close>

definition reduce_order :: s_order_request where
  "reduce_order = limit_order\<lparr>or_reduce_only := True, or_limit := \<lparr>tif = TIF_IOC\<rparr>\<rparr>"

definition reduce_action :: s_action where
  "reduce_action = s_action_0\<lparr>act_nonce := 10, act_bulk_order := s_bulk_order_0\<lparr>bo_order_count := 1,
     bo_orders := padded s_order_request_0 [reduce_order]\<rparr>\<rparr>"

lemma reduce_request_ok: "session_request (btc_metadata OP_TYPE_ORDER) [reduce_action]"
proof -
  have id: "md_asset_id (btc_metadata op) = 0" for op by (simp add: btc_metadata_def s_action_metadata_0_def)
  have "order_wf 0 reduce_order" "order_canonical reduce_order"
    by (simp_all add: reduce_order_def limit_order_def order_wf_def order_canonical_def s_order_request_0_def num_str_def cstr_fits_def)
  with id show ?thesis by (intro single_request)
    (simp_all add: reduce_action_def action_wf_def action_canonical_def bulk_order_wf_def bulk_order_canonical_def
      order_wf_md_def payload_only_def padded_def Let_def allowed_types_def s_action_0_def s_bulk_order_0_def s_builder_info_0_def)
qed

lemma reduce_session:
  "ctx_get_action ACTION_TYPE_BULK_ORDER (session_ctx (btc_metadata OP_TYPE_ORDER) [reduce_action]) = Some reduce_action"
  "ctx_get_action ACTION_TYPE_UPDATE_LEVERAGE (session_ctx (btc_metadata OP_TYPE_ORDER) [reduce_action]) = None"
  "bulk_orders (act_bulk_order reduce_action) = [reduce_order]" "get_limit_request reduce_order"
  "tif (or_limit reduce_order) = TIF_IOC" "or_reduce_only reduce_order" "or_is_buy reduce_order"
  by (simp_all add: session_ctx_lookup reduce_action_def s_action_0_def bulk_orders_def padded_def reduce_order_def
      limit_order_def s_order_request_0_def get_limit_request_def)

section \<open>The metadata of the examples\<close>

lemma btc_metadata_parsed:
  "parse_action_metadata der_tlv ref_cx
     (Some (metadata_payload (btc_metadata OP_TYPE_ORDER) (ref_signature (btc_metadata OP_TYPE_ORDER)))) s_hl_context_0 =
   (Inr (), session_ctx (btc_metadata OP_TYPE_ORDER) [])"
  using parse_metadata_payload [OF ref_cx_delivers ref_cx_hashes _ _ ref_metadata_signature, of "btc_metadata OP_TYPE_ORDER"]
    btc_metadata_ok [of OP_TYPE_ORDER] session_ctx_start [of "btc_metadata OP_TYPE_ORDER"]
  by (simp add: ctx_current_action_is_first_def) (simp add: s_hl_context_0_def)

section \<open>A platform that does not sign\<close>

definition deaf_cx :: "(hash_kind \<times> byte list) cx_lib" where
  "deaf_cx = ref_cx\<lparr>bip32_ecdsa_sign := \<lambda>p m. None\<rparr>"

definition deaf_platform :: "(hash_kind \<times> byte list) platform" where
  "deaf_platform = ref_platform\<lparr>pf_cx := deaf_cx\<rparr>"

lemma deaf_platform_ok: "platform_ok deaf_platform"
proof -
  have "cx_hashes deaf_cx ref_keccak ref_sha256" "cx_sizes deaf_cx"
    using ref_cx_hashes ref_cx_sizes by (simp_all add: cx_hashes_def absorbs_def cx_sizes_def deaf_cx_def)
  then show ?thesis using ref_platform_ok by (auto simp: platform_ok_def deaf_platform_def)
qed

lemma deaf_simps: "bip32_ecdsa_sign (pf_cx deaf_platform) p m = None" "io_ret deaf_platform rs r \<noteq> -1"
  by (simp_all add: deaf_platform_def deaf_cx_def ref_platform_def)

lemma deaf_reviewed:
  obtains dv where "dev_inv deaf_platform dv" "dv_review dv = Some order_screen"
proof -
  obtain dv where dv: "dev_inv ref_platform dv" "dv_review dv = Some order_screen" using order_reviewed .
  have "derive_addr_from_path deaf_cx path = derive_addr_from_path ref_cx path" for path
    by (simp add: derive_addr_from_path_def deaf_cx_def)
  then have "dev_inv deaf_platform dv"
    using dv(1) by (simp add: dev_inv_def signing_ok_def reviewed_def deaf_platform_def ref_platform_simps)
  with that dv(2) show thesis by blast
qed

end
