(* ===== verification/Spec2Isabelle.thy ===== *)
theory Spec2Isabelle
  imports Example_Requests
begin

text \<open>
  The Hyperliquid application for Ledger devices: a verification development of its C code (\<open>src/\<close>).

  \<^bold>\<open>The program.\<close> A client sends commands to the device. PROVIDE_ACTION_METADATA and SET_ACTION bring TLV
  payloads in chunks; complete payloads are parsed into the metadata of a session (signed by the
  vendor: operation, asset, ticker, network) and into its actions (orders, modifications,
  cancellations, leverage and margin changes, builder fees, abstraction changes), which a context keeps
  in a queue. The first SIGN_ACTION of a session builds a review screen from all its actions and
  disables commands until the user decides. After an approval the first action is hashed (MessagePack,
  Keccak, EIP-712), signed and sent, and each further SIGN_ACTION with the same path signs the next one.

  \<^bold>\<open>The theories\<close>, in the order of the code's layers; the definitions have the names of the C functions,
  types and constants, and static functions of several files with one name have a prefix.
  \<^item> \<open>Prelude\<close>: results of fallible calls (\<open>Reject\<close> is C's \<open>false\<close>; \<open>Null_deref\<close> and \<open>Out_of_bounds\<close> stand
    for undefined behaviour and are proved out of reach), arrays, C strings, hex (\<open>os_utils_stubs.c\<close>).
  \<^item> \<open>Metadata_Types\<close> (\<open>constants.h\<close>, \<open>action_metadata.h\<close>), \<open>Tlv\<close> (use of the TLV library: a handler per tag;
    the locale \<open>tlv_struct\<close> carries a context invariant through a parse), \<open>Msgpack_Writer\<close> (the buffer
    writer of \<open>action.c\<close>, and MessagePack values; the locale \<open>serializer\<close>).
  \<^item> \<open>Order_Request\<close>, \<open>Bulk_Order\<close>, \<open>Bulk_Modify\<close>, \<open>Bulk_Cancel\<close>, \<open>Update_Leverage\<close>, \<open>Update_Isolated_Margin\<close>,
    \<open>Approve_Builder_Fee\<close>, \<open>User_Set_Abstraction\<close>: the parser and the serializer of each structure, what a
    parsed structure satisfies, the value a serializer writes.
  \<^item> \<open>Hl_Context\<close> (\<open>hl_context.c\<close>): the context; the locale \<open>session_store\<close> states its contract over an
    abstract session. \<open>Sdk\<close>: the services of the SDK. \<open>Eip712\<close> (\<open>eip712_*.c\<close>, \<open>derive_addr_from_path.c\<close>).
  \<^item> \<open>Action\<close> (\<open>action.c\<close>), \<open>Action_Size\<close> (bounds on serializations, success of hashing), \<open>Action_Value\<close>
    (injectivity of values), \<open>Action_Metadata\<close> (\<open>action_metadata.c\<close>), \<open>Chunked_Payload\<close> (\<open>chunked_payload.c\<close>).
  \<^item> \<open>Ui_Common\<close>, \<open>Ui_Operations\<close> (\<open>ui/*.c\<close>), \<open>Ui_Review\<close>, \<open>Ui_Screens\<close>: the screens, and what an accepted
    screen says about the session (the locale \<open>ui_screen\<close> is the contract of a screen); \<open>Ui_Complete\<close>: no
    action of the session is left out of the review, and how a reduce-only order is displayed.
  \<^item> \<open>Device\<close> (\<open>handler/*.c\<close>, \<open>apdu/dispatcher.c\<close>, \<open>comm_enabler.c\<close>, \<open>ui/operation.c\<close>, \<open>app_main.c\<close>): all static
    variables in one record, and the step relation of commands and choices. \<open>Device_Inv\<close>: its invariant
    (the locale \<open>run_invariant\<close> carries an invariant through a run). \<open>Device_Run\<close>: safety of runs.
    \<open>Device_Protocol\<close>: responses. \<open>Device_Live\<close>: progress. \<open>App_Main\<close>: the main loop and the storage flag.
    \<open>Signing_Flow\<close>: the state machine of \<open>doc/signing_flow.md\<close> and the proof that the device refines it.
  \<^item> \<open>Tlv_Encoding\<close> (\<open>unit-tests/tlv_helpers.h\<close>), \<open>Client_Encoding\<close>, \<open>Client_Session\<close>, \<open>Client_Run\<close>: the
    encoding of requests, round trips, and a client's whole session. \<open>Test_Support\<close>
    (\<open>unit-tests/ser_helpers.h\<close>, \<open>fuzzing/harness/*.c\<close>): the buffer of the serialization tests behaves as the
    application's own, and the fuzz targets return.
  \<^item> \<open>Reference_Platform\<close>, \<open>Example_Session\<close>, \<open>Example_Requests\<close>: services that satisfy every hypothesis, and
    concrete sessions on them, for the witnesses.

  \<^bold>\<open>Parameters and hypotheses.\<close> Code outside the repository is a parameter: the TLV library, \<open>cmp\<close>,
  integer formatting, cryptography, PKI, BIP32 paths, APDU parsing and I/O, together the record
  \<open>platform\<close>. \<open>platform_ok\<close> collects what is relied on for safety: items of unknown or repeated unique tags
  are not delivered, sizes of outputs are as documented, hash contexts compute a function of what was
  fed, numbers are printed injectively. \<open>delivers\<close> adds, for progress, that the services do not fail.

  \<^bold>\<open>Bounds.\<close> A payload has at most 1020 bytes, a session 10 actions, a bulk structure 5 entries, a
  serialization 1024 bytes, a screen 16 lines (11 are reached). Counters and lengths that the C code keeps
  in \<open>uint8_t\<close>, \<open>uint16_t\<close> and \<open>uint64_t\<close> are words. The only fuel is in the reference TLV decoder, which gets
  one unit for each byte of its input while every field takes at least two.

  \<^bold>\<open>Not modelled.\<close> Printing of structures and \<open>PRINTF\<close> (no effect); the home screen and its settings page
  (\<open>menu_nbgl.c\<close>; only that it is shown); icons and the layout of screens; the initialization of the I/O
  layer; the test programs and their linker stubs. The order in which the user touches the screen and the
  client sends commands is arbitrary in the step relation.
\<close>

section \<open>The main properties\<close>

text \<open>
  C1: In every run from the start of the application, the signatures sent fall into batches, one for
  each approval of the user and in that order; each batch consists of the EIP-712 signatures, in
  queue order, of the first actions of the session that was on the screen when the user approved,
  made with the key of the path whose address was derived for that session.
\<close>

lemma only_approved_is_signed:
  assumes "platform_ok P" "cx_hashes (pf_cx P) K S" "runs (app_start P) (dev_step P) tr dv"
  shows "\<exists>bs. signatures dv = concat bs \<and> list_all2 (batch P K) (approvals tr) bs"
  using signed_runs.inv_runs [OF assms(3), of K] assms(1,2) by (auto simp: run_inv_def)

lemma only_approved_is_signed_witness:
  "\<exists>tr dv. length (signatures dv) = 2 \<and> length (approvals tr) = 1 \<and>
     (\<exists>bs. signatures dv = concat bs \<and> list_all2 (batch ref_platform ref_keccak) (approvals tr) bs)"
proof -
  obtain tr dv where "runs (app_start ref_platform) (dev_step ref_platform) tr dv"
    "length (approvals tr) = 1" "length (signatures dv) = 2" using order_run .
  with only_approved_is_signed [OF ref_platform_ok ref_platform_hashes] show ?thesis by blast
qed



text \<open>
  C3: In every run the device satisfies its invariant: the session is well formed for its metadata,
  the transfer state is consistent, the signing path has the buffer's size, commands are disabled
  exactly while a review is displayed, and what is displayed is the review of the session that would
  be signed.
\<close>

lemma device_invariant_in_runs:
  assumes "platform_ok P" "runs (app_start P) (dev_step P) tr dv"
  shows "dev_inv P dv"
  using dev.inv_runs [OF assms(2,1)] .

lemma device_invariant_in_runs_witness:
  "\<exists>dv. length (signatures dv) = 2 \<and> dev_inv ref_platform dv"
proof -
  obtain tr dv where "runs (app_start ref_platform) (dev_step ref_platform) tr dv" "length (signatures dv) = 2"
    using order_run .
  with device_invariant_in_runs [OF ref_platform_ok] show ?thesis by blast
qed



text \<open>
  C5: The pair of hashes computed for a well-formed action is the EIP-712 domain separator and
  struct hash of that action: the Agent struct of the Keccak hash of its MessagePack bytes, nonce
  and end byte for trading actions, the user-signed structs for the builder fee and the abstraction.
\<close>

lemma action_hash_is_eip712:
  assumes "cx_hashes X K S" "cx_sizes X" "bytes_ok B" "cmp_int_agrees C"
    and "action_wf (Some md) a" "payload_only a = a" "length wallet = 20"
    and "action_hash C B X (Some a) (Some md) wallet = Inr h"
  shows "h = action_struct_hashes C K (md_network md) wallet a"
  using assms by (rule action_hash_spec)

lemma action_hash_is_eip712_witness:
  "\<exists>h. action_hash ref_cmp ref_bytes ref_cx (Some order_action) (Some (btc_metadata OP_TYPE_ORDER)) (replicate 20 0) = Inr h \<and>
     h = action_struct_hashes ref_cmp ref_keccak NETWORK_TESTNET (replicate 20 0) order_action"
proof -
  have "accepted (action_hash ref_cmp ref_bytes ref_cx (Some order_action) (Some (btc_metadata OP_TYPE_ORDER)) (replicate 20 0))"
    using action_hash_accepted [OF ref_cx_delivers ref_cx_sizes ref_bytes_ok ref_cmp_int_agrees ref_cmp_sizes order_action_ok]
    by simp
  then obtain h where h: "action_hash ref_cmp ref_bytes ref_cx (Some order_action) (Some (btc_metadata OP_TYPE_ORDER)) (replicate 20 0) = Inr h"
    by (auto simp: accepted_conv)
  have "md_network (btc_metadata OP_TYPE_ORDER) = NETWORK_TESTNET" by (simp add: btc_metadata_def)
  with h action_hash_is_eip712 [OF ref_cx_hashes ref_cx_sizes ref_bytes_ok ref_cmp_int_agrees order_action_ok _ h]
  show ?thesis by simp
qed



text \<open>
  C7: When the services deliver, sign_action never refuses the current action of a session: it sends
  its signature and moves on.
\<close>

lemma current_action_is_signed:
  assumes "platform_ok P" "delivers P" "dev_inv P dv" "ctx_get_current_action (dv_ctx dv) = Some a"
  shows "\<exists>md r ret. signed_by P (dv_ctx dv) (dv_signing dv) a md r \<and> 0 \<le> ret \<and>
     sign_action P dv = Inr (ret, dv\<lparr>dv_ctx := context_after (dv_ctx dv), dv_sent := dv_sent dv @ [r]\<rparr>)"
  using sign_action_signs [OF assms] by metis

lemma current_action_is_signed_witness:
  "\<exists>md r ret. let dv = loaded (btc_metadata OP_TYPE_ORDER) [leverage_action, order_action] in
     signed_by ref_platform (dv_ctx dv) (dv_signing dv) leverage_action md r \<and> 0 \<le> ret \<and>
     sign_action ref_platform dv = Inr (ret, dv\<lparr>dv_ctx := context_after (dv_ctx dv), dv_sent := dv_sent dv @ [r]\<rparr>)"
  unfolding Let_def
  by (rule current_action_is_signed [OF ref_platform_ok ref_platform_delivers loaded_inv [OF order_request_ok]])
     (simp add: loaded_current [OF order_request_ok])



text \<open>
  C9: Pushing an action to the context implements the push of the abstract session (a queue of at
  most ten actions of distinct types that is closed once signing began), and fails exactly when that
  does.
\<close>

lemma push_refines_session:
  assumes "ctx_inv g"
  shows "case ctx_push_action a g of
           Inl e \<Rightarrow> e = Reject \<and> session_push a (ctx_session g) = None
         | Inr g' \<Rightarrow> ctx_inv g' \<and> session_push a (ctx_session g) = Some (ctx_session g')"
  by (rule ctx_push_spec [OF assms])

lemma push_refines_session_witness:
  "case ctx_push_action order_action (session_ctx (btc_metadata OP_TYPE_ORDER) [leverage_action]) of
     Inl e \<Rightarrow> e = Reject \<and> session_push order_action (ctx_session (session_ctx (btc_metadata OP_TYPE_ORDER) [leverage_action])) = None
   | Inr g' \<Rightarrow> ctx_inv g' \<and>
       session_push order_action (ctx_session (session_ctx (btc_metadata OP_TYPE_ORDER) [leverage_action])) = Some (ctx_session g')"
  by (rule push_refines_session) (rule session_ctx_inv, simp_all)

text \<open>
  C10: Processing a chunk implements the step of the abstract transfer: refused chunks reset the
  transfer, stored ones extend it, and the last one passes exactly the announced bytes to the
  handler and resets it.
\<close>

lemma chunks_refine_transfer:
  assumes "bytes_ok B" "chunk_inv p"
  shows "case chunk_step first data h (payload_transfer p) of
       Refused \<Rightarrow> process_chunked_payload B call first (Some data) h p g = (Inl Reject, s_chunked_payload_0, g)
     | Stored t \<Rightarrow> \<exists>p'. process_chunked_payload B call first (Some data) h p g = (Inr (), p', g) \<and>
         chunk_inv p' \<and> payload_transfer p' = Some t
     | Complete h' bs \<Rightarrow> process_chunked_payload B call first (Some data) h p g =
         (case call h' (Some bs) g of (r, g') \<Rightarrow> (r, s_chunked_payload_0, g'))"
  using process_chunk_refines [OF assms, of call g first data h]
  by (auto simp: step_result_def split: chunk_outcome.splits prod.splits)

lemma chunks_refine_transfer_witness:
  "\<exists>p' t. process_chunked_payload ref_bytes (payload_call ref_platform) True (Some [0, 3, 1]) PARSE_ACTION
       s_chunked_payload_0 s_hl_context_0 = (Inr (), p', s_hl_context_0) \<and> chunk_inv p' \<and>
     payload_transfer p' = Some \<lparr>tr_handler = PARSE_ACTION, tr_total = 3, tr_bytes = [1]\<rparr>"
proof -
  have "chunk_step True [0, 3, 1] PARSE_ACTION None = Stored \<lparr>tr_handler = PARSE_ACTION, tr_total = 3, tr_bytes = [1]\<rparr>"
    by (simp add: chunk_step_def transfer_add_def PAYLOAD_BUFFER_SIZE_def)
  with chunks_refine_transfer [OF ref_bytes_ok chunk_inv_0(1), where first = True and data = "[0, 3, 1]" and
        h = PARSE_ACTION and call = "payload_call ref_platform" and g = s_hl_context_0]
  show ?thesis by (simp add: chunk_inv_0(2))
qed



text \<open>
  C12: Signing takes the actions of the queue by position while the screens look them up by type;
  still, whenever a review is displayed, every action of the queue is accounted for by its lines,
  except a builder fee or an abstraction change, which accompany an order silently.
\<close>

lemma every_signed_action_is_shown:
  assumes "platform_ok P" "dev_inv P dv" "dv_review dv = Some ui" "a \<in> set (ctx_queue (dv_ctx dv))"
  shows "\<exists>md. ctx_get_action_metadata (dv_ctx dv) = Some md \<and>
     (accounts_for (pf_bytes P) md (ui_pairs ui) a \<or> md_op_type md = OP_TYPE_ORDER \<and> silent_type (act_type a))"
  by (rule displayed_accounts [OF assms])

lemma every_signed_action_is_shown_witness:
  "accounts_for (pf_bytes ref_platform) (btc_metadata OP_TYPE_ORDER) (ui_pairs order_screen) leverage_action \<and>
   (''Leverage'', dec_of_nat (unat (ul_leverage (act_update_leverage leverage_action))) @ ''x'') \<in> set (ui_pairs order_screen)"
proof -
  obtain dv where dv: "dev_inv ref_platform dv" "dv_review dv = Some order_screen"
    "dv_ctx dv = session_ctx (btc_metadata OP_TYPE_ORDER) [leverage_action, order_action]" using order_reviewed .
  have "leverage_action \<in> set (ctx_queue (dv_ctx dv))" by (simp add: dv(3) session_ctx_queue)
  from every_signed_action_is_shown [OF ref_platform_ok dv(1,2) this]
  have "accounts_for (pf_bytes ref_platform) (btc_metadata OP_TYPE_ORDER) (ui_pairs order_screen) leverage_action"
    by (simp add: dv(3) silent_type_def leverage_action_def s_action_0_def)
  then show ?thesis by (simp add: accounts_for_def leverage_action_def s_action_0_def)
qed

text \<open>
  C13: The review screen that is opened for a session has at most 11 lines, they are those of the
  session's operation, and no text of the prompts is truncated.
\<close>

lemma review_shows_session:
  assumes "screen_env B g md" "handle_ui W B g (Some md) = Inr ui"
  shows "length (ui_pairs ui) \<le> 11 \<and>
     (\<exists>ui0. op_shown W B g md (start_screen md) ui0 \<and> ui_pairs ui = ui_pairs ui0 \<and> ui_intent ui = ui_intent ui0 \<and>
        ui_review_msg ui = ''Review message to '' @ ui_intent ui0 \<and>
        ui_sign_msg ui = ''Sign message to '' @ ui_intent ui0 @ ''?'')"
  using handle_ui_spec(2) [OF assms] by (auto simp: review_screen_def)

lemma review_shows_session_witness:
  "length (ui_pairs order_screen) \<le> 11 \<and>
   (\<exists>ui0. order_shown True ref_bytes (session_ctx (btc_metadata OP_TYPE_ORDER) [leverage_action, order_action])
        (btc_metadata OP_TYPE_ORDER) (start_screen (btc_metadata OP_TYPE_ORDER)) ui0 \<and> ui_pairs order_screen = ui_pairs ui0)"
proof -
  have "md_op_type (btc_metadata OP_TYPE_ORDER) = OP_TYPE_ORDER" by (simp add: btc_metadata_def)
  with review_shows_session [OF request_env [OF order_request_ok] order_ui] show ?thesis by (auto simp: op_shown_def)
qed

text \<open>
  C14: The serialization of every well-formed trading action fits the scratch buffer of 1024 bytes,
  so the serializer succeeds and writes exactly the bytes of the action's value.
\<close>

lemma serialized_action_fits:
  assumes "cmp_sizes C" "cmp_int_agrees C" "action_wf (Some md) a" "payload_only a = a" "l1_action a"
    and "length raw = 1024"
  shows "\<exists>b. action_serialize C a (Some \<lparr>buf_ptr = raw, buf_size = 1024, buf_offset = 0\<rparr>) = (True, Some b) \<and>
     take (buf_offset b) (buf_ptr b) = mp_bytes C (action_mp a)"
proof -
  have raw: "length raw = MAX_SERIALIZED_ACTION_SIZE" using assms(6) by (simp add: MAX_SERIALIZED_ACTION_SIZE_def)
  have "action_counts a" using action_wf_counts [OF assms(3,4)] .
  with action_ser.fits [of a C "scratch raw"] scratch_wf [OF raw] action_fits [OF assms(1,3,5)] assms(2,5)
  show ?thesis by (auto simp: scratch_def written_def MAX_SERIALIZED_ACTION_SIZE_def)
qed

lemma serialized_action_fits_witness:
  "\<exists>b. action_serialize ref_cmp order_action (Some \<lparr>buf_ptr = replicate 1024 0, buf_size = 1024, buf_offset = 0\<rparr>) = (True, Some b) \<and>
     take (buf_offset b) (buf_ptr b) = mp_bytes ref_cmp (action_mp order_action)"
  using serialized_action_fits [OF ref_cmp_sizes ref_cmp_int_agrees order_action_ok order_action_l1, of "replicate 1024 0"]
  by simp

section \<open>Sessions and responses\<close>

text \<open>
  C15: From any state with a loaded session that has a screen, one signing command, one approval and
  one command for each further action produce the signatures of all actions of the queue.
\<close>

lemma loaded_session_is_signed:
  assumes "platform_ok P" "delivers P" "cx_hashes (pf_cx P) K S" "dev_inv P dv" "dv_comm_enabled dv"
    and "sign_command P raw buf path" "action_index (dv_ctx dv) = 0" "ctx_queue (dv_ctx dv) \<noteq> []"
    and "handle_ui (pf_wallet_screen P) (pf_bytes P) (dv_ctx dv) (ctx_get_action_metadata (dv_ctx dv)) = Inr ui"
  shows "\<exists>wallet tr dv' rs. runs dv (dev_step P) tr dv' \<and>
      map snd tr = Command raw # Choice True # replicate (length (ctx_queue (dv_ctx dv)) - 1) (Command raw) \<and>
      signatures dv' = signatures dv @ rs \<and>
      signs_from P K (dv\<lparr>dv_signing := signing_for P buf path wallet\<rparr>) 0 rs \<and> dv_ctx dv' = s_hl_context_0"
  using assms by (rule session_is_signed)

lemma loaded_session_is_signed_witness:
  "\<exists>wallet tr dv rs. let dv0 = loaded (btc_metadata OP_TYPE_ORDER) [leverage_action, order_action] in
      runs dv0 (dev_step ref_platform) tr dv \<and>
      map snd tr = [Command sign_apdu, Choice True, Command sign_apdu] \<and> signatures dv = rs \<and>
      signs_from ref_platform ref_keccak (dv0\<lparr>dv_signing := signing_for ref_platform sign_data [0x8000002c] wallet\<rparr>) 0 rs \<and>
      dv_ctx dv = s_hl_context_0"
proof -
  let ?dv = "loaded (btc_metadata OP_TYPE_ORDER) [leverage_action, order_action]"
  have q: "ctx_queue (dv_ctx ?dv) = [leverage_action, order_action]" by (simp add: session_ctx_queue)
  have ui: "handle_ui (pf_wallet_screen ref_platform) (pf_bytes ref_platform) (dv_ctx ?dv)
      (ctx_get_action_metadata (dv_ctx ?dv)) = Inr order_screen"
    using order_ui by (simp add: ref_platform_simps)
  have sg: "signatures ?dv = []" by (simp add: signatures_def)
  show ?thesis
    using loaded_session_is_signed [OF ref_platform_ok ref_platform_delivers ref_platform_hashes
        loaded_inv [OF order_request_ok] _ sign_apdu_command _ _ ui] q sg
    by (simp add: session_ctx_queue Let_def)
qed

text \<open>
  C16: In every run the queue holds at most ten actions of distinct types, none without metadata;
  their types are those the operation allows, a modification has at most one action, and each is
  well formed for the asset of the metadata.
\<close>

lemma session_in_runs:
  assumes "platform_ok P" "runs (app_start P) (dev_step P) tr dv"
  shows "let q = ctx_queue (dv_ctx dv) in length q \<le> 10 \<and> distinct (map act_type q) \<and>
    (case ctx_get_action_metadata (dv_ctx dv) of
       None \<Rightarrow> q = []
     | Some md \<Rightarrow> metadata_wf md \<and> act_type ` set q \<subseteq> allowed_types (md_op_type md) \<and>
         (md_op_type md = OP_TYPE_MODIFY \<longrightarrow> length q \<le> 1) \<and> list_all (action_wf (Some md)) q)"
proof -
  have ok: "session_ok (dv_ctx dv)" using dev_invD(1) [OF dev.inv_runs [OF assms(2,1)]] .
  have inv: "ctx_inv (dv_ctx dv)" using session_okD(1) [OF ok] .
  from ctx.bounds [OF inv] have "length (ctx_queue (dv_ctx dv)) \<le> 10" "distinct (map act_type (ctx_queue (dv_ctx dv)))"
    by (simp_all add: ctx_queue_session)
  then show ?thesis
    using ok by (auto simp: session_ok_def session_wf_def session_compatible_def list_all_iff split: option.splits)
qed

lemma session_in_runs_witness:
  "\<exists>dv :: device. ctx_queue (dv_ctx dv) = [leverage_action, order_action] \<and>
     (let q = ctx_queue (dv_ctx dv) in length q \<le> 10 \<and> distinct (map act_type q) \<and>
    (case ctx_get_action_metadata (dv_ctx dv) of
       None \<Rightarrow> q = []
     | Some md \<Rightarrow> metadata_wf md \<and> act_type ` set q \<subseteq> allowed_types (md_op_type md) \<and>
         (md_op_type md = OP_TYPE_MODIFY \<longrightarrow> length q \<le> 1) \<and> list_all (action_wf (Some md)) q))"
proof -
  obtain tr dv where r: "runs (app_start ref_platform) (dev_step ref_platform) tr dv"
    "ctx_queue (dv_ctx dv) = [leverage_action, order_action]" using order_load_run .
  from r(2) session_in_runs [OF ref_platform_ok r(1)] show ?thesis by (intro exI [of _ dv] conjI)
qed

text \<open>
  C17: In every run, the number of responses, plus one while a review is waiting for the user, is
  the number of commands received.
\<close>

lemma one_response_per_command:
  assumes "platform_ok P" "runs (app_start P) (dev_step P) tr dv"
  shows "length (dv_sent dv) + (if dv_review dv = None then 0 else 1) =
     length (filter (\<lambda>(dv, e). \<exists>raw. e = Command raw) tr)"
  using answered_runs.inv_runs [OF assms(2,1)] by (simp add: answered_inv_def pending_def commands_def)

lemma one_response_per_command_witness:
  "\<exists>(tr :: (device \<times> event) list) dv. length (signatures dv) = 2 \<and> length (dv_sent dv) + (if dv_review dv = None then 0 else 1) =
     length (filter (\<lambda>(dv, e). \<exists>raw. e = Command raw) tr)"
proof -
  obtain tr dv where r: "runs (app_start ref_platform) (dev_step ref_platform) tr dv" "length (signatures dv) = 2"
    using order_run .
  from r(2) one_response_per_command [OF ref_platform_ok r(1)] show ?thesis
    by (intro exI [of _ tr] exI [of _ dv] conjI)
qed

text \<open>
  C18: In every run there are at most ten signatures for each approval of the user.
\<close>

lemma signatures_per_approval:
  assumes "platform_ok P" "runs (app_start P) (dev_step P) tr dv"
  shows "length (signatures dv) \<le> 10 * length (approvals tr)"
proof -
  obtain K S where K: "cx_hashes (pf_cx P) K S" using assms(1) by (auto simp: platform_ok_def)
  obtain bs where bs: "signatures dv = concat bs" "list_all2 (batch P K) (approvals tr) bs"
    using signed_runs.inv_runs [OF assms(2), of K] assms(1) K by (auto simp: run_inv_def)
  have small: "length rs \<le> 10" if "batch P K dvc rs" for dvc rs
  proof -
    from that obtain md where "session_wf (dv_ctx dvc) md" "length rs \<le> length (ctx_queue (dv_ctx dvc))"
      by (auto simp: batch_def)
    with ctx.bounds [of "dv_ctx dvc"] show ?thesis by (simp add: session_wf_def ctx_queue_session)
  qed
  have "list_all2 (batch P K) as bs \<Longrightarrow> length (concat bs) \<le> 10 * length as" for as
    by (induction rule: list_all2_induct) (auto dest: small)
  with bs show ?thesis by simp
qed

lemma signatures_per_approval_witness:
  "\<exists>tr dv. length (signatures dv) = 2 \<and> length (approvals tr) = 1 \<and>
     length (signatures dv) \<le> 10 * length (approvals tr)"
proof -
  obtain tr dv where "runs (app_start ref_platform) (dev_step ref_platform) tr dv"
    "length (approvals tr) = 1" "length (signatures dv) = 2" using order_run .
  with signatures_per_approval [OF ref_platform_ok] show ?thesis by blast
qed

section \<open>What is hashed\<close>



text \<open>
  C20: Serializing an action to any buffer appends the MessagePack bytes of the action's value when
  they fit, and reports failure exactly when they do not.
\<close>

lemma serialization_writes_value:
  assumes "l1_action a" "action_counts a" "cmp_int_agrees C" "buf_wf b"
  shows "case action_serialize C a (Some b) of (ok, c) \<Rightarrow>
     ok = (buf_offset b + length (mp_bytes C (action_mp a)) \<le> buf_size b) \<and>
     (ok \<longrightarrow> (\<exists>b'. c = Some b' \<and> written b' = written b @ mp_bytes C (action_mp a)))"
proof -
  have ok: "l1_action a \<and> action_counts a \<and> cmp_int_agrees C" using assms(1-3) by simp
  show ?thesis
  proof (cases "buf_offset b + length (mp_bytes C (action_mp a)) \<le> buf_size b")
    case True
    from action_ser.fits [OF ok assms(4) this] True show ?thesis by auto
  next
    case False
    from action_ser.overflows [OF ok assms(4) this] False show ?thesis by (auto split: prod.split)
  qed
qed

lemma serialization_writes_value_witness:
  "case action_serialize ref_cmp order_action (Some \<lparr>buf_ptr = replicate 10 0, buf_size = 10, buf_offset = 0\<rparr>) of (ok, c) \<Rightarrow>
     ok = (0 + length (mp_bytes ref_cmp (action_mp order_action)) \<le> 10) \<and>
     (ok \<longrightarrow> (\<exists>b'. c = Some b' \<and> written b' = [] @ mp_bytes ref_cmp (action_mp order_action)))"
proof -
  from serialization_writes_value [OF order_action_l1 action_wf_counts [OF order_action_ok] ref_cmp_int_agrees,
      of "\<lparr>buf_ptr = replicate 10 0, buf_size = 10, buf_offset = 0\<rparr>"]
  show ?thesis by (simp add: buf_wf_def written_def)
qed

text \<open>
  C21: Hashing a well-formed action returns a result whenever the hash functions deliver; no refusal
  of its own is in reach.
\<close>

lemma action_hash_returns:
  assumes "cx_delivers X" "cx_sizes X" "bytes_ok B" "cmp_int_agrees C" "cmp_sizes C"
    and "action_wf (Some md) a" "payload_only a = a" "length wallet = 20"
  shows "\<exists>h. action_hash C B X (Some a) (Some md) wallet = Inr h"
  using action_hash_accepted [OF assms] by (simp add: accepted_conv)

lemma action_hash_returns_witness:
  "\<exists>h. action_hash ref_cmp ref_bytes ref_cx (Some order_action) (Some (btc_metadata OP_TYPE_ORDER)) (replicate 20 0) = Inr h"
  using action_hash_returns [OF ref_cx_delivers ref_cx_sizes ref_bytes_ok ref_cmp_int_agrees ref_cmp_sizes order_action_ok]
  by simp

section \<open>Parsing and the context\<close>

text \<open>
  C22: An action that the parser accepts is well formed for the asset of the session's metadata,
  only the part of its type is set, it is compatible with the operation, and it is appended to the
  queue of a session of which nothing was signed.
\<close>

lemma parsed_action_is_well_formed:
  assumes "tlv_lib_ok L" "ctx_inv g" "parse_action L payload g = Inr g'"
  shows "\<exists>md a. ctx_get_action_metadata g = Some md \<and> action_wf (Some md) a \<and> payload_only a = a \<and>
     is_action_compatible (act_type a) (md_op_type md) g \<and> ctx_queue g' = ctx_queue g @ [a] \<and> action_index g = 0"
proof -
  from parse_action_spec(2) [OF assms] obtain md a where a: "ctx_get_action_metadata g = Some md" "action_wf (Some md) a"
    "payload_only a = a" "is_action_compatible (act_type a) (md_op_type md) g" "ctx_push_action a g = Inr g'" by blast
  from ctx.push_accepted [OF assms(2) a(5)] have "ctx_queue g' = ctx_queue g @ [a]" "action_index g = 0"
    by (simp_all add: ctx_session_def unat_eq_zero)
  with a show ?thesis by blast
qed

lemma parsed_action_is_well_formed_witness:
  "\<exists>g' md a. parse_action der_tlv (Some (action_payload cancel_action)) (session_ctx (btc_metadata OP_TYPE_CANCEL) []) = Inr g' \<and>
     action_wf (Some md) a \<and> ctx_queue g' = ctx_queue (session_ctx (btc_metadata OP_TYPE_CANCEL) []) @ [a]"
proof -
  let ?g = "session_ctx (btc_metadata OP_TYPE_CANCEL) []"
  have run: "parse_action der_tlv (Some (action_payload cancel_action)) ?g = Inr (session_ctx (btc_metadata OP_TYPE_CANCEL) [cancel_action])"
    using cancel_parsed session_ctx_push [of "[]" cancel_action "btc_metadata OP_TYPE_CANCEL"] by simp
  have "ctx_inv ?g" by (rule session_ctx_inv) simp_all
  from parsed_action_is_well_formed [OF der_tlv_ok this run] run show ?thesis by blast
qed





text \<open>
  C25: Once the first action of a session was signed, no payload of any kind changes the session; it
  can only drop it.
\<close>

lemma session_is_frozen_while_signing:
  assumes "platform_ok P" "session_ok g" "action_index g \<noteq> 0" "payload_call P h (Some p) g = (r, g')"
  shows "g' = g \<or> g' = s_hl_context_0"
  using payload_call_spec(4) [OF assms(1,2,4,3)] by (simp add: ctx_reset_def)

lemma session_is_frozen_while_signing_witness:
  "\<exists>r g'. payload_call ref_platform PARSE_ACTION (Some (action_payload order_action))
       (ctx_switch_to_next_action (session_ctx (btc_metadata OP_TYPE_ORDER) [leverage_action, order_action])) = (r, g') \<and>
     (g' = ctx_switch_to_next_action (session_ctx (btc_metadata OP_TYPE_ORDER) [leverage_action, order_action]) \<or>
      g' = s_hl_context_0)"
proof -
  let ?g = "session_ctx (btc_metadata OP_TYPE_ORDER) [leverage_action, order_action]"
  have ok: "session_ok (ctx_switch_to_next_action ?g)"
    using session_ok_advance [OF session_request_ctx(2) [OF order_request_ok] loaded_current [OF order_request_ok]] .
  have nz: "action_index (ctx_switch_to_next_action ?g) \<noteq> 0" by (simp add: ctx_switch_to_next_action_def)
  show ?thesis
    using session_is_frozen_while_signing [OF ref_platform_ok ok nz] by (metis surj_pair)
qed

text \<open>
  C26: Stepping through a context yields the actions of the queue one by one in the order they were
  pushed, with the count of those that remain, and then none.
\<close>

lemma actions_come_in_order:
  assumes "ctx_inv g" "action_index g = 0" "i \<le> length (ctx_queue g)"
  shows "let g' = (ctx_switch_to_next_action ^^ i) g in
     ctx_get_current_action g' = (if i < length (ctx_queue g) then Some (ctx_queue g ! i) else None) \<and>
     unat (ctx_remaining_actions g') = length (ctx_queue g) - i"
proof -
  have "ctx_inv ((ctx_switch_to_next_action ^^ i) g) \<and>
      ctx_session ((ctx_switch_to_next_action ^^ i) g) = (ctx_session g)\<lparr>ss_pos := i\<rparr>"
    using assms(3)
  proof (induction i)
    case 0
    then show ?case using assms(1,2) by (simp add: ctx_session_def)
  next
    case (Suc i)
    let ?g = "(ctx_switch_to_next_action ^^ i) g"
    have ih: "ctx_inv ?g" "ctx_session ?g = (ctx_session g)\<lparr>ss_pos := i\<rparr>" using Suc by simp_all
    have "ctx_get_current_action ?g \<noteq> None"
      using ctx.current_law [OF ih(1)] Suc.prems by (simp add: ih(2) ctx_queue_session)
    with ctx.advance_law [OF ih(1)] show ?case by (simp add: ih(2))
  qed
  with ctx.current_law [of "(ctx_switch_to_next_action ^^ i) g"] ctx.remaining_law [of "(ctx_switch_to_next_action ^^ i) g"]
  show ?thesis by (simp add: Let_def ctx_queue_session)
qed

lemma actions_come_in_order_witness:
  "ctx_get_current_action ((ctx_switch_to_next_action ^^ 1) (session_ctx (btc_metadata OP_TYPE_ORDER) [leverage_action, order_action])) =
     Some order_action"
proof -
  let ?g = "session_ctx (btc_metadata OP_TYPE_ORDER) [leverage_action, order_action]"
  have "ctx_inv ?g" using session_okD(1) [OF session_request_ctx(2) [OF order_request_ok]] .
  from actions_come_in_order [OF this session_ctx_simps(2), of 1] show ?thesis by (simp add: session_ctx_queue Let_def)
qed

text \<open>
  C27: A payload of at most 1020 bytes, cut into parts in any way and sent with its length before
  the first part, reaches its handler once, unchanged, and leaves no transfer open.
\<close>

lemma chunked_payload_round_trip:
  assumes "bytes_ok B" "parts = x # xs" "[] \<notin> set xs" "0 < length (concat parts)" "length (concat parts) \<le> 1020"
    and "chunk_inv p" "cp_handler p = None"
  shows "send_payload B call h parts p g = (case call h (Some (concat parts)) g of (r, g') \<Rightarrow> (r, s_chunked_payload_0, g'))"
  using assms by (intro send_payload_spec) (simp_all add: PAYLOAD_BUFFER_SIZE_def)

lemma chunked_payload_round_trip_witness:
  "send_payload ref_bytes (\<lambda>h p g. (Inr (), p)) PARSE_ACTION [[1, 2], [3], [4, 5]] s_chunked_payload_0 None =
   (Inr (), s_chunked_payload_0, Some [1, 2, 3, 4, 5])"
  using chunked_payload_round_trip [OF ref_bytes_ok refl, of "[[3], [4, 5]]" "[1, 2]" s_chunked_payload_0
      "\<lambda>h p g. (Inr (), p)" PARSE_ACTION None] chunk_inv_0(1)
  by (simp add: s_chunked_payload_0_def)

section \<open>The screens\<close>

text \<open>
  C28: The order screen is refused or accounts for every order of the session: the limit order, at
  most one take profit and one stop loss that match it, nothing else, with price, size and the
  leverage set.
\<close>

lemma order_screen_shows_orders:
  assumes "screen_env B g md" "length (ui_pairs ui) \<le> 2"
  shows "case ui_order W B g ui md of Inl e \<Rightarrow> e = Reject | Inr ui' \<Rightarrow> order_shown W B g md ui ui'"
  by (rule outcome_case [OF ui_order_spec(1) [OF assms] ui_order_spec(2) [OF assms]])

lemma order_screen_shows_orders_witness:
  "case ui_order True ref_bytes (session_ctx (btc_metadata OP_TYPE_ORDER) [leverage_action, order_action])
       (start_screen (btc_metadata OP_TYPE_ORDER)) (btc_metadata OP_TYPE_ORDER) of
     Inl e \<Rightarrow> e = Reject
   | Inr ui' \<Rightarrow> order_shown True ref_bytes (session_ctx (btc_metadata OP_TYPE_ORDER) [leverage_action, order_action])
       (btc_metadata OP_TYPE_ORDER) (start_screen (btc_metadata OP_TYPE_ORDER)) ui'"
  by (rule order_screen_shows_orders [OF request_env [OF order_request_ok] start_screen_room])

text \<open>
  C29: The modification screen is refused or accounts for every request of the session: at most one
  take profit and one stop loss, closing orders of the same size, with their prices and order ids.
\<close>

lemma modify_screen_shows_triggers:
  assumes "screen_env B g md" "length (ui_pairs ui) \<le> 2"
  shows "case ui_modify W B g ui md of Inl e \<Rightarrow> e = Reject | Inr ui' \<Rightarrow> modify_shown W B g md ui ui'"
  using ui_modify_spec [OF assms, of W] by (intro outcome_case) simp_all

lemma modify_screen_shows_triggers_witness:
  "case ui_modify True ref_bytes (session_ctx (btc_metadata OP_TYPE_MODIFY) [modify_action])
       (start_screen (btc_metadata OP_TYPE_MODIFY)) (btc_metadata OP_TYPE_MODIFY) of
     Inl e \<Rightarrow> e = Reject
   | Inr ui' \<Rightarrow> modify_shown True ref_bytes (session_ctx (btc_metadata OP_TYPE_MODIFY) [modify_action])
       (btc_metadata OP_TYPE_MODIFY) (start_screen (btc_metadata OP_TYPE_MODIFY)) ui'"
  by (rule modify_screen_shows_triggers [OF request_env [OF more_requests(1)] start_screen_room])

text \<open>
  C30: The cancellation screens are refused or show the id of every order that is cancelled: one, or
  two when take profit and stop loss are cancelled together.
\<close>

lemma cancel_screens_show_orders:
  assumes "screen_env B g md" "length (ui_pairs ui) \<le> 2"
  shows "(case ui_cancel W B g ui md of
       Inl e \<Rightarrow> e = Reject
     | Inr ui' \<Rightarrow> cancel_shown B g md 1 (''Cancel order - '' @ md_asset_ticker md) (cancel_intent W md) ui ui') \<and>
    (case ui_cancel_tp_sl W B g ui md of
       Inl e \<Rightarrow> e = Reject
     | Inr ui' \<Rightarrow> cancel_shown B g md (if md_op_type md = OP_TYPE_CANCEL_TP_SL then 2 else 1) (cancel_tp_sl_op W md)
         (cancel_tp_sl_intent W md) ui ui')"
  using ui_cancel_spec [OF assms, of W] ui_cancel_tp_sl_spec [OF assms, of W] by (intro conjI outcome_case) simp_all

lemma cancel_screens_show_orders_witness:
  "case ui_cancel_tp_sl True ref_bytes (session_ctx (btc_metadata OP_TYPE_CANCEL_TP_SL) [cancel_pair_action])
       (start_screen (btc_metadata OP_TYPE_CANCEL_TP_SL)) (btc_metadata OP_TYPE_CANCEL_TP_SL) of
     Inl e \<Rightarrow> e = Reject
   | Inr ui' \<Rightarrow> cancel_shown ref_bytes (session_ctx (btc_metadata OP_TYPE_CANCEL_TP_SL) [cancel_pair_action])
       (btc_metadata OP_TYPE_CANCEL_TP_SL) 2 (cancel_tp_sl_op True (btc_metadata OP_TYPE_CANCEL_TP_SL))
       (cancel_tp_sl_intent True (btc_metadata OP_TYPE_CANCEL_TP_SL)) (start_screen (btc_metadata OP_TYPE_CANCEL_TP_SL)) ui'"
proof -
  have op: "md_op_type (btc_metadata OP_TYPE_CANCEL_TP_SL) = OP_TYPE_CANCEL_TP_SL" by (simp add: btc_metadata_def)
  from conjunct2 [OF cancel_screens_show_orders [OF request_env [OF more_requests(4)] start_screen_room
      [of "btc_metadata OP_TYPE_CANCEL_TP_SL"], of True]]
  show ?thesis unfolding op by (simp only: simp_thms if_True)
qed

text \<open>
  C31: The closing screen is refused or the session has exactly one order, a reduce-only limit
  order, and the screen shows its side and size.
\<close>

lemma close_screen_shows_position:
  assumes "screen_env B g md" "length (ui_pairs ui) \<le> 2"
  shows "case ui_close W B g ui md of Inl e \<Rightarrow> e = Reject | Inr ui' \<Rightarrow> close_shown W B g md ui ui'"
  using ui_close_spec [OF assms, of W] by (intro outcome_case) simp_all

lemma close_screen_shows_position_witness:
  "case ui_close True ref_bytes (session_ctx (btc_metadata OP_TYPE_CLOSE) [close_action])
       (start_screen (btc_metadata OP_TYPE_CLOSE)) (btc_metadata OP_TYPE_CLOSE) of
     Inl e \<Rightarrow> e = Reject
   | Inr ui' \<Rightarrow> close_shown True ref_bytes (session_ctx (btc_metadata OP_TYPE_CLOSE) [close_action])
       (btc_metadata OP_TYPE_CLOSE) (start_screen (btc_metadata OP_TYPE_CLOSE)) ui'"
  by (rule close_screen_shows_position [OF request_env [OF more_requests(2)] start_screen_room])

text \<open>
  C32: The margin screen is refused or shows the side of the position, the amount of the change and,
  in the prompt, whether it is added or removed; the amount is the absolute value of the signed
  64-bit change, at the least integer too.
\<close>

lemma margin_screen_shows_change:
  assumes "screen_env B g md" "length (ui_pairs ui) \<le> 2"
  shows "(case ui_update_margin W B g ui md of Inl e \<Rightarrow> e = Reject | Inr ui' \<Rightarrow> margin_shown W B g md ui ui') \<and>
     int (unat (margin_magnitude n)) = \<bar>sint n\<bar>"
  using ui_update_margin_spec [OF assms, of W] by (intro conjI outcome_case margin_magnitude_abs) simp_all

lemma margin_screen_shows_change_witness:
  "(case ui_update_margin True ref_bytes (session_ctx (btc_metadata OP_TYPE_UPDATE_MARGIN) [margin_action])
       (start_screen (btc_metadata OP_TYPE_UPDATE_MARGIN)) (btc_metadata OP_TYPE_UPDATE_MARGIN) of
     Inl e \<Rightarrow> e = Reject
   | Inr ui' \<Rightarrow> margin_shown True ref_bytes (session_ctx (btc_metadata OP_TYPE_UPDATE_MARGIN) [margin_action])
       (btc_metadata OP_TYPE_UPDATE_MARGIN) (start_screen (btc_metadata OP_TYPE_UPDATE_MARGIN)) ui') \<and>
   int (unat (margin_magnitude (- (2 ^ 63)))) = \<bar>sint (- (2 ^ 63) :: 64 word)\<bar>"
  by (rule margin_screen_shows_change [OF request_env [OF more_requests(3)] start_screen_room])

section \<open>Errors\<close>

text \<open>
  C33: While a review is displayed, every command, well formed or not, is answered with
  SWO_COMMAND_ERROR_NO_INFO and changes nothing else.
\<close>

lemma review_blocks_commands:
  assumes "platform_ok P" "dev_inv P dv" "dv_review dv \<noteq> None"
  shows "app_command P raw dv =
    Inr (Some (dv\<lparr>dv_sent := dv_sent dv @ [\<lparr>rs_data = [], rs_sw = SWO_COMMAND_ERROR_NO_INFO\<rparr>]\<rparr>))"
  using dev_invD(4) [OF assms(2)] assms(3)
  by (simp add: app_command_def comm_enabled_def io_send_sw_def io_send_response_def Let_def)

lemma review_blocks_commands_witness:
  "\<exists>dv. dv_review dv = Some order_screen \<and> app_command ref_platform sign_apdu dv =
    Inr (Some (dv\<lparr>dv_sent := dv_sent dv @ [\<lparr>rs_data = [], rs_sw = SWO_COMMAND_ERROR_NO_INFO\<rparr>]\<rparr>))"
proof -
  obtain dv where dv: "dev_inv ref_platform dv" "dv_review dv = Some order_screen" using order_reviewed .
  then have "dv_review dv \<noteq> None" by simp
  with review_blocks_commands [OF ref_platform_ok dv(1)] dv(2) show ?thesis by blast
qed

text \<open>
  C34: When the user rejects a review, the client is told so, nothing is signed, the session is
  dropped, commands are enabled again and the home screen is shown.
\<close>

lemma rejected_review_signs_nothing:
  assumes "platform_ok P" "dev_inv P dv" "review_choice P False dv = Inr dv'"
  shows "dv_sent dv' = dv_sent dv @ [\<lparr>rs_data = [], rs_sw = SWO_CONDITIONS_NOT_SATISFIED\<rparr>] \<and>
     signatures dv' = signatures dv \<and> dv_ctx dv' = s_hl_context_0 \<and> dv_review dv' = None \<and> dv_comm_enabled dv' \<and>
     last (dv_displayed dv') = Menu"
proof -
  have "dv' = show_display Menu ((answered_review dv)\<lparr>dv_ctx := s_hl_context_0,
      dv_sent := dv_sent dv @ [\<lparr>rs_data = [], rs_sw = SWO_CONDITIONS_NOT_SATISFIED\<rparr>]\<rparr>)"
    using assms(3) by (simp add: review_choice_def Let_def answered_review_def enable_comm_def io_send_sw_def
        io_send_response_def ctx_reset_def)
  then show ?thesis by (simp add: show_display_def signatures_def answered_review_def enable_comm_def)
qed

lemma rejected_review_signs_nothing_witness:
  "\<exists>dv dv'. review_choice ref_platform False dv = Inr dv' \<and> dv_review dv = Some order_screen \<and>
     signatures dv' = signatures dv \<and> dv_ctx dv' = s_hl_context_0"
proof -
  obtain dv where dv: "dev_inv ref_platform dv" "dv_review dv = Some order_screen" using order_reviewed .
  obtain dv' where "review_choice ref_platform False dv = Inr dv'" by (simp add: review_choice_def Let_def)
  with rejected_review_signs_nothing [OF ref_platform_ok dv(1) this] dv(2) show ?thesis by blast
qed

text \<open>
  C35: When the signature function fails after an approval, the response is an error and nothing is
  signed, yet the status that the user sees is that the message was signed: review_choice takes
  every return value of sign_action but -1 for success, and a refusal that was sent is one.
\<close>

lemma failed_signature_shown_as_signed:
  assumes "platform_ok P" "dev_inv P dv" "\<And>p m. bip32_ecdsa_sign (pf_cx P) p m = None"
    and "\<And>rs r. io_ret P rs r \<noteq> -1"
  shows "\<exists>dv'. review_choice P True dv = Inr dv' \<and> signatures dv' = signatures dv \<and>
     last (dv_sent dv') = \<lparr>rs_data = [], rs_sw = SWO_INCORRECT_DATA\<rparr> \<and>
     last (dv_displayed dv') = Status_message_signed"
proof -
  let ?dv = "answered_review dv" and ?r = "\<lparr>rs_data = [], rs_sw = SWO_INCORRECT_DATA\<rparr>"
  have fails: "eip712_sign (pf_cx P) path d m \<noteq> Inr sg" for path d m sg
    using assms(3) by (auto simp: eip712_sign_def rbind_Inr_conv)
  obtain ret where run: "sign_action P ?dv = Inr (ret, ?dv\<lparr>dv_sent := dv_sent ?dv @ [?r]\<rparr>)"
    using sign_action_cases [OF assms(1) answered_review_inv [OF assms(2)]] fails unfolding signed_by_def by blast
  from sign_action_ret [OF run] assms(4) have "ret \<noteq> -1" by auto
  with run have "review_choice P True dv = Inr (show_display Status_message_signed (?dv\<lparr>dv_sent := dv_sent dv @ [?r]\<rparr>))"
    by (simp add: review_choice_confirm after_signing_def)
  then show ?thesis by (simp add: show_display_def signatures_def)
qed

lemma failed_signature_shown_as_signed_witness:
  "\<exists>dv dv'. dv_review dv = Some order_screen \<and> review_choice deaf_platform True dv = Inr dv' \<and>
     signatures dv' = signatures dv \<and> last (dv_displayed dv') = Status_message_signed"
proof -
  obtain dv where "dev_inv deaf_platform dv" "dv_review dv = Some order_screen" using deaf_reviewed .
  with failed_signature_shown_as_signed [OF deaf_platform_ok _ deaf_simps] show ?thesis by blast
qed

text \<open>
  C36: The order screen does not refuse a reduce-only market order: a session with one such order is
  accepted with the prompt to open a position on the side that the order closes, 'Open BTC short'
  for a buy that reduces a short position.
\<close>

lemma reduce_only_order_shown_as_opening:
  assumes "screen_env B g md" "length (ui_pairs ui) \<le> 2"
    and "ctx_get_action ACTION_TYPE_BULK_ORDER g = Some a" "ctx_get_action ACTION_TYPE_UPDATE_LEVERAGE g = None"
    and "bulk_orders (act_bulk_order a) = [r]" "get_limit_request r" "tif (or_limit r) = TIF_IOC" "or_reduce_only r"
  shows "\<exists>ui'. ui_order True B g ui md = Inr ui' \<and>
     ui_intent ui' = ''Open '' @ md_asset_ticker md @ '' '' @ (if or_is_buy r then ''short'' else ''long'')"
  by (rule reduce_only_opening [OF assms])

lemma reduce_only_order_shown_as_opening_witness:
  "\<exists>ui'. ui_order True ref_bytes (session_ctx (btc_metadata OP_TYPE_ORDER) [reduce_action])
       (start_screen (btc_metadata OP_TYPE_ORDER)) (btc_metadata OP_TYPE_ORDER) = Inr ui' \<and> ui_intent ui' = ''Open BTC short''"
proof -
  have "md_asset_ticker (btc_metadata OP_TYPE_ORDER) = ''BTC''" by (simp add: btc_metadata_def)
  with reduce_only_order_shown_as_opening [OF request_env [OF reduce_request_ok] start_screen_room reduce_session(1-6)]
  show ?thesis by (simp add: reduce_session(7))
qed

section \<open>Encoding\<close>





section \<open>The main loop\<close>





end
